(* ===== verification/Prelude.thy ===== *)
theory Prelude
  imports Complex_Main "HOL-Library.Word" "HOL-Library.Signed_Division"
begin

text \<open>
  Shared vocabulary of the development: the collections of simplification rules, the
  helpers of the C++ standard library the sources use (\<open>std::clamp\<close>, the
  cross-fade formula) and the generic facts on lists, ring indices and reals that the
  component theories share. Every \<open>float\<close> and \<open>double\<close> of the sources is a
  \<^typ>\<open>real\<close> here: the arithmetic is the ideal one, rounding is not modelled.
\<close>

section \<open>Collections\<close>

named_theorems len_simps \<open>lengths of the fixed-size arrays\<close>
named_theorems table_defs \<open>definitions of the constant tables\<close>

section \<open>Standard-library helpers\<close>

definition clamp :: "'a::linorder \<Rightarrow> 'a \<Rightarrow> 'a \<Rightarrow> 'a" where
  "clamp v lo hi = (if v < lo then lo else if hi < v then hi else v)"

lemma clamp_lower: "lo \<le> hi \<Longrightarrow> lo \<le> clamp v lo hi"
  by (auto simp: clamp_def)

lemma clamp_upper: "lo \<le> hi \<Longrightarrow> clamp v lo hi \<le> hi"
  by (auto simp: clamp_def)

lemma clamp_id [simp]: "lo \<le> v \<Longrightarrow> v \<le> hi \<Longrightarrow> clamp v lo hi = v"
  by (auto simp: clamp_def)

lemma clamp_low [simp]: "v \<le> lo \<Longrightarrow> lo \<le> hi \<Longrightarrow> clamp v lo hi = lo"
  by (auto simp: clamp_def)

lemma clamp_high [simp]: "hi \<le> v \<Longrightarrow> lo \<le> hi \<Longrightarrow> clamp v lo hi = hi"
  by (auto simp: clamp_def)

lemma clamp_mono: "lo \<le> hi \<Longrightarrow> u \<le> v \<Longrightarrow> clamp u lo hi \<le> clamp v lo hi"
  by (auto simp: clamp_def)

text \<open>The cross-fade \<open>(1 - w) * a + w * b\<close> every blend of the sources uses.\<close>

definition mix :: "real \<Rightarrow> real \<Rightarrow> real \<Rightarrow> real" where
  "mix w a b = (1 - w) * a + w * b"

lemma mix_0 [simp]: "mix 0 a b = a"
  by (simp add: mix_def)

lemma mix_1 [simp]: "mix 1 a b = b"
  by (simp add: mix_def)

lemma mix_same [simp]: "mix w a a = a"
  by (simp add: mix_def algebra_simps)

lemma mix_to_target: "mix w a b - b = (1 - w) * (a - b)"
  by (simp add: mix_def algebra_simps)

lemma mix_from_start: "mix w a b - a = w * (b - a)"
  by (simp add: mix_def algebra_simps)

lemma mix_between:
  assumes "0 \<le> w" "w \<le> 1" "lo \<le> a" "a \<le> hi" "lo \<le> b" "b \<le> hi"
  shows "lo \<le> mix w a b" "mix w a b \<le> hi"
proof -
  have "(1 - w) * lo + w * lo \<le> (1 - w) * a + w * b"
    using assms by (intro add_mono mult_left_mono) auto
  then show "lo \<le> mix w a b" by (simp add: mix_def algebra_simps)
  have "(1 - w) * a + w * b \<le> (1 - w) * hi + w * hi"
    using assms by (intro add_mono mult_left_mono) auto
  then show "mix w a b \<le> hi" by (simp add: mix_def algebra_simps)
qed

lemma mix_min_max:
  assumes "0 \<le> w" "w \<le> 1"
  shows "min a b \<le> mix w a b" "mix w a b \<le> max a b"
  using mix_between[OF assms, of "min a b" a "max a b" b] by auto

section \<open>C++ integer division and array types\<close>

text \<open>
  Integer division of C++ truncates towards zero (\<open>duration_cast\<close> as well): it is the
  library's \<open>sdiv\<close>.
\<close>

lemma sdiv_nonneg [simp]:
  fixes n d :: int
  shows "\<lbrakk>0 \<le> n; 0 < d\<rbrakk> \<Longrightarrow> n sdiv d = n div d"
  by (cases "n = 0") (auto simp: signed_divide_int_def)

text \<open>Conversion of a \<open>double\<close> to an integer truncates as well.\<close>

definition trunc_real :: "real \<Rightarrow> int" where
  "trunc_real x = (if x < 0 then \<lceil>x\<rceil> else \<lfloor>x\<rfloor>)"

type_synonym vec3 = "real \<times> real \<times> real"
type_synonym quat = "real \<times> real \<times> real \<times> real"  \<comment> \<open>w, x, y, z\<close>
type_synonym time = int  \<comment> \<open>steady clock, nanoseconds\<close>

definition vec3_list :: "vec3 \<Rightarrow> real list" where
  "vec3_list v = (case v of (x, y, z) \<Rightarrow> [x, y, z])"

definition quat_list :: "quat \<Rightarrow> real list" where
  "quat_list q = (case q of (w, x, y, z) \<Rightarrow> [w, x, y, z])"

lemma length_vec3_list [simp, len_simps]: "length (vec3_list v) = 3"
  by (cases v) (simp add: vec3_list_def)

lemma length_quat_list [simp, len_simps]: "length (quat_list q) = 4"
  by (cases q) (simp add: quat_list_def)

section \<open>Lists\<close>

text \<open>The last \<open>n\<close> elements, the contents of a bounded history.\<close>

definition last_n :: "nat \<Rightarrow> 'a list \<Rightarrow> 'a list" where
  "last_n n xs = drop (length xs - n) xs"

lemma length_last_n [simp]: "length (last_n n xs) = min n (length xs)"
  by (auto simp: last_n_def)

lemma last_n_short [simp]: "length xs \<le> n \<Longrightarrow> last_n n xs = xs"
  by (simp add: last_n_def)

lemma last_n_snoc_absorb: "last_n n (last_n n xs @ [x]) = last_n n (xs @ [x])"
  by (cases "length xs < n") (auto simp: last_n_def Suc_diff_le)

lemma last_n_append_absorb: "last_n n (last_n n xs @ ys) = last_n n (xs @ ys)"
  by (cases "n \<le> length xs") (auto simp: last_n_def ac_simps)

lemma last_n_last_n [simp]: "m \<le> n \<Longrightarrow> last_n m (last_n n xs) = last_n m xs"
  by (cases "n \<le> length xs") (auto simp: last_n_def)

lemma last_n_last: "0 < n \<Longrightarrow> last (last_n n (xs @ [x])) = x"
  by (simp add: last_n_def)

lemma last_n_suffix: "\<exists>pre. xs = pre @ last_n n xs"
  by (metis append_take_drop_id last_n_def)

text \<open>Copying an array into a buffer at an offset.\<close>

definition write_at :: "nat \<Rightarrow> 'a list \<Rightarrow> 'a list \<Rightarrow> 'a list" where
  "write_at off xs dst = take off dst @ xs @ drop (off + length xs) dst"

lemma length_write_at [simp]: "off + length xs \<le> length dst \<Longrightarrow> length (write_at off xs dst) = length dst"
  by (simp add: write_at_def)

lemma write_at_nth:
  "off + length xs \<le> length dst \<Longrightarrow> k < length dst \<Longrightarrow>
   write_at off xs dst ! k = (if off \<le> k \<and> k < off + length xs then xs ! (k - off) else dst ! k)"
  by (auto simp: write_at_def nth_append)

text \<open>Offsets below the capacity of a ring address different slots.\<close>

lemma ring_index_less:
  fixes s i j c :: nat
  assumes "i < j" "j < c"
  shows "(s + i) mod c \<noteq> (s + j) mod c"
proof
  assume "(s + i) mod c = (s + j) mod c"
  then have "(s + j) mod c = (s + i) mod c" by simp
  then have "c dvd (s + j) - (s + i)"
    using assms(1) by (subst (asm) mod_eq_dvd_iff_nat) simp_all
  then have "c \<le> j - i" using assms(1) by (intro dvd_imp_le) simp_all
  with assms show False by simp
qed

lemma ring_index_inj:
  fixes s i j c :: nat
  assumes "i < c" "j < c" "(s + i) mod c = (s + j) mod c"
  shows "i = j"
  using ring_index_less[of i j c s] ring_index_less[of j i c s] assms
  by (metis nat_neq_iff)

lemma map2_nth_eq:
  "length xs = n \<Longrightarrow> length ys = n \<Longrightarrow>
   map (\<lambda>i. f (xs ! i) (ys ! i)) [0..<n] = map2 f xs ys"
  by (rule nth_equalityI) auto
section \<open>Held for so many samples\<close>

text \<open>Length of the run of samples satisfying \<open>P\<close> that the history ends with.\<close>

definition tail_run :: "('a \<Rightarrow> bool) \<Rightarrow> 'a list \<Rightarrow> nat" where
  "tail_run P xs = length (takeWhile P (rev xs))"

lemma tail_run_Nil [simp]: "tail_run P [] = 0"
  by (simp add: tail_run_def)

lemma tail_run_snoc [simp]: "tail_run P (xs @ [x]) = (if P x then Suc (tail_run P xs) else 0)"
  by (simp add: tail_run_def)

text \<open>Some \<open>n\<close> consecutive elements satisfy \<open>P\<close>.\<close>

definition sustained :: "nat \<Rightarrow> ('a \<Rightarrow> bool) \<Rightarrow> 'a list \<Rightarrow> bool" where
  "sustained n P xs \<longleftrightarrow> (\<exists>pre mid post. xs = pre @ mid @ post \<and> length mid = n \<and> list_all P mid)"

lemma tail_run_ge: "n \<le> tail_run P xs \<longleftrightarrow> (\<exists>pre mid. xs = pre @ mid \<and> length mid = n \<and> list_all P mid)"
proof
  assume n: "n \<le> tail_run P xs"
  let ?t = "takeWhile P (rev xs)"
  have "xs = rev (dropWhile P (rev xs)) @ rev ?t"
    by (metis rev_append rev_rev_ident takeWhile_dropWhile_id)
  moreover have "rev ?t = rev (drop n ?t) @ rev (take n ?t)"
    by (metis append_take_drop_id rev_append)
  ultimately have "xs = (rev (dropWhile P (rev xs)) @ rev (drop n ?t)) @ rev (take n ?t)" by simp
  moreover have "length (rev (take n ?t)) = n" using n by (simp add: tail_run_def)
  moreover have "list_all P (rev (take n ?t))"
    by (auto simp: list_all_iff dest!: in_set_takeD set_takeWhileD)
  ultimately show "\<exists>pre mid. xs = pre @ mid \<and> length mid = n \<and> list_all P mid" by blast
next
  assume "\<exists>pre mid. xs = pre @ mid \<and> length mid = n \<and> list_all P mid"
  then obtain pre mid where "xs = pre @ mid" "length mid = n" "list_all P mid" by blast
  moreover from this(3) have "takeWhile P (rev mid @ rev pre) = rev mid @ takeWhile P (rev pre)"
    by (intro takeWhile_append2) (simp add: list_all_iff)
  ultimately show "n \<le> tail_run P xs" by (simp add: tail_run_def)
qed

lemma sustained_snoc: "sustained n P (xs @ [x]) \<longleftrightarrow> sustained n P xs \<or> n \<le> tail_run P (xs @ [x])"
proof
  assume "sustained n P (xs @ [x])"
  then obtain pre mid post where e: "xs @ [x] = pre @ mid @ post" "length mid = n" "list_all P mid"
    by (auto simp: sustained_def)
  show "sustained n P xs \<or> n \<le> tail_run P (xs @ [x])"
  proof (cases post rule: rev_cases)
    case Nil
    with e show ?thesis unfolding tail_run_ge by fastforce
  next
    case (snoc ys y)
    with e have "xs = pre @ mid @ ys" by simp
    with e show ?thesis unfolding sustained_def by blast
  qed
next
  assume "sustained n P xs \<or> n \<le> tail_run P (xs @ [x])"
  then show "sustained n P (xs @ [x])"
    unfolding sustained_def tail_run_ge by (metis append.assoc append_Nil2)
qed

lemma sustained_Nil: "sustained n P [] \<longleftrightarrow> n = 0"
  by (auto simp: sustained_def)

section \<open>Latched conditions\<close>

text \<open>
  The shape of every latched alarm of the program, as a predicate of the history: at some
  element \<open>x\<close> the history up to it triggered, and every element from \<open>x\<close> on keeps the
  condition.
\<close>

definition held_since :: "('a list \<Rightarrow> bool) \<Rightarrow> ('a \<Rightarrow> bool) \<Rightarrow> 'a list \<Rightarrow> bool" where
  "held_since trig keep xs \<longleftrightarrow>
     (\<exists>pre x post. xs = pre @ x # post \<and> trig (pre @ [x]) \<and> list_all keep (x # post))"

lemma held_since_Nil [simp]: "\<not> held_since trig keep []"
  by (simp add: held_since_def)

lemma held_since_snoc:
  "held_since trig keep (xs @ [y]) \<longleftrightarrow> keep y \<and> (held_since trig keep xs \<or> trig (xs @ [y]))"
  (is "?l \<longleftrightarrow> ?r")
proof
  assume ?l
  then obtain pre x post where split: "xs @ [y] = pre @ x # post"
    and t: "trig (pre @ [x])" and h: "list_all keep (x # post)"
    by (auto simp: held_since_def)
  show ?r
  proof (cases post rule: rev_cases)
    case Nil
    with split t h show ?thesis by simp
  next
    case (snoc post' z)
    with split have "xs = pre @ x # post'" "z = y" by simp_all
    moreover from t h snoc this have "held_since trig keep xs"
      unfolding held_since_def by (intro exI[of _ pre] exI[of _ x] exI[of _ post']) simp
    ultimately show ?thesis using h snoc by simp
  qed
next
  assume r: ?r
  then consider "held_since trig keep xs" "keep y" | "trig (xs @ [y])" "keep y" by blast
  then show ?l
  proof cases
    case 1
    then obtain pre x post where "xs = pre @ x # post" "trig (pre @ [x])" "list_all keep (x # post)"
      by (auto simp: held_since_def)
    with 1 show ?thesis
      unfolding held_since_def by (intro exI[of _ pre] exI[of _ x] exI[of _ "post @ [y]"]) simp
  next
    case 2
    then show ?thesis
      unfolding held_since_def by (intro exI[of _ xs] exI[of _ y] exI[of _ "[]"]) simp
  qed
qed

lemma held_since_replicate:
  "held_since trig keep (replicate n x) \<longleftrightarrow> keep x \<and> (\<exists>k<n. trig (replicate (Suc k) x))"
proof (induction n)
  case (Suc n)
  have "replicate (Suc n) x = replicate n x @ [x]" by (simp add: replicate_append_same)
  then have "held_since trig keep (replicate (Suc n) x) \<longleftrightarrow>
      keep x \<and> (held_since trig keep (replicate n x) \<or> trig (replicate (Suc n) x))"
    by (simp only: held_since_snoc)
  with Suc show ?case by (auto simp: less_Suc_eq)
qed simp

text \<open>
  A step function whose \<open>on\<close> bit is set by \<open>trig\<close> and survives while \<open>keep\<close> holds is
  described by \<open>held_since\<close> on every run.
\<close>

locale latch =
  fixes step :: "'a \<Rightarrow> 's \<Rightarrow> 's"
    and init :: 's
    and on :: "'s \<Rightarrow> bool"
    and trig :: "'a list \<Rightarrow> bool"
    and keep :: "'a \<Rightarrow> bool"
  assumes off_init: "\<not> on init"
    and on_step: "on (step x (fold step xs init)) \<longleftrightarrow>
      keep x \<and> (on (fold step xs init) \<or> trig (xs @ [x]))"
begin

lemma on_iff: "on (fold step xs init) \<longleftrightarrow> held_since trig keep xs"
  by (induction xs rule: rev_induct) (simp_all add: off_init on_step held_since_snoc)

lemma on_after_trigger: "trig xs \<Longrightarrow> xs \<noteq> [] \<Longrightarrow> keep (last xs) \<Longrightarrow> on (fold step xs init)"
  unfolding on_iff by (cases xs rule: rev_cases) (simp_all add: held_since_snoc)

end

section \<open>Interleaved steps\<close>

text \<open>A run of events, each of which may fault; the loops of the program side by side are such a run.\<close>

fun run_steps :: "('e \<Rightarrow> 's \<Rightarrow> 's option) \<Rightarrow> 'e list \<Rightarrow> 's \<Rightarrow> 's option" where
  "run_steps step [] s = Some s"
| "run_steps step (e # es) s = (case step e s of None \<Rightarrow> None | Some s' \<Rightarrow> run_steps step es s')"

lemma run_steps_append:
  "run_steps step (xs @ ys) s = (case run_steps step xs s of None \<Rightarrow> None | Some s' \<Rightarrow> run_steps step ys s')"
  by (induction xs arbitrary: s) (simp_all split: option.split)

lemma run_steps_Cons_SomeE:
  assumes "run_steps step (e # es) s = Some s'"
  obtains s1 where "step e s = Some s1" "run_steps step es s1 = Some s'"
  using assms by (auto split: option.splits)

text \<open>
  Steps that never fault from a state of the invariant and keep it; \<open>writes\<close> is what a step
  appends to a log it writes to.
\<close>

locale stepper =
  fixes step :: "'e \<Rightarrow> 's \<Rightarrow> 's option" and inv :: "'s \<Rightarrow> bool" and ok :: "'e \<Rightarrow> bool"
    and log_of :: "'s \<Rightarrow> 'm list" and writes :: "'e \<Rightarrow> bool" and good :: "'m \<Rightarrow> bool"
  assumes total: "inv s \<Longrightarrow> ok e \<Longrightarrow> \<exists>s'. step e s = Some s' \<and> inv s'"
    and appends: "inv s \<Longrightarrow> ok e \<Longrightarrow> step e s = Some s' \<Longrightarrow>
      \<exists>ms. log_of s' = log_of s @ ms \<and> list_all good ms \<and> length ms = length (filter writes [e])"
begin

lemma run_total:
  "inv s \<Longrightarrow> list_all ok es \<Longrightarrow> \<exists>s' ms. run_steps step es s = Some s' \<and> inv s'
     \<and> log_of s' = log_of s @ ms \<and> list_all good ms \<and> length ms = length (filter writes es)"
proof (induction es arbitrary: s)
  case (Cons e es)
  obtain s1 where s1: "step e s = Some s1" "inv s1" using total Cons.prems by fastforce
  obtain ms1 where ms1: "log_of s1 = log_of s @ ms1" "list_all good ms1" "length ms1 = length (filter writes [e])"
    using appends[OF Cons.prems(1) _ s1(1)] Cons.prems(2) by auto
  from Cons.IH[OF s1(2)] Cons.prems(2) obtain s' ms where "run_steps step es s1 = Some s'" "inv s'"
    "log_of s' = log_of s1 @ ms" "list_all good ms" "length ms = length (filter writes es)" by auto
  then show ?case using s1 ms1 by (intro exI[of _ s'] exI[of _ "ms1 @ ms"]) auto
qed simp

end

end
