(* ===== verification/Arbiter.thy ===== *)
theory Arbiter
  imports Prelude
begin

text \<open>
  The control-source arbitration stage, \<open>include/control/control_arbiter.hpp\<close>, with
  the constants of \<open>include/vla/\<close> it uses: the transition function, the token blends,
  and what they guarantee (every exit through the origin, no step on a handover, the safe
  standing token reached at the end of the recovery blend).
\<close>

section \<open>Constants\<close>

definition kVlaTokenFreshMs :: real where "kVlaTokenFreshMs = 200"
definition kVlaTokenHoldMs :: real where "kVlaTokenHoldMs = 500"
definition kVlaLossBlendTicks :: int where "kVlaLossBlendTicks = 50"
definition kRecoveryBlendTicks :: int where "kRecoveryBlendTicks = kVlaLossBlendTicks"
definition kHandoffBlendTicks :: int where "kHandoffBlendTicks = 35"

type_synonym token = "real list"

text \<open>The 64 latent values, in sixteenths as the source's decimals all are.\<close>

definition kVlaSafeStandingToken :: token where
  "kVlaSafeStandingToken = map (\<lambda>k. real_of_int k / 16)
    [ 0, -6, -2, -2,  2,  2, -1,
     -1, -4, -1, -3, -1,  6,  2,
      2,  1, -2, -2, -2,  2, -1,
     -1,  0,  4, -7,  4, -2,  1,
      3, -4,  0,  2,  0,  0,  4,
      0, -2, -1,  2, -1, -4,  3,
     -1,  2,  0,  7,  6,  0,  4,
     -2, -1, -1, -5, -2,  2, -3,
      7, -1,  1, -1, -4,  1, -3,
      2]"

lemma length_safe_token [simp, len_simps]: "length kVlaSafeStandingToken = 64"
  by (simp add: kVlaSafeStandingToken_def)

section \<open>State and operations\<close>

datatype arb_mode = KNormal | KTeleop | KVla | KRecovering

record arbiter =
  arb_mode :: arb_mode
  held_token :: token
  recovery_blend_tick :: int
  handoff_blend_ticks :: int

definition arbiter_init :: arbiter where
  "arbiter_init = \<lparr>arb_mode = KNormal, held_token = kVlaSafeStandingToken,
     recovery_blend_tick = 0, handoff_blend_ticks = 0\<rparr>"

definition decide :: "arb_mode \<Rightarrow> bool \<Rightarrow> bool \<Rightarrow> bool \<Rightarrow> bool \<Rightarrow> arb_mode" where
  "decide current vla_fresh vla_alive calibrated recovery_done =
     (case current of
        KNormal \<Rightarrow> if vla_fresh then KVla else if calibrated then KTeleop else KNormal
      | KTeleop \<Rightarrow> if calibrated then KTeleop else KNormal
      | KVla \<Rightarrow> if vla_alive then KVla else KRecovering
      | KRecovering \<Rightarrow> if recovery_done then KNormal else KRecovering)"

definition step_mode :: "bool \<Rightarrow> bool \<Rightarrow> bool \<Rightarrow> bool \<Rightarrow> arbiter \<Rightarrow> arbiter" where
  "step_mode vla_fresh vla_alive calibrated recovery_done a =
     (let cur = arb_mode a;
          nxt = decide cur vla_fresh vla_alive calibrated recovery_done
      in if nxt \<noteq> cur then
           a\<lparr>recovery_blend_tick := (if nxt = KRecovering then 0 else recovery_blend_tick a),
             handoff_blend_ticks :=
               (if (cur = KRecovering \<and> nxt = KNormal) \<or> nxt = KVla
                then kHandoffBlendTicks else handoff_blend_ticks a),
             arb_mode := nxt\<rparr>
         else a)"

definition recovery_blend_done :: "arbiter \<Rightarrow> bool" where
  "recovery_blend_done a \<longleftrightarrow> recovery_blend_tick a \<ge> kRecoveryBlendTicks"

definition arm_handoff :: "arbiter \<Rightarrow> arbiter" where
  "arm_handoff a = a\<lparr>handoff_blend_ticks := kHandoffBlendTicks\<rparr>"

text \<open>The loop \<open>out[i] = (1 - w) * held[i] + w * out[i]\<close>.\<close>

definition blend_token :: "real \<Rightarrow> token \<Rightarrow> token \<Rightarrow> token" where
  "blend_token w from_tok to_tok = map2 (mix w) from_tok to_tok"

text \<open>The body shared by the \<open>kVla\<close> case and the default case of \<open>select_token\<close>.\<close>

definition crossfade :: "arbiter \<Rightarrow> token \<Rightarrow> token \<times> arbiter" where
  "crossfade a src =
     (if handoff_blend_ticks a > 0 then
        let w = 1 - real_of_int (handoff_blend_ticks a) / real_of_int kHandoffBlendTicks;
            out = blend_token w (held_token a) src
        in (out, a\<lparr>handoff_blend_ticks := handoff_blend_ticks a - 1, held_token := out\<rparr>)
      else (src, a\<lparr>held_token := src\<rparr>))"

definition recovery_blend :: "arbiter \<Rightarrow> token \<times> arbiter" where
  "recovery_blend a =
     (let tick = (if recovery_blend_tick a < kRecoveryBlendTicks
                  then recovery_blend_tick a + 1 else recovery_blend_tick a);
          w = real_of_int tick / real_of_int kRecoveryBlendTicks;
          out = blend_token w (held_token a) kVlaSafeStandingToken
      in (out, a\<lparr>recovery_blend_tick := tick, held_token := out\<rparr>))"

text \<open>
  The two arguments are pointers in the source; \<^const>\<open>None\<close> as result is the
  dereference of the null pointer the current mode needs.
\<close>

definition select_token ::
  "token option \<Rightarrow> token option \<Rightarrow> arbiter \<Rightarrow> (token \<times> arbiter) option" where
  "select_token encoder_token vla_token a =
     (case arb_mode a of
        KVla \<Rightarrow> map_option (crossfade a) vla_token
      | KRecovering \<Rightarrow> Some (recovery_blend a)
      | _ \<Rightarrow> map_option (crossfade a) encoder_token)"

section \<open>Blends\<close>

lemma length_blend_token [simp, len_simps]:
  "length (blend_token w xs ys) = min (length xs) (length ys)"
  by (simp add: blend_token_def)

lemma blend_token_nth [simp]:
  "i < length xs \<Longrightarrow> i < length ys \<Longrightarrow> blend_token w xs ys ! i = mix w (xs ! i) (ys ! i)"
  by (simp add: blend_token_def)

lemma blend_token_0 [simp]: "length xs = length ys \<Longrightarrow> blend_token 0 xs ys = xs"
  by (rule nth_equalityI) auto

lemma blend_token_1 [simp]: "length xs = length ys \<Longrightarrow> blend_token 1 xs ys = ys"
  by (rule nth_equalityI) auto

definition arb_wf :: "arbiter \<Rightarrow> bool" where
  "arb_wf a \<longleftrightarrow> length (held_token a) = 64 \<and>
     0 \<le> recovery_blend_tick a \<and> recovery_blend_tick a \<le> kRecoveryBlendTicks \<and>
     0 \<le> handoff_blend_ticks a \<and> handoff_blend_ticks a \<le> kHandoffBlendTicks"

lemmas blend_consts = kRecoveryBlendTicks_def kVlaLossBlendTicks_def kHandoffBlendTicks_def

lemma arb_wf_init: "arb_wf arbiter_init"
  by (simp add: arb_wf_def arbiter_init_def blend_consts)

lemma arb_wf_step_mode: "arb_wf a \<Longrightarrow> arb_wf (step_mode vf va c r a)"
  by (auto simp: arb_wf_def step_mode_def Let_def blend_consts)

lemma arb_wf_arm_handoff: "arb_wf a \<Longrightarrow> arb_wf (arm_handoff a)"
  by (auto simp: arb_wf_def arm_handoff_def blend_consts)

lemma arb_wf_crossfade:
  "arb_wf a \<Longrightarrow> length src = 64 \<Longrightarrow> crossfade a src = (out, a') \<Longrightarrow>
   arb_wf a' \<and> length out = 64 \<and> held_token a' = out \<and> arb_mode a' = arb_mode a"
  by (auto simp: arb_wf_def crossfade_def Let_def blend_consts split: if_splits)

lemma arb_wf_recovery_blend:
  "arb_wf a \<Longrightarrow> recovery_blend a = (out, a') \<Longrightarrow>
   arb_wf a' \<and> length out = 64 \<and> held_token a' = out \<and> arb_mode a' = arb_mode a"
  by (auto simp: arb_wf_def recovery_blend_def Let_def blend_consts split: if_splits)

lemma select_token_cases:
  assumes "select_token e v a = Some (out, a')"
  obtains (vla) src where "arb_mode a = KVla" "v = Some src" "crossfade a src = (out, a')"
  | (recovery) "arb_mode a = KRecovering" "recovery_blend a = (out, a')"
  | (encoder) src where "arb_mode a \<in> {KNormal, KTeleop}" "e = Some src"
      "crossfade a src = (out, a')"
  using assms by (auto simp: select_token_def split: arb_mode.splits)

section \<open>Mutual exclusion and the way through the origin\<close>

text \<open>Who holds the robot in a mode: nobody, the operator, or the token stream.\<close>

datatype owner = Operator | Stream

definition owner_of :: "arb_mode \<Rightarrow> owner option" where
  "owner_of m = (case m of KNormal \<Rightarrow> None | KTeleop \<Rightarrow> Some Operator
     | KVla \<Rightarrow> Some Stream | KRecovering \<Rightarrow> Some Stream)"

inductive arb_edge :: "arb_mode \<Rightarrow> arb_mode \<Rightarrow> bool" where
  stay: "arb_edge m m"
| claim_teleop: "arb_edge KNormal KTeleop"
| release_teleop: "arb_edge KTeleop KNormal"
| claim_vla: "arb_edge KNormal KVla"
| stream_lost: "arb_edge KVla KRecovering"
| recovered: "arb_edge KRecovering KNormal"

inductive_cases arb_edge_cases: "arb_edge m m'"

lemma decide_edge: "arb_edge m (decide m vf va c r)"
  by (cases m) (auto simp: decide_def intro: arb_edge.intros)

lemma arb_mode_step_mode [simp]:
  "arb_mode (step_mode vf va c r a) = decide (arb_mode a) vf va c r"
  by (simp add: step_mode_def Let_def)

text \<open>The modes of a run of ticks, the starting mode first.\<close>

fun arb_modes :: "arbiter \<Rightarrow> (bool \<times> bool \<times> bool \<times> bool) list \<Rightarrow> arb_mode list" where
  "arb_modes a [] = [arb_mode a]"
| "arb_modes a ((vf, va, c, r) # is) = arb_mode a # arb_modes (step_mode vf va c r a) is"

lemma arb_modes_nonempty [simp]: "arb_modes a is \<noteq> []"
  by (cases "is") auto

lemma arb_modes_hd [simp]: "arb_modes a is ! 0 = arb_mode a"
  by (cases "is") auto

lemma arb_modes_edges: "Suc k < length (arb_modes a is) \<Longrightarrow>
   arb_edge (arb_modes a is ! k) (arb_modes a is ! Suc k)"
proof (induction a "is" arbitrary: k rule: arb_modes.induct)
  case (1 a)
  then show ?case by simp
next
  case (2 a vf va c r "is")
  show ?case
  proof (cases k)
    case 0
    then show ?thesis by (simp add: decide_edge)
  next
    case (Suc k')
    with 2 show ?thesis by simp
  qed
qed

lemma arb_edge_owner:
  "arb_edge m m' \<Longrightarrow> owner_of m = Some p \<Longrightarrow> m' \<noteq> KNormal \<Longrightarrow> owner_of m' = Some p"
  by (auto elim!: arb_edge.cases simp: owner_of_def)

lemma owner_kept_without_origin:
  assumes edges: "\<And>k. Suc k < length ms \<Longrightarrow> arb_edge (ms ! k) (ms ! Suc k)"
    and "i \<le> j" "j < length ms" "owner_of (ms ! i) = Some p"
    and no_origin: "\<And>k. i < k \<Longrightarrow> k \<le> j \<Longrightarrow> ms ! k \<noteq> KNormal"
  shows "owner_of (ms ! j) = Some p"
  using \<open>i \<le> j\<close> \<open>j < length ms\<close> no_origin
proof (induction j rule: dec_induct)
  case base
  show ?case by fact
next
  case (step n)
  have "owner_of (ms ! n) = Some p"
    using step.prems step.hyps by (intro step.IH) auto
  moreover have "arb_edge (ms ! n) (ms ! Suc n)" using edges step.prems by blast
  moreover have "ms ! Suc n \<noteq> KNormal" using step.prems step.hyps by auto
  ultimately show ?case using arb_edge_owner by blast
qed

text \<open>
  C1: Ownership never passes directly between the operator and the token stream: in any
  run of arbitration ticks, whatever the freshness, calibration and recovery inputs, two
  moments owned by different parties have the origin strictly between them.
\<close>
theorem handover_only_through_origin:
  assumes "i < j" "j < length (arb_modes a ins)"
    and "owner_of (arb_modes a ins ! i) = Some p" "owner_of (arb_modes a ins ! j) = Some q"
    and "p \<noteq> q"
  shows "\<exists>k. i < k \<and> k < j \<and> arb_modes a ins ! k = KNormal"
proof (rule ccontr)
  assume none: "\<not> ?thesis"
  have "arb_modes a ins ! j \<noteq> KNormal" using assms(4) by (auto simp: owner_of_def)
  with none have no_origin: "arb_modes a ins ! k \<noteq> KNormal" if "i < k" "k \<le> j" for k
    using that by (cases "k = j") auto
  have "owner_of (arb_modes a ins ! j) = Some p"
    by (rule owner_kept_without_origin[OF _ less_imp_le[OF assms(1)] assms(2,3)])
      (fact arb_modes_edges, fact no_origin)
  with assms(4,5) show False by simp
qed

lemma handover_only_through_origin_witness:
  "\<exists>k. 1 < k \<and> k < 4 \<and>
     arb_modes arbiter_init
       [(False, False, True, False), (False, False, True, False),
        (True, True, False, False), (True, True, False, False)] ! k = KNormal"
  by (rule handover_only_through_origin[where p = Operator and q = Stream])
    (simp_all add: arbiter_init_def decide_def owner_of_def)

section \<open>The recovery blend\<close>

lemma recovery_blend_nth:
  assumes "arb_wf a" "i < 64" "recovery_blend a = (out, a')"
  shows "out ! i = mix (real_of_int (recovery_blend_tick a') / 50)
                       (held_token a ! i) (kVlaSafeStandingToken ! i)"
  using assms by (auto simp: recovery_blend_def Let_def arb_wf_def blend_consts)

text \<open>\<open>n\<close> consecutive \<open>select_token(nullptr, nullptr)\<close> calls, the last token with the state.\<close>

fun recover_ticks :: "nat \<Rightarrow> arbiter \<Rightarrow> (token \<times> arbiter) option" where
  "recover_ticks 0 a = Some (held_token a, a)"
| "recover_ticks (Suc n) a =
     (case recover_ticks n a of None \<Rightarrow> None | Some (_, a') \<Rightarrow> select_token None None a')"

lemma recover_ticks_run:
  assumes "arb_wf a" "arb_mode a = KRecovering" "recovery_blend_tick a = 0"
  shows "\<exists>out a'. recover_ticks n a = Some (out, a') \<and> arb_wf a' \<and> arb_mode a' = KRecovering \<and>
    held_token a' = out \<and> length out = 64 \<and> recovery_blend_tick a' = min (int n) 50"
proof (induction n)
  case 0
  with assms show ?case by (simp add: arb_wf_def)
next
  case (Suc n)
  then obtain out a' where r: "recover_ticks n a = Some (out, a')"
    and wf: "arb_wf a'" "arb_mode a' = KRecovering" "recovery_blend_tick a' = min (int n) 50"
    by blast
  obtain out2 a2 where b: "recovery_blend a' = (out2, a2)" by fastforce
  with wf have "recovery_blend_tick a2 = min (int (Suc n)) 50"
    by (auto simp: recovery_blend_def Let_def blend_consts)
  with r b wf show ?case
    using arb_wf_recovery_blend[OF wf(1) b] by (auto simp: select_token_def)
qed

lemma recover_ticks_closer:
  assumes "arb_wf a" "arb_mode a = KRecovering" "recovery_blend_tick a = 0"
    and "recover_ticks n a = Some (out, a')" "recover_ticks (Suc n) a = Some (out2, a2)" "i < 64"
  shows "out2 ! i - kVlaSafeStandingToken ! i =
    (1 - real (min (Suc n) 50) / 50) * (out ! i - kVlaSafeStandingToken ! i)"
proof -
  have wf: "arb_wf a'" "arb_mode a' = KRecovering" "held_token a' = out"
      "recovery_blend_tick a' = min (int n) 50"
    using recover_ticks_run[OF assms(1-3), of n] assms(4) by auto
  have b: "recovery_blend a' = (out2, a2)"
    using assms(4,5) wf(2) by (auto simp: select_token_def)
  have "recovery_blend_tick a2 = int (min (Suc n) 50)"
    using b wf(4) by (auto simp: recovery_blend_def Let_def blend_consts)
  then show ?thesis
    using recovery_blend_nth[OF wf(1) assms(6) b] wf(3) by (simp add: mix_to_target)
qed

text \<open>
  C30: The recovery blend lands: from whatever token was last commanded, fifty recovery ticks
  after the stream was lost the commanded token is exactly the safe standing token, the stage
  reports the blend as done, and every later recovery tick keeps commanding it.
\<close>
theorem recovery_reaches_safe_token:
  assumes "arb_wf a" "arb_mode a = KRecovering" "recovery_blend_tick a = 0" "50 \<le> n"
  shows "\<exists>a'. recover_ticks n a = Some (kVlaSafeStandingToken, a') \<and> recovery_blend_done a'"
proof -
  obtain out a' where r: "recover_ticks n a = Some (out, a')" "length out = 64"
    "recovery_blend_tick a' = min (int n) 50"
    using recover_ticks_run[OF assms(1-3), of n] by blast
  obtain m where n: "n = Suc m" using assms(4) by (cases n) auto
  obtain out0 a0 where r0: "recover_ticks m a = Some (out0, a0)"
    using recover_ticks_run[OF assms(1-3), of m] by blast
  have "out ! i = kVlaSafeStandingToken ! i" if "i < 64" for i
    using recover_ticks_closer[OF assms(1-3) r0 _ that, of out a'] r(1) n assms(4) by simp
  then have "out = kVlaSafeStandingToken"
    using r(2) by (intro nth_equalityI) auto
  with r assms(4) show ?thesis by (simp add: recovery_blend_done_def blend_consts)
qed

lemma recovery_reaches_safe_token_witness:
  "\<exists>a'. recover_ticks 50 (arbiter_init\<lparr>arb_mode := KRecovering, held_token := replicate 64 3\<rparr>)
          = Some (kVlaSafeStandingToken, a') \<and> recovery_blend_done a'"
  by (rule recovery_reaches_safe_token) (simp_all add: arb_wf_def arbiter_init_def blend_consts)

section \<open>The handoff crossfade\<close>

text \<open>The commanded tokens of consecutive ticks in the stream's mode.\<close>

fun stream_tokens :: "token list \<Rightarrow> arbiter \<Rightarrow> (token list \<times> arbiter) option" where
  "stream_tokens [] a = Some ([], a)"
| "stream_tokens (src # srcs) a =
     (case select_token None (Some src) a of
        None \<Rightarrow> None
      | Some (out, a') \<Rightarrow> map_option (apfst ((#) out)) (stream_tokens srcs a'))"

lemma crossfade_blend:
  assumes "arb_wf a" "length src = 64" "crossfade a src = (out, a')"
  shows "out = blend_token (1 - real_of_int (handoff_blend_ticks a) / 35) (held_token a) src"
    and "handoff_blend_ticks a' = max 0 (handoff_blend_ticks a - 1)"
  using assms by (auto simp: crossfade_def Let_def blend_consts arb_wf_def split: if_splits)

lemma crossfade_no_jump:
  assumes "arb_wf a" "length src = 64" "crossfade a src = (out, a')" "i < 64"
  shows "\<bar>out ! i - held_token a ! i\<bar> \<le> \<bar>src ! i - held_token a ! i\<bar>"
proof -
  let ?w = "1 - real_of_int (handoff_blend_ticks a) / 35"
  have "out ! i - held_token a ! i = ?w * (src ! i - held_token a ! i)"
    using crossfade_blend(1)[OF assms(1-3)] assms(1,2,4)
    by (simp add: arb_wf_def mix_from_start)
  moreover have "0 \<le> ?w" "?w \<le> 1" using assms(1) by (auto simp: arb_wf_def blend_consts)
  ultimately show ?thesis by (simp add: abs_mult mult_left_le_one_le)
qed

lemma stream_tokens_run:
  assumes "arb_wf a" "arb_mode a = KVla" "\<forall>src \<in> set srcs. length src = 64"
  shows "\<exists>outs a'. stream_tokens srcs a = Some (outs, a') \<and> length outs = length srcs \<and>
    arb_wf a' \<and> arb_mode a' = KVla \<and>
    (\<forall>k < length srcs. handoff_blend_ticks a \<le> int k \<longrightarrow> outs ! k = srcs ! k)"
  using assms
proof (induction srcs arbitrary: a)
  case Nil
  then show ?case by simp
next
  case (Cons src srcs)
  obtain out a1 where c: "crossfade a src = (out, a1)" by fastforce
  have wf1: "arb_wf a1" "arb_mode a1 = KVla"
    using arb_wf_crossfade[OF Cons.prems(1) _ c] Cons.prems by auto
  obtain outs a' where r: "stream_tokens srcs a1 = Some (outs, a')" "length outs = length srcs"
    "arb_wf a'" "arb_mode a' = KVla"
    "\<forall>k < length srcs. handoff_blend_ticks a1 \<le> int k \<longrightarrow> outs ! k = srcs ! k"
    using Cons.IH[OF wf1] Cons.prems(3) by auto
  have len: "length src = 64" using Cons.prems(3) by simp
  have "out = src" if "handoff_blend_ticks a \<le> 0"
    using c that by (simp add: crossfade_def)
  moreover have "handoff_blend_ticks a1 \<le> int k'" if "handoff_blend_ticks a \<le> int (Suc k')" for k'
    using crossfade_blend(2)[OF Cons.prems(1) len c] that by simp
  ultimately have "\<forall>k < length (src # srcs). handoff_blend_ticks a \<le> int k \<longrightarrow>
      (out # outs) ! k = (src # srcs) ! k"
    using r(5) by (auto simp: nth_Cons split: nat.split)
  with r c Cons.prems(2) show ?case by (auto simp: select_token_def)
qed

text \<open>
  A claim by the token stream never steps the command: the first token after the
  transition is exactly the last commanded one, and from the thirty-fifth tick on every
  token is the stream's own.
\<close>
theorem claim_slides_to_stream:
  assumes "arb_wf a" "arb_mode a = KNormal" "\<forall>src \<in> set (src # srcs). length src = 64"
  shows "\<exists>outs a'. stream_tokens (src # srcs) (step_mode True va c r a) = Some (outs, a') \<and>
    outs ! 0 = held_token a \<and>
    (\<forall>k. 35 \<le> k \<and> k < length outs \<longrightarrow> outs ! k = (src # srcs) ! k)"
proof -
  let ?a = "step_mode True va c r a"
  have a1: "arb_wf ?a" using assms(1) by (rule arb_wf_step_mode)
  have a: "arb_wf ?a" "arb_mode ?a = KVla" "held_token ?a = held_token a"
      "handoff_blend_ticks ?a = 35"
    using a1 assms(2) by (auto simp: decide_def step_mode_def Let_def blend_consts)
  obtain outs a' where r: "stream_tokens (src # srcs) ?a = Some (outs, a')"
      "length outs = length (src # srcs)"
      "\<forall>k < length (src # srcs). handoff_blend_ticks ?a \<le> int k \<longrightarrow> outs ! k = (src # srcs) ! k"
    using stream_tokens_run[OF a(1,2) assms(3)] by blast
  obtain out a1 where c: "crossfade ?a src = (out, a1)" by fastforce
  have "out = held_token a"
    using crossfade_blend(1)[OF a(1) _ c] assms(1,3) a(3,4) by (simp add: arb_wf_def)
  then have "outs ! 0 = held_token a"
    using r(1) c a(2) by (auto simp: select_token_def split: option.splits)
  with r a(4) show ?thesis by auto
qed

lemma claim_slides_to_stream_witness:
  "\<exists>outs a'. stream_tokens (replicate 64 1 # replicate 40 (replicate 64 2))
       (step_mode True True False False arbiter_init) = Some (outs, a') \<and>
     outs ! 0 = kVlaSafeStandingToken \<and>
     (\<forall>k. 35 \<le> k \<and> k < length outs \<longrightarrow>
       outs ! k = (replicate 64 1 # replicate 40 (replicate 64 2)) ! k)"
  using claim_slides_to_stream[OF arb_wf_init, of "replicate 64 1" "replicate 40 (replicate 64 2)"]
  by (simp add: arbiter_init_def)

section \<open>One token per tick\<close>

lemma select_token_wf:
  assumes "arb_wf a" "select_token e v a = Some (out, a')"
    and "\<And>t. e = Some t \<Longrightarrow> length t = 64" "\<And>t. v = Some t \<Longrightarrow> length t = 64"
  shows "arb_wf a' \<and> length out = 64 \<and> held_token a' = out \<and> arb_mode a' = arb_mode a"
  using assms(2) by (rule select_token_cases)
    (use assms arb_wf_crossfade arb_wf_recovery_blend in blast)+

lemma select_token_held: "select_token e v a = Some (out, a') \<Longrightarrow> held_token a' = out"
  by (auto simp: select_token_def crossfade_def recovery_blend_def Let_def
      split: arb_mode.splits if_splits)

lemma select_token_mode: "select_token e v a = Some (out, a') \<Longrightarrow> arb_mode a' = arb_mode a"
  by (auto simp: select_token_def crossfade_def recovery_blend_def Let_def
      split: arb_mode.splits if_splits)

lemma select_token_total_encoder:
  "arb_mode a \<in> {KNormal, KTeleop} \<Longrightarrow> \<exists>r. select_token (Some t) v a = Some r"
  by (auto simp: select_token_def split: arb_mode.splits)

lemma select_token_total_recovering:
  "arb_mode a = KRecovering \<Longrightarrow> \<exists>r. select_token e v a = Some r"
  by (auto simp: select_token_def)

lemma select_token_total_vla:
  "arb_mode a = KVla \<Longrightarrow> \<exists>r. select_token e (Some t) a = Some r"
  by (auto simp: select_token_def)

text \<open>The token a tick is heading for: the stream's, the standing token, or the encoder's.\<close>

definition goal_token :: "token option \<Rightarrow> token option \<Rightarrow> arbiter \<Rightarrow> token option" where
  "goal_token e v a = (case arb_mode a of KVla \<Rightarrow> v
     | KRecovering \<Rightarrow> Some kVlaSafeStandingToken | _ \<Rightarrow> e)"

lemma crossfade_between:
  assumes "arb_wf a" "length src = 64" "crossfade a src = (out, a')" "i < 64"
  shows "min (held_token a ! i) (src ! i) \<le> out ! i"
    and "out ! i \<le> max (held_token a ! i) (src ! i)"
proof -
  let ?w = "1 - real_of_int (handoff_blend_ticks a) / 35"
  have "out ! i = mix ?w (held_token a ! i) (src ! i)" "0 \<le> ?w" "?w \<le> 1"
    using assms crossfade_blend(1)[OF assms(1-3)] by (auto simp: arb_wf_def blend_consts)
  then show "min (held_token a ! i) (src ! i) \<le> out ! i"
    and "out ! i \<le> max (held_token a ! i) (src ! i)"
    using mix_min_max[of ?w] by metis+
qed

lemma recovery_blend_between:
  assumes "arb_wf a" "recovery_blend a = (out, a')" "i < 64"
  shows "min (held_token a ! i) (kVlaSafeStandingToken ! i) \<le> out ! i"
    and "out ! i \<le> max (held_token a ! i) (kVlaSafeStandingToken ! i)"
proof -
  have "arb_wf a'" using arb_wf_recovery_blend[OF assms(1,2)] by blast
  then have "0 \<le> real_of_int (recovery_blend_tick a') / 50"
      "real_of_int (recovery_blend_tick a') / 50 \<le> 1"
    by (auto simp: arb_wf_def blend_consts)
  then show "min (held_token a ! i) (kVlaSafeStandingToken ! i) \<le> out ! i"
    and "out ! i \<le> max (held_token a ! i) (kVlaSafeStandingToken ! i)"
    using recovery_blend_nth[OF assms(1,3,2)] mix_min_max by metis+
qed

text \<open>
  No blend overshoots, in any mode: each coordinate of the commanded token lies between
  the last commanded value and the value the tick is heading for, and the stage remembers
  the commanded token as the start of the next blend.
\<close>
theorem select_token_between:
  assumes "arb_wf a" "select_token e v a = Some (out, a')" "goal_token e v a = Some g"
    and "length g = 64" "i < 64"
  shows "min (held_token a ! i) (g ! i) \<le> out ! i \<and> out ! i \<le> max (held_token a ! i) (g ! i) \<and>
    held_token a' = out"
  using assms(2)
proof (cases rule: select_token_cases)
  case (vla src)
  with assms show ?thesis
    using crossfade_between[of a g out a' i] select_token_held[OF assms(2)]
    by (simp add: goal_token_def)
next
  case recovery
  with assms show ?thesis
    using recovery_blend_between[of a out a' i] select_token_held[OF assms(2)]
    by (simp add: goal_token_def)
next
  case (encoder src)
  with assms show ?thesis
    using crossfade_between[of a g out a' i] select_token_held[OF assms(2)]
    by (auto simp: goal_token_def)
qed

lemma select_token_between_witness:
  "\<exists>out a'. select_token (Some (replicate 64 1)) None
      (arbiter_init\<lparr>handoff_blend_ticks := 7\<rparr>) = Some (out, a') \<and>
     min (kVlaSafeStandingToken ! 0) 1 \<le> out ! 0 \<and> out ! 0 \<le> max (kVlaSafeStandingToken ! 0) 1 \<and>
     held_token a' = out"
proof -
  let ?a = "arbiter_init\<lparr>handoff_blend_ticks := 7\<rparr>"
  obtain out a' where r: "select_token (Some (replicate 64 1)) None ?a = Some (out, a')"
    using select_token_total_encoder[of ?a] by (fastforce simp: arbiter_init_def)
  have wf: "arb_wf ?a" by (simp add: arb_wf_def arbiter_init_def blend_consts)
  have "goal_token (Some (replicate 64 1)) None ?a = Some (replicate 64 1)"
    by (simp add: goal_token_def arbiter_init_def)
  from select_token_between[OF wf r this, of 0] r show ?thesis
    by (simp add: arbiter_init_def)
qed

end
