(* ===== verification/Channels.thy ===== *)
theory Channels
  imports Prelude
begin

text \<open>
  The two channel primitives of \<open>include/common/\<close>: the latest-wins \<open>DataBuffer\<close> with
  its receive time, and the bounded \<open>EventQueue\<close> that evicts its oldest item. The locale
  \<open>bounded_log\<close> is the contract of every bounded history of the program; \<open>EventQueue\<close>
  provides it here, the state history ring in \<open>State_Logger\<close>.
\<close>

section \<open>DataBuffer\<close>

record 'a data_buffer =
  buf_data :: "'a option"
  last_update_time :: time

record 'a timestamped =
  ts_data :: "'a option"
  ts_time :: time

definition buf_empty :: "'a data_buffer" where
  "buf_empty = \<lparr>buf_data = None, last_update_time = 0\<rparr>"

definition set_data :: "time \<Rightarrow> 'a \<Rightarrow> 'a data_buffer \<Rightarrow> 'a data_buffer" where
  "set_data now x b = b\<lparr>buf_data := Some x, last_update_time := now\<rparr>"

definition get_data :: "'a data_buffer \<Rightarrow> 'a option" where
  "get_data b = buf_data b"

definition get_data_with_time :: "'a data_buffer \<Rightarrow> 'a timestamped" where
  "get_data_with_time b =
     (case buf_data b of
        None \<Rightarrow> \<lparr>ts_data = None, ts_time = 0\<rparr>
      | Some x \<Rightarrow> \<lparr>ts_data = Some x, ts_time = last_update_time b\<rparr>)"

definition clear_buf :: "'a data_buffer \<Rightarrow> 'a data_buffer" where
  "clear_buf b = b\<lparr>buf_data := None, last_update_time := 0\<rparr>"

definition has_data :: "'a timestamped \<Rightarrow> bool" where
  "has_data t \<longleftrightarrow> ts_data t \<noteq> None"

text \<open>Age in milliseconds, at the microsecond resolution of the cast; \<open>-1\<close> without data.\<close>

definition get_age_ms :: "time \<Rightarrow> 'a timestamped \<Rightarrow> real" where
  "get_age_ms now t =
     (if has_data t then real_of_int ((now - ts_time t) sdiv 1000) / 1000 else -1)"

lemma get_set [simp]: "get_data (set_data now x b) = Some x"
  by (simp add: get_data_def set_data_def)

lemma get_clear [simp]: "get_data (clear_buf b) = None"
  by (simp add: get_data_def clear_buf_def)

lemma get_with_time_set [simp]:
  "get_data_with_time (set_data now x b) = \<lparr>ts_data = Some x, ts_time = now\<rparr>"
  by (simp add: get_data_with_time_def set_data_def)

lemma get_with_time_clear [simp]:
  "get_data_with_time (clear_buf b) = \<lparr>ts_data = None, ts_time = 0\<rparr>"
  by (simp add: get_data_with_time_def clear_buf_def)

lemma ts_data_get [simp]: "ts_data (get_data_with_time b) = get_data b"
  by (simp add: get_data_with_time_def get_data_def split: option.split)

lemma has_data_get [simp]: "has_data (get_data_with_time b) \<longleftrightarrow> get_data b \<noteq> None"
  by (simp add: has_data_def)

lemma age_le_iff:
  assumes "has_data t" "ts_time t \<le> now" "0 \<le> k"
  shows "get_age_ms now t \<le> real_of_int k \<longleftrightarrow> now - ts_time t < k * 1000000 + 1000"
proof -
  let ?us = "(now - ts_time t) div 1000"
  have "get_age_ms now t = real_of_int ?us / 1000"
    using assms by (simp add: get_age_ms_def)
  then have "get_age_ms now t \<le> real_of_int k \<longleftrightarrow> real_of_int ?us \<le> real_of_int (k * 1000)"
    by (simp only: pos_divide_le_eq zero_less_numeral of_int_mult of_int_numeral)
  also have "\<dots> \<longleftrightarrow> ?us \<le> k * 1000" by (rule of_int_le_iff)
  also have "\<dots> \<longleftrightarrow> now - ts_time t < k * 1000000 + 1000" by linarith
  finally show ?thesis .
qed

text \<open>
  One pass of a reader's watchdog over one stream: \<open>UnitreeStateReader\<close> with 60 ms,
  \<open>PicoVRReader\<close> with 350 ms.
\<close>

definition watchdog_pass :: "real \<Rightarrow> time \<Rightarrow> 'a data_buffer \<Rightarrow> 'a data_buffer" where
  "watchdog_pass stale_ms now b =
     (let t = get_data_with_time b
      in if has_data t \<and> get_age_ms now t > stale_ms then clear_buf b else b)"

lemma watchdog_pass_fresh:
  "get_data (watchdog_pass s now b) = Some x \<Longrightarrow>
   get_age_ms now (get_data_with_time (watchdog_pass s now b)) \<le> s \<and> get_data b = Some x"
  by (auto simp: watchdog_pass_def Let_def split: if_splits)

lemma watchdog_pass_keeps:
  "get_age_ms now (get_data_with_time b) \<le> s \<Longrightarrow> watchdog_pass s now b = b"
  by (simp add: watchdog_pass_def Let_def)

section \<open>Bounded histories\<close>

locale bounded_log =
  fixes invar :: "'s \<Rightarrow> bool"
    and items :: "'s \<Rightarrow> 'a list"
    and cap :: "'s \<Rightarrow> nat"
    and put :: "'a \<Rightarrow> 's \<Rightarrow> 's"
  assumes invar_put: "invar s \<Longrightarrow> invar (put x s)"
    and items_put: "invar s \<Longrightarrow> items (put x s) = last_n (cap s) (items s @ [x])"
    and cap_put: "invar s \<Longrightarrow> cap (put x s) = cap s"
    and cap_pos: "invar s \<Longrightarrow> 0 < cap s"
    and items_bound: "invar s \<Longrightarrow> length (items s) \<le> cap s"
begin

lemma invar_puts: "invar s \<Longrightarrow> invar (fold put xs s)"
  by (induction xs arbitrary: s) (auto intro: invar_put)

lemma cap_puts: "invar s \<Longrightarrow> cap (fold put xs s) = cap s"
  by (induction xs arbitrary: s) (auto simp: cap_put invar_put)

lemma items_puts: "invar s \<Longrightarrow> items (fold put xs s) = last_n (cap s) (items s @ xs)"
proof (induction xs arbitrary: s)
  case Nil
  then show ?case by (simp add: items_bound)
next
  case (Cons x xs)
  have "items (fold put (x # xs) s) = last_n (cap s) (last_n (cap s) (items s @ [x]) @ xs)"
    using Cons.IH[of "put x s"] Cons.prems by (simp add: invar_put cap_put items_put)
  then show ?case by (simp add: last_n_append_absorb)
qed

text \<open>After enough puts only the newest ones are left, in order.\<close>

lemma items_puts_full:
  "invar s \<Longrightarrow> cap s \<le> length xs \<Longrightarrow> items (fold put xs s) = last_n (cap s) xs"
  by (simp add: items_puts last_n_def)

lemma newest_kept: "invar s \<Longrightarrow> last (items (put x s)) = x"
  by (simp add: items_put last_n_last cap_pos)

lemma put_nonempty: "invar s \<Longrightarrow> items (put x s) \<noteq> []"
  using cap_pos[of s] by (simp add: items_put flip: length_0_conv)

end

section \<open>EventQueue\<close>

record 'a event_queue =
  queue_items :: "'a list"
  queue_capacity :: nat

text \<open>
  \<open>push\<close> returns the evicted item. With capacity 0 the source calls \<open>front()\<close> on an
  empty deque, undefined behaviour: the outcome \<^const>\<open>None\<close> of the model.
\<close>

definition event_push :: "'a \<Rightarrow> 'a event_queue \<Rightarrow> ('a option \<times> 'a event_queue) option" where
  "event_push x q =
     (if queue_capacity q \<le> length (queue_items q) then
        (case queue_items q of
           [] \<Rightarrow> None
         | y # ys \<Rightarrow> Some (Some y, q\<lparr>queue_items := ys @ [x]\<rparr>))
      else Some (None, q\<lparr>queue_items := queue_items q @ [x]\<rparr>))"

definition event_drain :: "'a event_queue \<Rightarrow> 'a list \<times> 'a event_queue" where
  "event_drain q = (queue_items q, q\<lparr>queue_items := []\<rparr>)"

definition event_wf :: "'a event_queue \<Rightarrow> bool" where
  "event_wf q \<longleftrightarrow> 0 < queue_capacity q \<and> length (queue_items q) \<le> queue_capacity q"

text \<open>The queue after a push, for the runs where only the queue matters.\<close>

definition event_put :: "'a \<Rightarrow> 'a event_queue \<Rightarrow> 'a event_queue" where
  "event_put x q = (case event_push x q of None \<Rightarrow> q | Some (_, q') \<Rightarrow> q')"

lemma event_push_defined: "event_wf q \<Longrightarrow> \<exists>ev. event_push x q = Some (ev, event_put x q)"
  by (auto simp: event_wf_def event_push_def event_put_def split: list.split)

lemma event_put_items:
  "event_wf q \<Longrightarrow>
   queue_items (event_put x q) = last_n (queue_capacity q) (queue_items q @ [x])"
  by (auto simp: event_wf_def event_push_def event_put_def last_n_def split: list.split)

lemma event_put_capacity [simp]: "queue_capacity (event_put x q) = queue_capacity q"
  by (auto simp: event_push_def event_put_def split: list.split option.split if_splits)

interpretation events: bounded_log event_wf queue_items queue_capacity event_put
  by unfold_locales (auto simp: event_put_items event_wf_def)

text \<open>What a push evicts: nothing below the capacity, otherwise exactly the oldest item.\<close>

lemma event_push_evicts:
  assumes "event_wf q" "event_push x q = Some (ev, q')"
  shows "ev = (if length (queue_items q) < queue_capacity q then None
               else Some (hd (queue_items q)))"
  using assms by (auto simp: event_wf_def event_push_def split: list.splits if_splits)

text \<open>
  The event channel loses nothing silently and keeps arrival order: draining after any
  sequence of pushes yields exactly the newest items up to the capacity, in the order they
  were pushed, and leaves the queue empty.
\<close>
theorem drain_after_pushes:
  assumes "event_wf q" "queue_items q = []"
  shows "event_drain (fold event_put xs q) =
    (last_n (queue_capacity q) xs, q)"
proof -
  have "queue_items (fold event_put xs q) = last_n (queue_capacity q) xs"
    using events.items_puts[OF assms(1), of xs] assms(2) by simp
  moreover have "queue_capacity (fold event_put xs q) = queue_capacity q"
    using events.cap_puts[OF assms(1)] .
  ultimately show ?thesis
    using assms(2) by (cases q) (simp add: event_drain_def)
qed

lemma drain_after_pushes_witness:
  "event_drain (fold event_put [1, 2, 3 :: nat] \<lparr>queue_items = [], queue_capacity = 2\<rparr>) =
    ([2, 3], \<lparr>queue_items = [], queue_capacity = 2\<rparr>)"
  using drain_after_pushes[of "\<lparr>queue_items = [], queue_capacity = 2\<rparr>" "[1, 2, 3 :: nat]"]
  by (simp add: event_wf_def last_n_def)

end
