(* ===== verification/Robot_Tables.thy ===== *)
theory Robot_Tables
  imports Prelude
begin

text \<open>
  The constant tables of \<open>include/common/joint_order.hpp\<close>,
  \<open>include/common/robot_params.hpp\<close> and \<open>include/unitree/g1_motor_names.hpp\<close>: the
  two joint orders and the permutation between them, the actuator constants, the PD gains
  and the default standing pose. \<open>joint_remap\<close> is the contract of a pair of index tables.
\<close>

section \<open>Joint orders\<close>

definition mujoco_to_isaaclab :: "nat list" where
  "mujoco_to_isaaclab =
    [0,  6,  12, 1,  7,  13, 2,  8,  14, 3,  9,  15, 22, 4, 10,
     16, 23, 5,  11, 17, 24, 18, 25, 19, 26, 20, 27, 21, 28]"

definition isaaclab_to_mujoco :: "nat list" where
  "isaaclab_to_mujoco =
    [0,  3,  6,  9,  13, 17, 1,  4,  7,  10, 14, 18, 2,  5, 8,
     11, 15, 19, 21, 23, 25, 27, 12, 16, 20, 22, 24, 26, 28]"

text \<open>Reading an array through an index table: \<open>out[i] = xs[table[i]]\<close>.\<close>

definition gather :: "nat list \<Rightarrow> 'a list \<Rightarrow> 'a list" where
  "gather table xs = map (\<lambda>i. xs ! i) table"

text \<open>Writing through an index table: \<open>out[table[i]] = xs[i]\<close>.\<close>

fun scatter :: "nat list \<Rightarrow> 'a list \<Rightarrow> 'a list \<Rightarrow> 'a list" where
  "scatter (t # ts) (x # xs) out = scatter ts xs (out[t := x])"
| "scatter _ _ out = out"

lemma length_gather [simp, len_simps]: "length (gather table xs) = length table"
  by (simp add: gather_def)

lemma gather_nth [simp]: "i < length table \<Longrightarrow> gather table xs ! i = xs ! (table ! i)"
  by (simp add: gather_def)

lemma length_scatter [simp, len_simps]: "length (scatter ts xs out) = length out"
  by (induction ts xs out rule: scatter.induct) auto

lemma scatter_untouched: "k \<notin> set ts \<Longrightarrow> scatter ts xs out ! k = out ! k"
  by (induction ts xs out rule: scatter.induct) auto

lemma scatter_nth:
  "distinct ts \<Longrightarrow> length xs = length ts \<Longrightarrow> i < length ts \<Longrightarrow> ts ! i < length out \<Longrightarrow>
   scatter ts xs out ! (ts ! i) = xs ! i"
proof (induction ts xs out arbitrary: i rule: scatter.induct)
  case (1 t ts x xs out)
  show ?case
  proof (cases i)
    case 0
    with 1 show ?thesis by (simp add: scatter_untouched)
  next
    case (Suc j)
    with 1 show ?thesis by simp
  qed
qed auto

locale joint_remap =
  fixes fwd :: "nat list" and bwd :: "nat list" and n :: nat
  assumes len_fwd: "length fwd = n" and len_bwd: "length bwd = n"
    and bwd_fwd: "i < n \<Longrightarrow> fwd ! i < n \<and> bwd ! (fwd ! i) = i"
    and fwd_bwd: "i < n \<Longrightarrow> bwd ! i < n \<and> fwd ! (bwd ! i) = i"
begin

lemma distinct_fwd: "distinct fwd"
  by (metis bwd_fwd distinct_conv_nth len_fwd)

lemma gather_bwd_fwd: "length xs = n \<Longrightarrow> gather bwd (gather fwd xs) = xs"
  by (rule nth_equalityI) (auto simp: len_fwd len_bwd fwd_bwd)

lemma gather_fwd_bwd: "length xs = n \<Longrightarrow> gather fwd (gather bwd xs) = xs"
  by (rule nth_equalityI) (auto simp: len_fwd len_bwd bwd_fwd)

lemma scatter_eq_gather:
  assumes "length xs = n" "length out = n"
  shows "scatter fwd xs out = gather bwd xs"
proof (rule nth_equalityI)
  fix k assume "k < length (scatter fwd xs out)"
  then have k: "k < n" using assms by simp
  then have "scatter fwd xs out ! (fwd ! (bwd ! k)) = xs ! (bwd ! k)"
    using assms fwd_bwd by (intro scatter_nth distinct_fwd) (auto simp: len_fwd)
  then show "scatter fwd xs out ! k = gather bwd xs ! k"
    using k by (simp add: fwd_bwd len_bwd)
qed (simp add: assms len_bwd)

end

lemma joint_tables_inverse:
  "\<forall>i \<in> set [0..<29]. mujoco_to_isaaclab ! i < 29 \<and>
     isaaclab_to_mujoco ! (mujoco_to_isaaclab ! i) = i \<and> isaaclab_to_mujoco ! i < 29 \<and>
     mujoco_to_isaaclab ! (isaaclab_to_mujoco ! i) = i"
  by code_simp

interpretation joints: joint_remap mujoco_to_isaaclab isaaclab_to_mujoco 29
proof
  show "length mujoco_to_isaaclab = 29" "length isaaclab_to_mujoco = 29"
    by (simp_all add: mujoco_to_isaaclab_def isaaclab_to_mujoco_def)
next
  fix i :: nat
  assume "i < 29"
  then show "mujoco_to_isaaclab ! i < 29 \<and> isaaclab_to_mujoco ! (mujoco_to_isaaclab ! i) = i"
    and "isaaclab_to_mujoco ! i < 29 \<and> mujoco_to_isaaclab ! (isaaclab_to_mujoco ! i) = i"
    using joint_tables_inverse by auto
qed

lemmas len_joint_tables [simp, len_simps] = joints.len_fwd joints.len_bwd

text \<open>
  The two joint orders are inverse permutations of each other: whatever joint array is
  read into IsaacLab order and back, or scattered into MuJoCo order, comes back unchanged.
\<close>
theorem joint_order_roundtrip:
  assumes "length xs = 29" "length out = 29"
  shows "gather isaaclab_to_mujoco (gather mujoco_to_isaaclab xs) = xs \<and>
    gather mujoco_to_isaaclab (gather isaaclab_to_mujoco xs) = xs \<and>
    scatter mujoco_to_isaaclab (gather mujoco_to_isaaclab xs) out = xs"
  using assms by (simp add: joints.gather_bwd_fwd joints.gather_fwd_bwd joints.scatter_eq_gather)

lemma joint_order_roundtrip_witness:
  "gather isaaclab_to_mujoco (gather mujoco_to_isaaclab [0..<29]) = [0..<29] \<and>
   gather mujoco_to_isaaclab (gather isaaclab_to_mujoco [0..<29]) = [0..<29] \<and>
   scatter mujoco_to_isaaclab (gather mujoco_to_isaaclab [0..<29]) (replicate 29 0) = [0..<29]"
  by (rule joint_order_roundtrip) simp_all

section \<open>Actuator constants\<close>

definition kArmature5020 :: real where "kArmature5020 = 0.003609725"
definition kArmature7520_14 :: real where "kArmature7520_14 = 0.010177520"
definition kArmature7520_22 :: real where "kArmature7520_22 = 0.025101925"
definition kArmature4010 :: real where "kArmature4010 = 0.00425"
definition kNaturalFreq :: real where "kNaturalFreq = 10.0 * 2.0 * 3.1415926535"
definition kDampingRatio :: real where "kDampingRatio = 2.0"
definition kStiffness5020 :: real where "kStiffness5020 = kArmature5020 * kNaturalFreq * kNaturalFreq"
definition kStiffness7520_14 :: real where "kStiffness7520_14 = kArmature7520_14 * kNaturalFreq * kNaturalFreq"
definition kStiffness7520_22 :: real where "kStiffness7520_22 = kArmature7520_22 * kNaturalFreq * kNaturalFreq"
definition kStiffness4010 :: real where "kStiffness4010 = kArmature4010 * kNaturalFreq * kNaturalFreq"
definition kDamping5020 :: real where "kDamping5020 = 2.0 * kDampingRatio * kArmature5020 * kNaturalFreq"
definition kDamping7520_14 :: real where "kDamping7520_14 = 2.0 * kDampingRatio * kArmature7520_14 * kNaturalFreq"
definition kDamping7520_22 :: real where "kDamping7520_22 = 2.0 * kDampingRatio * kArmature7520_22 * kNaturalFreq"
definition kDamping4010 :: real where "kDamping4010 = 2.0 * kDampingRatio * kArmature4010 * kNaturalFreq"
definition kEffort5020 :: real where "kEffort5020 = 25.0"
definition kEffort7520_14 :: real where "kEffort7520_14 = 88.0"
definition kEffort7520_22 :: real where "kEffort7520_22 = 139.0"
definition kEffort4010 :: real where "kEffort4010 = 5.0"

lemmas actuator_defs =
  kArmature5020_def kArmature7520_14_def kArmature7520_22_def kArmature4010_def
  kNaturalFreq_def kDampingRatio_def
  kStiffness5020_def kStiffness7520_14_def kStiffness7520_22_def kStiffness4010_def
  kDamping5020_def kDamping7520_14_def kDamping7520_22_def kDamping4010_def
  kEffort5020_def kEffort7520_14_def kEffort7520_22_def kEffort4010_def

definition g1_action_scale :: "real list" where
  "g1_action_scale =
    [0.25 * kEffort7520_22 / kStiffness7520_22, 0.25 * kEffort7520_22 / kStiffness7520_22, 0.25 * kEffort7520_14 / kStiffness7520_14,
     0.25 * kEffort7520_22 / kStiffness7520_22, 0.25 * kEffort5020 / kStiffness5020, 0.25 * kEffort5020 / kStiffness5020,
     0.25 * kEffort7520_22 / kStiffness7520_22, 0.25 * kEffort7520_22 / kStiffness7520_22, 0.25 * kEffort7520_14 / kStiffness7520_14,
     0.25 * kEffort7520_22 / kStiffness7520_22, 0.25 * kEffort5020 / kStiffness5020, 0.25 * kEffort5020 / kStiffness5020,
     0.25 * kEffort7520_14 / kStiffness7520_14, 0.25 * kEffort5020 / kStiffness5020, 0.25 * kEffort5020 / kStiffness5020,
     0.25 * kEffort5020 / kStiffness5020, 0.25 * kEffort5020 / kStiffness5020, 0.25 * kEffort5020 / kStiffness5020,
     0.25 * kEffort5020 / kStiffness5020, 0.25 * kEffort5020 / kStiffness5020, 0.25 * kEffort4010 / kStiffness4010,
     0.25 * kEffort4010 / kStiffness4010, 0.25 * kEffort5020 / kStiffness5020, 0.25 * kEffort5020 / kStiffness5020,
     0.25 * kEffort5020 / kStiffness5020, 0.25 * kEffort5020 / kStiffness5020, 0.25 * kEffort5020 / kStiffness5020,
     0.25 * kEffort4010 / kStiffness4010, 0.25 * kEffort4010 / kStiffness4010]"

definition g1_kps :: "real list" where
  "g1_kps =
    [kStiffness7520_22, kStiffness7520_22, kStiffness7520_14,
     kStiffness7520_22, 2.0 * kStiffness5020, 2.0 * kStiffness5020,
     kStiffness7520_22, kStiffness7520_22, kStiffness7520_14,
     kStiffness7520_22, 2.0 * kStiffness5020, 2.0 * kStiffness5020,
     kStiffness7520_14, 2.0 * kStiffness5020, 2.0 * kStiffness5020,
     kStiffness5020, kStiffness5020, kStiffness5020,
     kStiffness5020, kStiffness5020, kStiffness4010,
     kStiffness4010, kStiffness5020, kStiffness5020,
     kStiffness5020, kStiffness5020, kStiffness5020,
     kStiffness4010, kStiffness4010]"

definition g1_kds :: "real list" where
  "g1_kds =
    [kDamping7520_22, kDamping7520_22, kDamping7520_14,
     kDamping7520_22, 2.0 * kDamping5020, 2.0 * kDamping5020,
     kDamping7520_22, kDamping7520_22, kDamping7520_14,
     kDamping7520_22, 2.0 * kDamping5020, 2.0 * kDamping5020,
     kDamping7520_14, 2.0 * kDamping5020, 2.0 * kDamping5020,
     kDamping5020, kDamping5020, kDamping5020,
     kDamping5020, kDamping5020, kDamping4010,
     kDamping4010, kDamping5020, kDamping5020,
     kDamping5020, kDamping5020, kDamping5020,
     kDamping4010, kDamping4010]"

definition g1_default_angles :: "real list" where
  "g1_default_angles =
    [- 0.312, 0.0, 0.0,
     0.669, - 0.363, 0.0,
     - 0.312, 0.0, 0.0,
     0.669, - 0.363, 0.0,
     0.0, 0.0, 0.0,
     0.2, 0.2, 0.0,
     0.6, 0.0, 0.0,
     0.0, 0.2, - 0.2,
     0.0, 0.6, 0.0,
     0.0, 0.0]"

lemma length_robot_arrays [simp, len_simps]:
  "length g1_action_scale = 29" "length g1_kps = 29" "length g1_kds = 29"
  "length g1_default_angles = 29"
  by (simp_all add: g1_action_scale_def g1_kps_def g1_kds_def g1_default_angles_def)

lemma g1_kps_pos: "k \<in> set g1_kps \<Longrightarrow> 0 < k"
  by (auto simp: g1_kps_def actuator_defs)

lemma g1_kds_pos: "k \<in> set g1_kds \<Longrightarrow> 0 < k"
  by (auto simp: g1_kds_def actuator_defs)

lemma g1_action_scale_pos: "k \<in> set g1_action_scale \<Longrightarrow> 0 < k"
  by (auto simp: g1_action_scale_def actuator_defs)

section \<open>Motor names\<close>

definition kG1MotorNames :: "string list" where
  "kG1MotorNames =
    [''left_hip_pitch'', ''left_hip_roll'', ''left_hip_yaw'', ''left_knee'',
     ''left_ankle_pitch'', ''left_ankle_roll'', ''right_hip_pitch'', ''right_hip_roll'',
     ''right_hip_yaw'', ''right_knee'', ''right_ankle_pitch'', ''right_ankle_roll'',
     ''waist_yaw'', ''waist_roll'', ''waist_pitch'', ''left_shoulder_pitch'',
     ''left_shoulder_roll'', ''left_shoulder_yaw'', ''left_elbow'', ''left_wrist_roll'',
     ''left_wrist_pitch'', ''left_wrist_yaw'', ''right_shoulder_pitch'', ''right_shoulder_roll'',
     ''right_shoulder_yaw'', ''right_elbow'', ''right_wrist_roll'', ''right_wrist_pitch'',
     ''right_wrist_yaw'']"

definition g1_motor_name :: "int \<Rightarrow> string" where
  "g1_motor_name i = (if 0 \<le> i \<and> i < 29 then kG1MotorNames ! nat i else ''?'')"

end
