(* ===== verification/Quaternion.thy ===== *)
theory Quaternion
  imports Prelude
begin

text \<open>
  The rotation mathematics of \<open>include/common/math_utils.hpp\<close>, scalar-first quaternions
  over ideal reals, and the algebra the encoder and the teleoperation rely on: the product
  is the Hamilton product, rotation by a unit quaternion is an isometry and composes, the
  heading helpers isolate the yaw, and slerp stays on the unit sphere.
\<close>

section \<open>Definitions\<close>

fun normalize_vector :: "vec3 \<Rightarrow> vec3" where
  "normalize_vector (x, y, z) =
     (let n = max (sqrt (x*x + y*y + z*z)) (1 / 10 ^ 12) in (x / n, y / n, z / n))"

fun quat_unit :: "quat \<Rightarrow> quat" where
  "quat_unit (w, x, y, z) =
     (let n = max (sqrt (w*w + x*x + y*y + z*z)) (1 / 10 ^ 12) in (w / n, x / n, y / n, z / n))"

fun quat_conjugate :: "quat \<Rightarrow> quat" where
  "quat_conjugate (w, x, y, z) = (w, - x, - y, - z)"

fun quat_mul :: "quat \<Rightarrow> quat \<Rightarrow> quat" where
  "quat_mul (w1, x1, y1, z1) (w2, x2, y2, z2) =
     (let ww = (z1 + x1) * (x2 + y2);
          yy = (w1 - y1) * (w2 + z2);
          zz = (w1 + y1) * (w2 - z2);
          xx = ww + yy + zz;
          qq = 0.5 * (xx + (z1 - x1) * (x2 - y2))
      in (qq - ww + (z1 - y1) * (y2 - z2),
          qq - xx + (x1 + w1) * (x2 + w2),
          qq - yy + (w1 - x1) * (y2 + z2),
          qq - zz + (z1 + y1) * (w2 - x2)))"

fun quat_rotate :: "quat \<Rightarrow> vec3 \<Rightarrow> vec3" where
  "quat_rotate (qw, qx, qy, qz) (v0, v1, v2) =
     (let scale_a = 2 * qw * qw - 1;
          a0 = v0 * scale_a; a1 = v1 * scale_a; a2 = v2 * scale_a;
          c0 = qy * v2 - qz * v1; c1 = qz * v0 - qx * v2; c2 = qx * v1 - qy * v0;
          b0 = c0 * qw * 2; b1 = c1 * qw * 2; b2 = c2 * qw * 2;
          dot = qx * v0 + qy * v1 + qz * v2;
          d0 = qx * dot * 2; d1 = qy * dot * 2; d2 = qz * dot * 2
      in (a0 + b0 + d0, a1 + b1 + d1, a2 + b2 + d2))"

definition quat_from_angle_axis :: "real \<Rightarrow> vec3 \<Rightarrow> quat" where
  "quat_from_angle_axis angle axis =
     (let theta = angle / 2
      in case normalize_vector axis of (n0, n1, n2) \<Rightarrow>
           quat_unit (cos theta, n0 * sin theta, n1 * sin theta, n2 * sin theta))"

text \<open>\<open>std::atan2\<close> on finite arguments (signed zeros apart).\<close>

definition atan2 :: "real \<Rightarrow> real \<Rightarrow> real" where
  "atan2 y x =
     (if x > 0 then arctan (y / x)
      else if x < 0 then (if y \<ge> 0 then arctan (y / x) + pi else arctan (y / x) - pi)
      else if y > 0 then pi / 2 else if y < 0 then - pi / 2 else 0)"

definition calc_heading :: "quat \<Rightarrow> real" where
  "calc_heading q = (case quat_rotate q (1, 0, 0) of (d0, d1, d2) \<Rightarrow> atan2 d1 d0)"

definition calc_heading_quat :: "quat \<Rightarrow> quat" where
  "calc_heading_quat q = quat_from_angle_axis (calc_heading q) (0, 0, 1)"

definition calc_heading_quat_inv :: "quat \<Rightarrow> quat" where
  "calc_heading_quat_inv q = quat_from_angle_axis (- calc_heading q) (0, 0, 1)"

definition euler_z_to_quat :: "real \<Rightarrow> quat" where
  "euler_z_to_quat angle_rad = quat_from_angle_axis angle_rad (0, 0, 1)"

type_synonym mat3 = "vec3 \<times> vec3 \<times> vec3"

definition quat_to_rotation_matrix :: "quat \<Rightarrow> mat3" where
  "quat_to_rotation_matrix q =
     (case quat_unit q of (w, x, y, z) \<Rightarrow>
       ((1 - 2 * (y*y + z*z), 2 * (x*y - w*z), 2 * (x*z + w*y)),
        (2 * (x*y + w*z), 1 - 2 * (x*x + z*z), 2 * (y*z - w*x)),
        (2 * (x*z - w*y), 2 * (y*z + w*x), 1 - 2 * (x*x + y*y))))"

definition gravity_in_body_frame :: "quat \<Rightarrow> vec3" where
  "gravity_in_body_frame base_quat = quat_rotate (quat_conjugate base_quat) (0, 0, - 1)"

fun quat_dot :: "quat \<Rightarrow> quat \<Rightarrow> real" where
  "quat_dot (a0, a1, a2, a3) (b0, b1, b2, b3) = a0*b0 + a1*b1 + a2*b2 + a3*b3"

fun quat_neg :: "quat \<Rightarrow> quat" where
  "quat_neg (w, x, y, z) = (- w, - x, - y, - z)"

fun quat_comb :: "real \<Rightarrow> quat \<Rightarrow> real \<Rightarrow> quat \<Rightarrow> quat" where
  "quat_comb s (a0, a1, a2, a3) t (b0, b1, b2, b3) =
     (s*a0 + t*b0, s*a1 + t*b1, s*a2 + t*b2, s*a3 + t*b3)"

text \<open>The linear fallback \<open>a[i] + t * (bb[i] - a[i])\<close> for very close quaternions.\<close>

fun quat_lerp :: "quat \<Rightarrow> quat \<Rightarrow> real \<Rightarrow> quat" where
  "quat_lerp (a0, a1, a2, a3) (b0, b1, b2, b3) t =
     (a0 + t * (b0 - a0), a1 + t * (b1 - a1), a2 + t * (b2 - a2), a3 + t * (b3 - a3))"

definition quat_slerp :: "quat \<Rightarrow> quat \<Rightarrow> real \<Rightarrow> quat" where
  "quat_slerp a b t =
     (let dot0 = quat_dot a b;
          bb = (if dot0 < 0 then quat_neg b else b);
          dot = (if dot0 < 0 then - dot0 else dot0)
      in if dot > 0.9995 then quat_unit (quat_lerp a bb t)
         else let theta_0 = arccos dot;
                  theta = theta_0 * t;
                  sin_t0 = sin theta_0;
                  s0 = cos theta - dot * sin theta / sin_t0;
                  s1 = sin theta / sin_t0
              in quat_comb s0 a s1 bb)"

section \<open>Algebra\<close>

definition quat_norm2 :: "quat \<Rightarrow> real" where
  "quat_norm2 q = quat_dot q q"

definition vec3_norm2 :: "vec3 \<Rightarrow> real" where
  "vec3_norm2 v = (case v of (x, y, z) \<Rightarrow> x*x + y*y + z*z)"

definition unit_quat :: "quat \<Rightarrow> bool" where
  "unit_quat q \<longleftrightarrow> quat_norm2 q = 1"

text \<open>The Hamilton product and the homogeneous rotation, the textbook forms.\<close>

fun hamilton :: "quat \<Rightarrow> quat \<Rightarrow> quat" where
  "hamilton (w1, x1, y1, z1) (w2, x2, y2, z2) =
     (w1*w2 - x1*x2 - y1*y2 - z1*z2, w1*x2 + x1*w2 + y1*z2 - z1*y2,
      w1*y2 - x1*z2 + y1*w2 + z1*x2, w1*z2 + x1*y2 - y1*x2 + z1*w2)"

lemma quat_mul_hamilton: "quat_mul p q = hamilton p q"
  by (cases p; cases q) (simp add: Let_def field_simps)

lemma hamilton_norm2: "quat_norm2 (hamilton p q) = quat_norm2 p * quat_norm2 q"
  by (cases p; cases q) (simp add: quat_norm2_def algebra_simps)

lemma quat_mul_norm2 [simp]: "quat_norm2 (quat_mul p q) = quat_norm2 p * quat_norm2 q"
  by (simp add: quat_mul_hamilton hamilton_norm2)

lemma quat_conjugate_norm2 [simp]: "quat_norm2 (quat_conjugate q) = quat_norm2 q"
  by (cases q) (simp add: quat_norm2_def)

lemma unit_quat_mul: "unit_quat p \<Longrightarrow> unit_quat q \<Longrightarrow> unit_quat (quat_mul p q)"
  by (simp add: unit_quat_def)

lemma unit_quat_conjugate: "unit_quat q \<Longrightarrow> unit_quat (quat_conjugate q)"
  by (simp add: unit_quat_def)

lemma quat_mul_assoc: "quat_mul (quat_mul p q) r = quat_mul p (quat_mul q r)"
  by (cases p; cases q; cases r) (simp add: quat_mul_hamilton algebra_simps)

lemma quat_mul_one [simp]: "quat_mul (1, 0, 0, 0) q = q" "quat_mul q (1, 0, 0, 0) = q"
  by (cases q; simp add: quat_mul_hamilton)+

lemma quat_conjugate_inverse:
  "unit_quat q \<Longrightarrow> quat_mul (quat_conjugate q) q = (1, 0, 0, 0)"
  "unit_quat q \<Longrightarrow> quat_mul q (quat_conjugate q) = (1, 0, 0, 0)"
  by (cases q; simp add: unit_quat_def quat_norm2_def quat_mul_hamilton algebra_simps)+

fun rot_hom :: "quat \<Rightarrow> vec3 \<Rightarrow> vec3" where
  "rot_hom (w, x, y, z) (v0, v1, v2) =
     ((w*w + x*x - y*y - z*z)*v0 + 2*(x*y - w*z)*v1 + 2*(x*z + w*y)*v2,
      2*(x*y + w*z)*v0 + (w*w - x*x + y*y - z*z)*v1 + 2*(y*z - w*x)*v2,
      2*(x*z - w*y)*v0 + 2*(y*z + w*x)*v1 + (w*w - x*x - y*y + z*z)*v2)"

lemma quat_rotate_hom:
  assumes "unit_quat q"
  shows "quat_rotate q v = rot_hom q v"
proof -
  obtain w x y z v0 v1 v2 where qv: "q = (w, x, y, z)" "v = (v0, v1, v2)"
    by (cases q; cases v)
  have scale: "2 * w * w - 1 = w*w - x*x - y*y - z*z"
    using assms by (simp add: unit_quat_def quat_norm2_def qv algebra_simps)
  show ?thesis
    unfolding qv quat_rotate.simps rot_hom.simps Let_def scale by (simp add: algebra_simps)
qed

lemma rot_hom_hamilton: "rot_hom (hamilton p q) v = rot_hom p (rot_hom q v)"
  by (cases p; cases q; cases v) (simp add: algebra_simps)

lemma quat_rotate_mul:
  "unit_quat p \<Longrightarrow> unit_quat q \<Longrightarrow> quat_rotate (quat_mul p q) v = quat_rotate p (quat_rotate q v)"
  by (simp add: quat_rotate_hom unit_quat_mul)
     (simp add: quat_mul_hamilton rot_hom_hamilton)

lemma rot_hom_norm2: "vec3_norm2 (rot_hom q v) = quat_norm2 q * quat_norm2 q * vec3_norm2 v"
  by (cases q; cases v) (simp add: vec3_norm2_def quat_norm2_def algebra_simps)

lemma quat_rotate_norm2: "unit_quat q \<Longrightarrow> vec3_norm2 (quat_rotate q v) = vec3_norm2 v"
  by (simp add: quat_rotate_hom rot_hom_norm2) (simp add: unit_quat_def)

lemma quat_rotate_one [simp]: "quat_rotate (1, 0, 0, 0) v = v"
  by (cases v) simp

text \<open>
  Rotation by a unit quaternion is an isometry, undone by its conjugate, and the product
  of quaternions is the composition of their rotations.
\<close>
theorem rotation_is_isometric_action:
  assumes "unit_quat p" "unit_quat q"
  shows "vec3_norm2 (quat_rotate q v) = vec3_norm2 v \<and>
    quat_rotate (quat_conjugate q) (quat_rotate q v) = v \<and>
    quat_rotate (quat_mul p q) v = quat_rotate p (quat_rotate q v)"
  using assms quat_rotate_mul[of "quat_conjugate q" q v]
  by (simp add: quat_rotate_norm2 quat_rotate_mul unit_quat_conjugate quat_conjugate_inverse)

lemma rotation_is_isometric_action_witness:
  "vec3_norm2 (quat_rotate (3/5, 0, 4/5, 0) (1, 2, 3)) = vec3_norm2 (1, 2, 3) \<and>
   quat_rotate (quat_conjugate (3/5, 0, 4/5, 0)) (quat_rotate (3/5, 0, 4/5, 0) (1, 2, 3)) = (1, 2, 3) \<and>
   quat_rotate (quat_mul (0, 1, 0, 0) (3/5, 0, 4/5, 0)) (1, 2, 3) =
     quat_rotate (0, 1, 0, 0) (quat_rotate (3/5, 0, 4/5, 0) (1, 2, 3))"
  by (rule rotation_is_isometric_action) (simp_all add: unit_quat_def quat_norm2_def)

section \<open>Heading\<close>

lemma quat_unit_of_unit [simp]: "unit_quat q \<Longrightarrow> quat_unit q = q"
  by (cases q) (simp add: unit_quat_def quat_norm2_def Let_def max_def)

definition yaw_quat :: "real \<Rightarrow> quat" where
  "yaw_quat h = (cos (h / 2), 0, 0, sin (h / 2))"

lemma unit_yaw_quat [simp]: "unit_quat (yaw_quat h)"
proof -
  have "cos (h / 2) * cos (h / 2) + sin (h / 2) * sin (h / 2) = 1"
    using sin_cos_squared_add2[of "h / 2"] by (simp add: power2_eq_square)
  then show ?thesis by (simp add: yaw_quat_def unit_quat_def quat_norm2_def)
qed

lemma quat_from_angle_z [simp]: "quat_from_angle_axis h (0, 0, 1) = yaw_quat h"
proof -
  have "normalize_vector (0, 0, 1) = (0, 0, 1)" by (simp add: Let_def max_def)
  moreover have "quat_unit (cos (h / 2), 0, 0, sin (h / 2)) = (cos (h / 2), 0, 0, sin (h / 2))"
    using quat_unit_of_unit[OF unit_yaw_quat[of h]] by (simp add: yaw_quat_def)
  ultimately show ?thesis by (simp add: quat_from_angle_axis_def yaw_quat_def Let_def)
qed

lemma rotate_yaw:
  "quat_rotate (yaw_quat h) (x, y, z) = (cos h * x - sin h * y, sin h * x + cos h * y, z)"
proof -
  let ?c = "cos (h / 2)" and ?s = "sin (h / 2)"
  have ss: "?s * ?s = 1 - ?c * ?c"
    using sin_squared_eq[of "h / 2"] by (simp add: power2_eq_square)
  have ch: "cos h = 2 * (?c * ?c) - 1"
    using cos_double_cos[of "h / 2"] by (simp add: power2_eq_square)
  have sh: "sin h = 2 * (?s * ?c)"
    using sin_double[of "h / 2"] by simp
  show ?thesis
    unfolding ch sh by (simp add: yaw_quat_def Let_def ss algebra_simps)
qed

lemma yaw_quat_mul: "quat_mul (yaw_quat a) (yaw_quat b) = yaw_quat (a + b)"
  by (simp add: yaw_quat_def quat_mul_hamilton cos_add sin_add add_divide_distrib algebra_simps)

lemma yaw_quat_0 [simp]: "yaw_quat 0 = (1, 0, 0, 0)"
  by (simp add: yaw_quat_def)

lemma atan2_scale: "0 < r \<Longrightarrow> atan2 (r * y) (r * x) = atan2 y x"
  by (simp add: atan2_def zero_less_mult_iff mult_less_0_iff zero_le_mult_iff)

lemma sqrt_scaled: "x > 0 \<Longrightarrow> sqrt (x\<^sup>2 + y\<^sup>2) = x * sqrt (1 + (y / x)\<^sup>2)"
proof -
  assume "x > 0"
  then have "x\<^sup>2 + y\<^sup>2 = x\<^sup>2 * (1 + (y / x)\<^sup>2)" by (simp add: field_simps)
  then show ?thesis using \<open>x > 0\<close> by (simp add: real_sqrt_mult)
qed

lemma atan2_polar:
  "x = sqrt (x\<^sup>2 + y\<^sup>2) * cos (atan2 y x)" "y = sqrt (x\<^sup>2 + y\<^sup>2) * sin (atan2 y x)"
proof -
  have sq: "sqrt (1 + u\<^sup>2) \<noteq> 0" for u :: real
    by (smt (verit) real_sqrt_eq_zero_cancel_iff zero_le_power2)
  consider "x > 0" | "x < 0" | "x = 0" by linarith
  then have "x = sqrt (x\<^sup>2 + y\<^sup>2) * cos (atan2 y x) \<and> y = sqrt (x\<^sup>2 + y\<^sup>2) * sin (atan2 y x)"
  proof cases
    case 1
    then show ?thesis
      using sq[of "y / x"] sqrt_scaled[OF 1, of y] by (simp add: atan2_def cos_arctan sin_arctan)
  next
    case 2
    then have "sqrt (x\<^sup>2 + y\<^sup>2) = - x * sqrt (1 + (y / x)\<^sup>2)"
      using sqrt_scaled[of "- x" y] by simp
    with 2 show ?thesis
      using sq[of "y / x"] by (auto simp: atan2_def cos_arctan sin_arctan cos_diff sin_diff)
  next
    case 3
    then show ?thesis by (auto simp: atan2_def)
  qed
  then show "x = sqrt (x\<^sup>2 + y\<^sup>2) * cos (atan2 y x)" "y = sqrt (x\<^sup>2 + y\<^sup>2) * sin (atan2 y x)"
    by auto
qed

lemma atan2_of_heading:
  assumes "0 < r" "h = atan2 y x"
  shows "atan2 (r * sin h) (r * cos h) = h"
proof (cases "x = 0 \<and> y = 0")
  case True
  with assms show ?thesis by (simp add: atan2_def)
next
  case False
  define m where "m = sqrt (x\<^sup>2 + y\<^sup>2)"
  have "0 < m" using False by (auto simp: m_def sum_power2_gt_zero_iff)
  have "atan2 (r * sin h) (r * cos h) = atan2 (m * sin h) (m * cos h)"
    using atan2_scale assms(1) \<open>0 < m\<close> by metis
  also have "\<dots> = atan2 y x"
    using atan2_polar[where x = x and y = y] assms(2) by (simp add: m_def)
  finally show ?thesis using assms(2) by simp
qed

lemma heading_turned:
  assumes "unit_quat ref" "quat_rotate ref (1, 0, 0) = (x, y, z)" "x \<noteq> 0 \<or> y \<noteq> 0"
  shows "calc_heading (quat_mul (quat_mul (calc_heading_quat base) (calc_heading_quat_inv ref)) ref)
      = calc_heading base \<and>
    snd (snd (quat_rotate
      (quat_mul (quat_mul (calc_heading_quat base) (calc_heading_quat_inv ref)) ref) v))
      = snd (snd (quat_rotate ref v))"
proof -
  let ?hb = "calc_heading base" and ?hr = "calc_heading ref"
  let ?q = "quat_mul (quat_mul (calc_heading_quat base) (calc_heading_quat_inv ref)) ref"
  have q: "?q = quat_mul (yaw_quat (?hb - ?hr)) ref"
    by (simp add: calc_heading_quat_def calc_heading_quat_inv_def yaw_quat_mul)
  have rot: "quat_rotate ?q u = quat_rotate (yaw_quat (?hb - ?hr)) (quat_rotate ref u)" for u
    unfolding q by (rule quat_rotate_mul[OF unit_yaw_quat assms(1)])
  define r where "r = sqrt (x\<^sup>2 + y\<^sup>2)"
  have "0 < r" using assms(3) by (auto simp: r_def sum_power2_gt_zero_iff)
  have hr: "?hr = atan2 y x" by (simp add: calc_heading_def assms(2))
  have xy: "x = r * cos ?hr" "y = r * sin ?hr"
    unfolding r_def hr by (rule atan2_polar)+
  have "quat_rotate ?q (1, 0, 0) = (r * cos ?hb, r * sin ?hb, z)"
  proof -
    have "cos (?hb - ?hr) * x - sin (?hb - ?hr) * y = r * cos ((?hb - ?hr) + ?hr)"
      "sin (?hb - ?hr) * x + cos (?hb - ?hr) * y = r * sin ((?hb - ?hr) + ?hr)"
      unfolding xy cos_add sin_add by (simp_all add: algebra_simps)
    then show ?thesis unfolding rot assms(2) rotate_yaw by simp
  qed
  then have "calc_heading ?q = atan2 (r * sin ?hb) (r * cos ?hb)"
    by (simp add: calc_heading_def)
  moreover obtain dx dy dz where "quat_rotate base (1, 0, 0) = (dx, dy, dz)"
    by (cases "quat_rotate base (1, 0, 0)")
  ultimately have "calc_heading ?q = ?hb"
    using atan2_of_heading[OF \<open>0 < r\<close>, of ?hb dy dx] by (simp add: calc_heading_def)
  moreover have "snd (snd (quat_rotate ?q v)) = snd (snd (quat_rotate ref v))"
    unfolding rot by (cases "quat_rotate ref v") (simp add: rotate_yaw)
  ultimately show ?thesis by simp
qed

text \<open>
  Heading alignment is exact: composing the robot's heading with the inverse heading of a
  reference turns any unit reference whose forward axis is not vertical into an orientation
  with precisely the robot's heading, without changing its tilt (the height of its axes).
\<close>
theorem heading_alignment:
  assumes "unit_quat ref" "quat_rotate ref (1, 0, 0) = (x, y, z)" "x \<noteq> 0 \<or> y \<noteq> 0"
  shows "calc_heading (quat_mul (quat_mul (calc_heading_quat base) (calc_heading_quat_inv ref)) ref)
      = calc_heading base \<and>
    snd (snd (quat_rotate
      (quat_mul (quat_mul (calc_heading_quat base) (calc_heading_quat_inv ref)) ref) v))
      = snd (snd (quat_rotate ref v))"
  using assms by (rule heading_turned)

lemma heading_alignment_witness:
  "calc_heading (quat_mul (quat_mul (calc_heading_quat (1, 0, 0, 0))
       (calc_heading_quat_inv (3/5, 0, 0, 4/5))) (3/5, 0, 0, 4/5)) = calc_heading (1, 0, 0, 0) \<and>
   snd (snd (quat_rotate (quat_mul (quat_mul (calc_heading_quat (1, 0, 0, 0))
       (calc_heading_quat_inv (3/5, 0, 0, 4/5))) (3/5, 0, 0, 4/5)) (0, 0, 1))) =
   snd (snd (quat_rotate (3/5, 0, 0, 4/5) (0, 0, 1)))"
  by (rule heading_alignment[where x = "-7/25" and y = "24/25" and z = 0])
    (simp_all add: unit_quat_def quat_norm2_def Let_def)

section \<open>Interpolation\<close>

lemma quat_neg_norm2 [simp]: "quat_norm2 (quat_neg q) = quat_norm2 q"
  by (cases q) (simp add: quat_norm2_def)

lemma quat_dot_neg [simp]: "quat_dot a (quat_neg b) = - quat_dot a b"
  by (cases a; cases b) simp

lemma quat_comb_norm2:
  "quat_norm2 (quat_comb s a t b) =
   s * s * quat_norm2 a + 2 * s * t * quat_dot a b + t * t * quat_norm2 b"
  by (cases a; cases b) (simp add: quat_norm2_def algebra_simps)

lemma quat_lerp_comb: "quat_lerp a b t = quat_comb (1 - t) a t b"
  by (cases a; cases b) (simp add: algebra_simps)

lemma quat_norm2_nonneg: "0 \<le> quat_norm2 q"
  by (cases q) (simp add: quat_norm2_def)

lemma quat_unit_norm2:
  assumes "1 / 10 ^ 24 \<le> quat_norm2 q"
  shows "unit_quat (quat_unit q)"
proof -
  obtain w x y z where q: "q = (w, x, y, z)" by (cases q)
  define n where "n = sqrt (w*w + x*x + y*y + z*z)"
  have s: "w*w + x*x + y*y + z*z = quat_norm2 q" by (simp add: q quat_norm2_def)
  have "sqrt (1 / 10 ^ 24) \<le> n" unfolding n_def s using assms by (rule real_sqrt_le_mono)
  moreover have "sqrt (1 / 10 ^ 24) = (1 / 10 ^ 12 :: real)"
    by (rule real_sqrt_unique) (simp_all add: power2_eq_square)
  ultimately have n: "1 / 10 ^ 12 \<le> n" by simp
  then have "0 < n" by (smt (verit) divide_pos_pos zero_less_power)
  have nn: "n * n = w*w + x*x + y*y + z*z"
    unfolding n_def by (rule real_sqrt_mult_self[THEN trans]) (simp add: abs_of_nonneg add_nonneg_nonneg)
  have "quat_unit q = (w / n, x / n, y / n, z / n)"
    using n by (simp add: q Let_def max_def flip: n_def)
  then have "quat_norm2 (quat_unit q) = (w*w + x*x + y*y + z*z) / (n * n)"
    by (simp add: quat_norm2_def add_divide_distrib)
  moreover have "n * n \<noteq> 0" using \<open>0 < n\<close> by simp
  ultimately show ?thesis using nn by (simp add: unit_quat_def)
qed

lemma slerp_props:
  assumes "unit_quat a" "unit_quat b" "0 \<le> t" "t \<le> 1"
  shows "unit_quat (quat_slerp a b t) \<and> quat_slerp a b 0 = a \<and>
    quat_slerp a b 1 = (if quat_dot a b < 0 then quat_neg b else b)"
proof -
  define bb where "bb = (if quat_dot a b < 0 then quat_neg b else b)"
  define d where "d = \<bar>quat_dot a b\<bar>"
  have d: "quat_dot a bb = d" "(if quat_dot a b < 0 then - quat_dot a b else quat_dot a b) = d"
    by (auto simp: d_def bb_def)
  have unit: "quat_norm2 a = 1" "quat_norm2 bb = 1" "unit_quat bb"
    using assms by (auto simp: unit_quat_def bb_def)
  have comb: "quat_norm2 (quat_comb s a u bb) = s * s + 2 * s * u * d + u * u" for s u
    by (simp add: quat_comb_norm2 unit d)
  have ends: "quat_comb 1 a 0 bb = a" "quat_comb 0 a 1 bb = bb"
    by (cases a; cases bb; simp)+
  show ?thesis
  proof (cases "d > 0.9995")
    case True
    have lerp: "quat_slerp a b u = quat_unit (quat_comb (1 - u) a u bb)" for u
      using True by (simp add: quat_slerp_def Let_def d quat_lerp_comb flip: bb_def)
    have "1 / 2 \<le> (1 - t) * (1 - t) + t * t"
      using zero_le_power2[of "2 * t - 1"] by (simp add: power2_eq_square algebra_simps)
    moreover have "0 \<le> 2 * (1 - t) * t * d" using assms True by simp
    ultimately have "1 / 2 \<le> quat_norm2 (quat_comb (1 - t) a t bb)"
      unfolding comb by simp
    then have "1 / 10 ^ 24 \<le> quat_norm2 (quat_comb (1 - t) a t bb)"
      by (rule order_trans[rotated]) simp
    then have "unit_quat (quat_slerp a b t)" unfolding lerp by (rule quat_unit_norm2)
    then show ?thesis using lerp[of 0] lerp[of 1] assms(1) unit(3)
      by (simp add: ends) (simp add: bb_def)
  next
    case False
    then have dd: "-1 \<le> d" "d \<le> 1" "d * d < 1"
      using abs_square_less_1[of d] by (auto simp: d_def power2_eq_square)
    define S where "S = sin (arccos d)"
    have S: "S * S = 1 - d * d" "S \<noteq> 0" "cos (arccos d) = d"
      using dd sin_cos_squared_add[of "arccos d"] by (auto simp: S_def power2_eq_square)
    have slerp: "quat_slerp a b u = quat_comb
        (cos (arccos d * u) - d * (sin (arccos d * u) / S)) a (sin (arccos d * u) / S) bb" for u
      using False by (simp add: quat_slerp_def Let_def d S_def flip: bb_def)
    have "quat_norm2 (quat_slerp a b t) = 1"
    proof -
      let ?c = "cos (arccos d * t)" and ?v = "sin (arccos d * t) / S"
      have "(c - d * v) * (c - d * v) + 2 * (c - d * v) * v * d + v * v
          = c * c + v * v * (1 - d * d)" for c v
        by (simp add: algebra_simps)
      then have "quat_norm2 (quat_slerp a b t) = ?c * ?c + ?v * ?v * (1 - d * d)"
        unfolding slerp comb by blast
      also have "?v * ?v * (1 - d * d) = sin (arccos d * t) * sin (arccos d * t)"
        using S by (simp flip: S(1))
      finally show ?thesis using sin_cos_squared_add2[of "arccos d * t"]
        by (simp add: power2_eq_square)
    qed
    then show ?thesis using slerp[of 0] slerp[of 1] S(2,3)
      by (simp add: unit_quat_def ends flip: S_def) (simp add: bb_def)
  qed
qed

lemmas quat_slerp_unit = slerp_props[THEN conjunct1]

text \<open>
  Spherical interpolation between unit orientations stays a unit orientation for every
  weight, starts at the first argument, and ends at the second up to the sign that picks the
  shorter arc.
\<close>
theorem slerp_unit_and_endpoints:
  assumes "unit_quat a" "unit_quat b" "0 \<le> t" "t \<le> 1"
  shows "unit_quat (quat_slerp a b t) \<and> quat_slerp a b 0 = a \<and>
    quat_slerp a b 1 = (if quat_dot a b < 0 then quat_neg b else b)"
  using assms by (rule slerp_props)

lemma slerp_unit_and_endpoints_witness:
  "unit_quat (quat_slerp (1, 0, 0, 0) (-3/5, 4/5, 0, 0) (1/2)) \<and>
   quat_slerp (1, 0, 0, 0) (-3/5, 4/5, 0, 0) 0 = (1, 0, 0, 0) \<and>
   quat_slerp (1, 0, 0, 0) (-3/5, 4/5, 0, 0) 1 = (3/5, -4/5, 0, 0)"
  using slerp_unit_and_endpoints[of "(1, 0, 0, 0)" "(-3/5, 4/5, 0, 0)" "1/2"]
  by (simp add: unit_quat_def quat_norm2_def)


end
