(* ===== verification/State_Logger.thy ===== *)
theory State_Logger
  imports Channels Robot_Tables
begin

text \<open>
  The state-history ring of \<open>include/control/state_logger.hpp\<close>: the circular buffer with
  its start index and size, and the proof that it behaves as the list of the newest entries,
  i.e. that it provides the contract \<open>bounded_log\<close>.
\<close>

record logger_entry =
  base_quat :: quat
  base_ang_vel :: vec3
  body_q :: "real list"
  body_dq :: "real list"
  last_action_obs :: "real list"

definition zero_entry :: logger_entry where
  "zero_entry = \<lparr>base_quat = (0, 0, 0, 0), base_ang_vel = (0, 0, 0),
     body_q = replicate 29 0, body_dq = replicate 29 0, last_action_obs = replicate 29 0\<rparr>"

record state_logger =
  log_capacity :: nat
  log_ring :: "logger_entry list"
  log_start :: nat
  log_size :: nat

definition logger_init :: "nat \<Rightarrow> state_logger" where
  "logger_init capacity = \<lparr>log_capacity = capacity, log_ring = replicate capacity zero_entry,
     log_start = 0, log_size = 0\<rparr>"

definition log_entry :: "logger_entry \<Rightarrow> state_logger \<Rightarrow> state_logger" where
  "log_entry e l =
     (let l' = l\<lparr>log_ring := (log_ring l)[(log_start l + log_size l) mod log_capacity l := e]\<rparr>
      in if log_size l < log_capacity l then l'\<lparr>log_size := log_size l + 1\<rparr>
         else l'\<lparr>log_start := (log_start l + 1) mod log_capacity l\<rparr>)"

definition get_latest :: "nat \<Rightarrow> state_logger \<Rightarrow> logger_entry list" where
  "get_latest n l =
     (let have_n = min n (log_size l)
      in replicate (n - have_n) zero_entry @
         map (\<lambda>j. log_ring l ! ((log_start l + log_size l - have_n + j) mod log_capacity l))
           [0..<have_n])"

definition logger_wf :: "state_logger \<Rightarrow> bool" where
  "logger_wf l \<longleftrightarrow> 0 < log_capacity l \<and> length (log_ring l) = log_capacity l \<and>
     log_start l < log_capacity l \<and> log_size l \<le> log_capacity l"

text \<open>The history the ring stands for, oldest entry first.\<close>

definition logged :: "state_logger \<Rightarrow> logger_entry list" where
  "logged l = map (\<lambda>j. log_ring l ! ((log_start l + j) mod log_capacity l)) [0..<log_size l]"

lemma logger_wf_init: "0 < c \<Longrightarrow> logger_wf (logger_init c)"
  by (simp add: logger_wf_def logger_init_def)

lemma logged_init [simp]: "logged (logger_init c) = []"
  by (simp add: logged_def logger_init_def)

lemma length_logged [simp]: "length (logged l) = log_size l"
  by (simp add: logged_def)

lemma log_entry_capacity [simp]: "log_capacity (log_entry e l) = log_capacity l"
  by (simp add: log_entry_def Let_def)

lemma logger_wf_log: "logger_wf l \<Longrightarrow> logger_wf (log_entry e l)"
  by (auto simp: logger_wf_def log_entry_def Let_def)

lemma logged_log:
  assumes "logger_wf l"
  shows "logged (log_entry e l) = last_n (log_capacity l) (logged l @ [e])"
proof (cases "log_size l < log_capacity l")
  case True
  let ?c = "log_capacity l" and ?s = "log_start l" and ?n = "log_size l"
  have neq: "(?s + ?n) mod ?c \<noteq> (?s + j) mod ?c" if "j < ?n" for j
    using ring_index_inj[of j ?c ?n ?s] that True by auto
  have "logged (log_entry e l) = logged l @ [e]"
    using assms True neq
    by (auto simp: logged_def log_entry_def logger_wf_def Let_def nth_append intro!: nth_equalityI)
  then show ?thesis using True by simp
next
  case False
  let ?c = "log_capacity l" and ?s = "log_start l"
  have n: "log_size l = ?c" and wf: "0 < ?c" "length (log_ring l) = ?c" "?s < ?c"
    using False assms by (auto simp: logger_wf_def)
  have neq: "?s \<noteq> (Suc (?s + j)) mod ?c" if "j < ?c - 1" for j
    using ring_index_less[of 0 "Suc j" ?c ?s] that wf by auto
  have last: "(Suc (?s + (?c - 1))) mod ?c = ?s" using wf by simp
  have "logged (log_entry e l) ! j = tl (logged l @ [e]) ! j" if "j < ?c" for j
  proof (cases "j < ?c - 1")
    case True
    then show ?thesis using neq[OF True] wf n
      by (simp add: logged_def log_entry_def Let_def nth_tl nth_append mod_add_left_eq)
  next
    case False
    then have "j = ?c - 1" using that by simp
    then show ?thesis using last wf n
      by (simp add: logged_def log_entry_def Let_def nth_tl nth_append mod_add_left_eq)
  qed
  moreover have "log_size (log_entry e l) = ?c" using n by (simp add: log_entry_def Let_def)
  ultimately have "logged (log_entry e l) = tl (logged l @ [e])"
    using n by (intro nth_equalityI) auto
  moreover have "last_n ?c (logged l @ [e]) = tl (logged l @ [e])"
    using n by (simp add: last_n_def drop_Suc del: drop_append)
  ultimately show ?thesis by simp
qed

interpretation history: bounded_log logger_wf logged log_capacity log_entry
  by unfold_locales (auto simp: logger_wf_log logged_log, auto simp: logger_wf_def)

text \<open>Reading the ring is reading the history, padded with zero entries in front.\<close>

lemma get_latest_logged:
  assumes "logger_wf l"
  shows "get_latest n l = replicate (n - log_size l) zero_entry @ last_n n (logged l)"
proof -
  have "map (\<lambda>j. log_ring l !
        ((log_start l + log_size l - min n (log_size l) + j) mod log_capacity l))
      [0..<min n (log_size l)] = last_n n (logged l)"
    using assms
    by (intro nth_equalityI)
      (auto simp: logged_def last_n_def min_def algebra_simps Nat.add_diff_assoc)
  then show ?thesis by (simp add: get_latest_def Let_def min_def)
qed

lemma length_get_latest [simp, len_simps]: "length (get_latest n l) = n"
  by (simp add: get_latest_def Let_def)

text \<open>
  The circular state history is the plain history: after any sequence of logged ticks the
  latest n entries are the last n logged ones, oldest first, with zero entries in
  front while fewer have been logged.
\<close>
theorem history_ring_refines_list:
  assumes "n \<le> c" "0 < c"
  shows "get_latest n (fold log_entry es (logger_init c)) =
    replicate (n - length es) zero_entry @ last_n n es"
proof -
  let ?l = "fold log_entry es (logger_init c)"
  have wf: "logger_wf ?l" using history.invar_puts[OF logger_wf_init[OF assms(2)]] .
  have cap: "log_capacity (logger_init c) = c" by (simp add: logger_init_def)
  have l: "logged ?l = last_n c es"
    using history.items_puts[OF logger_wf_init[OF assms(2)], of es] cap by simp
  then have size: "log_size ?l = min c (length es)" by (metis length_last_n length_logged)
  then show ?thesis
    using assms(1) by (simp add: get_latest_logged[OF wf] l size)
qed

lemma history_ring_refines_list_witness:
  "get_latest 2 (fold log_entry
      [zero_entry\<lparr>body_q := [1]\<rparr>, zero_entry\<lparr>body_q := [2]\<rparr>, zero_entry\<lparr>body_q := [3]\<rparr>]
      (logger_init 2)) = [zero_entry\<lparr>body_q := [2]\<rparr>, zero_entry\<lparr>body_q := [3]\<rparr>]"
  using history_ring_refines_list[of 2 2 "[zero_entry\<lparr>body_q := [1]\<rparr>,
      zero_entry\<lparr>body_q := [2]\<rparr>, zero_entry\<lparr>body_q := [3]\<rparr>]"]
  by (simp add: last_n_def)

end
