(* ===== verification/Record_Control.thy ===== *)
theory Record_Control
  imports Prelude
begin

text \<open>
  The VR-button recording control: the short-press detector
  (\<open>include/motion/tap_detector.hpp\<close>), the gesture table and local mirror of the collector
  (\<open>include/collector/record_control.hpp\<close>) and the commander that publishes the actions
  (\<open>src/collector/record_commander.cpp\<close>).
\<close>

section \<open>TapDetector\<close>

definition kTapMaxS :: real where "kTapMaxS = 0.30"
definition kDoubleGapS :: real where "kDoubleGapS = 0.35"
definition kMaxTaps :: int where "kMaxTaps = 3"

datatype tap_event = TapNone | TapSingle | TapDouble | TapTriple

record tap_detector =
  was_pressed :: bool
  tap_pending :: bool
  tap_void :: bool
  tap_count :: int
  press_s :: real
  since_release_s :: real

definition tap_reset :: tap_detector where
  "tap_reset = \<lparr>was_pressed = False, tap_pending = False, tap_void = False, tap_count = 0,
     press_s = 0, since_release_s = 0\<rparr>"

definition tap_update :: "bool \<Rightarrow> bool \<Rightarrow> real \<Rightarrow> tap_detector \<Rightarrow> tap_event \<times> tap_detector" where
  "tap_update pressed voided dt_s t0 =
     (let t = (if voided then t0\<lparr>tap_void := True, tap_count := 0, tap_pending := False\<rparr> else t0)
      in if tap_void t then
           (TapNone, t\<lparr>tap_void := \<not> (\<not> pressed \<and> \<not> voided), was_pressed := pressed\<rparr>)
         else if pressed then
           (TapNone,
            (if \<not> was_pressed t then
               t\<lparr>press_s := 0,
                 tap_count := (if \<not> (tap_pending t \<and> since_release_s t \<le> kDoubleGapS)
                               then 0 else tap_count t),
                 tap_pending := False\<rparr>
             else t\<lparr>press_s := press_s t + dt_s\<rparr>)\<lparr>was_pressed := True\<rparr>)
         else if was_pressed t then
           (let t1 = t\<lparr>was_pressed := False\<rparr>
            in if press_s t1 \<ge> kTapMaxS then (TapNone, t1\<lparr>tap_count := 0\<rparr>)
               else let c = tap_count t1 + 1
                    in if c \<ge> kMaxTaps then (TapTriple, t1\<lparr>tap_count := 0\<rparr>)
                       else (TapNone, t1\<lparr>tap_count := c, tap_pending := True, since_release_s := 0\<rparr>))
         else if tap_pending t then
           (let s = since_release_s t + dt_s
            in if s > kDoubleGapS then
                 ((if tap_count t = 1 then TapSingle else TapDouble),
                  t\<lparr>since_release_s := s, tap_pending := False, tap_count := 0\<rparr>)
               else (TapNone, t\<lparr>since_release_s := s\<rparr>))
         else (TapNone, t))"

text \<open>A trace of ticks \<open>(pressed, voided)\<close> and the events it yields, quiet ticks left out.\<close>

fun tap_run :: "real \<Rightarrow> (bool \<times> bool) list \<Rightarrow> tap_detector \<Rightarrow> tap_event list \<times> tap_detector" where
  "tap_run dt [] t = ([], t)"
| "tap_run dt ((p, v) # ins) t =
     (case tap_update p v dt t of (e, t') \<Rightarrow>
       case tap_run dt ins t' of (es, t'') \<Rightarrow> ((if e = TapNone then es else e # es), t''))"

lemma tap_run_append:
  "tap_run dt (xs @ ys) t =
    (case tap_run dt xs t of (es, t') \<Rightarrow> apfst ((@) es) (tap_run dt ys t'))"
  by (induction xs arbitrary: t) (simp_all add: apfst_def map_prod_def split_beta split_paired_all)

text \<open>Between updates at most two taps are counted, and a waiting gesture has at least one.\<close>

definition tap_inv :: "tap_detector \<Rightarrow> bool" where
  "tap_inv t \<longleftrightarrow> 0 \<le> tap_count t \<and> tap_count t \<le> 2 \<and> (tap_pending t \<longrightarrow> 1 \<le> tap_count t) \<and>
     (was_pressed t \<longrightarrow> \<not> tap_pending t) \<and> (tap_void t \<longrightarrow> tap_count t = 0 \<and> \<not> tap_pending t)"

lemma tap_inv_reset [simp]: "tap_inv tap_reset"
  by (simp add: tap_inv_def tap_reset_def)

lemma tap_inv_update: "tap_inv t \<Longrightarrow> tap_inv (snd (tap_update p v dt t))"
  by (auto simp: tap_inv_def tap_update_def Let_def kMaxTaps_def)

lemma tap_inv_run: "tap_inv t \<Longrightarrow> tap_inv (snd (tap_run dt ins t))"
  by (induction ins arbitrary: t) (simp_all add: split_beta split_paired_all tap_inv_update)

subsection \<open>One press and the silence after it\<close>

text \<open>The detector at rest with \<open>c\<close> taps of the current gesture counted.\<close>

definition tap_rest :: "int \<Rightarrow> tap_detector \<Rightarrow> bool" where
  "tap_rest c t \<longleftrightarrow> \<not> was_pressed t \<and> \<not> tap_void t \<and>
     (if c = 0 then \<not> tap_pending t
      else tap_pending t \<and> tap_count t = c \<and> since_release_s t \<le> kDoubleGapS)"

lemma press_run:
  assumes "was_pressed t" "\<not> tap_void t"
  shows "tap_run dt (replicate k (True, False)) t =
    ([], t\<lparr>press_s := press_s t + real k * dt\<rparr>)"
  using assms
proof (induction k arbitrary: t)
  case (Suc k)
  then show ?case by (simp add: tap_update_def Let_def algebra_simps)
qed simp

lemma silence_run:
  assumes "\<not> was_pressed t" "\<not> tap_void t" "tap_pending t"
    and "since_release_s t + real k * dt \<le> kDoubleGapS" "0 \<le> dt"
  shows "tap_run dt (replicate k (False, False)) t =
    ([], t\<lparr>since_release_s := since_release_s t + real k * dt\<rparr>)"
  using assms
proof (induction k arbitrary: t)
  case (Suc k)
  have "since_release_s t + dt \<le> kDoubleGapS"
    using Suc.prems(4) mult_nonneg_nonneg[OF Suc.prems(5), of "real k"]
    by (simp add: algebra_simps)
  then show ?case using Suc by (simp add: tap_update_def Let_def algebra_simps)
qed simp

lemma quiet_run:
  assumes "\<not> was_pressed t" "\<not> tap_void t" "\<not> tap_pending t"
  shows "tap_run dt (replicate k (False, False)) t = ([], t)"
  using assms by (induction k) (simp_all add: tap_update_def Let_def)

text \<open>One short press, released: it adds one tap, or completes the triple.\<close>

definition press_ticks :: "nat \<Rightarrow> (bool \<times> bool) list" where
  "press_ticks k = replicate (Suc k) (True, False) @ [(False, False)]"

lemma tap_press:
  assumes "tap_rest c t" "0 \<le> c" "c \<le> 2" "real k * dt < kTapMaxS"
  shows "\<exists>t'. tap_run dt (press_ticks k) t = ((if c = 2 then [TapTriple] else []), t') \<and>
    tap_rest (if c = 2 then 0 else c + 1) t' \<and> (c < 2 \<longrightarrow> since_release_s t' = 0)"
proof -
  obtain t1 where edge: "tap_update True False dt t = (TapNone, t1)"
    and t1: "was_pressed t1" "\<not> tap_void t1" "press_s t1 = 0" "tap_count t1 = c" "\<not> tap_pending t1"
    using assms(1) by (auto simp: tap_rest_def tap_update_def Let_def split: if_splits)
  have "tap_run dt (press_ticks k) t =
      tap_run dt [(False, False)] (t1\<lparr>press_s := real k * dt\<rparr>)"
    using t1 by (simp add: press_ticks_def edge tap_run_append press_run apfst_def map_prod_def split_beta)
  moreover have "tap_update False False dt (t1\<lparr>press_s := real k * dt\<rparr>) =
      (if c = 2 then (TapTriple, t1\<lparr>press_s := real k * dt, was_pressed := False, tap_count := 0\<rparr>)
       else (TapNone, t1\<lparr>press_s := real k * dt, was_pressed := False, tap_count := c + 1,
               tap_pending := True, since_release_s := 0\<rparr>))"
    using t1 assms(2-4) by (auto simp: tap_update_def Let_def kMaxTaps_def)
  ultimately show ?thesis
    using t1 assms(2,3) by (auto simp: tap_rest_def kDoubleGapS_def)
qed

text \<open>A waiting gesture reports its count when the window closes, and is quiet afterwards.\<close>

lemma tap_window:
  assumes "tap_rest c t" "1 \<le> c" "since_release_s t = 0"
    and "real j * dt \<le> kDoubleGapS" "kDoubleGapS < real (Suc j) * dt" "0 \<le> dt"
  shows "\<exists>t'. tap_run dt (replicate (Suc j + m) (False, False)) t =
    ([if c = 1 then TapSingle else TapDouble], t') \<and> tap_rest 0 t'"
proof -
  have t: "\<not> was_pressed t" "\<not> tap_void t" "tap_pending t" "tap_count t = c"
    using assms(1,2) by (auto simp: tap_rest_def split: if_splits)
  have rep: "replicate (Suc j + m) (False, False) =
      replicate j (False, False) @ (False, False) # replicate m (False, False)"
    by (metis replicate_add replicate_Suc replicate_app_Cons_same add_Suc)
  have "real j * dt + dt > kDoubleGapS" using assms(5) by (simp add: algebra_simps)
  then have "tap_run dt ((False, False) # replicate m (False, False))
        (t\<lparr>since_release_s := real j * dt\<rparr>) =
      ([if c = 1 then TapSingle else TapDouble],
       t\<lparr>since_release_s := real j * dt + dt, tap_pending := False, tap_count := 0\<rparr>)"
    using t by (simp add: tap_update_def Let_def quiet_run)
  then show ?thesis
    unfolding rep tap_run_append using t assms(3,4,6) by (simp add: silence_run tap_rest_def)
qed

text \<open>A short press, a gap inside the window: the gesture goes on.\<close>

lemma tap_gap:
  assumes "tap_rest c t" "1 \<le> c" "since_release_s t = 0" "real g * dt \<le> kDoubleGapS" "0 \<le> dt"
  shows "\<exists>t'. tap_run dt (replicate g (False, False)) t = ([], t') \<and> tap_rest c t'"
  using assms by (auto simp: tap_rest_def silence_run)

text \<open>
  Tap gestures are recognised exactly: presses shorter than 0.3 s whose gaps stay inside
  0.35 s yield one event and no other, a single for one tap, a double for two, both once the
  window has closed, and a triple at once for three, whatever their durations and for every
  tick length.
\<close>
theorem tap_gestures_recognised:
  assumes "tap_rest 0 t" "0 \<le> dt"
    and "real k1 * dt < kTapMaxS" "real k2 * dt < kTapMaxS" "real k3 * dt < kTapMaxS"
    and "real g1 * dt \<le> kDoubleGapS" "real g2 * dt \<le> kDoubleGapS"
    and "real j * dt \<le> kDoubleGapS" "kDoubleGapS < real (Suc j) * dt"
  shows "fst (tap_run dt (press_ticks k1 @ replicate (Suc j + m) (False, False)) t) = [TapSingle]
    \<and> fst (tap_run dt (press_ticks k1 @ replicate g1 (False, False) @ press_ticks k2 @
          replicate (Suc j + m) (False, False)) t) = [TapDouble]
    \<and> fst (tap_run dt (press_ticks k1 @ replicate g1 (False, False) @ press_ticks k2 @
          replicate g2 (False, False) @ press_ticks k3) t) = [TapTriple]"
proof -
  obtain t1 where t1: "tap_run dt (press_ticks k1) t = ([], t1)" "tap_rest 1 t1"
      "since_release_s t1 = 0"
    using tap_press[OF assms(1) _ _ assms(3)] by auto
  obtain t2 where t2: "tap_run dt (replicate g1 (False, False)) t1 = ([], t2)" "tap_rest 1 t2"
    using tap_gap[OF t1(2) _ t1(3) assms(6,2)] by auto
  obtain t3 where t3: "tap_run dt (press_ticks k2) t2 = ([], t3)" "tap_rest 2 t3"
      "since_release_s t3 = 0"
    using tap_press[OF t2(2) _ _ assms(4)] by auto
  obtain t4 where t4: "tap_run dt (replicate g2 (False, False)) t3 = ([], t4)" "tap_rest 2 t4"
    using tap_gap[OF t3(2) _ t3(3) assms(7,2)] by auto
  obtain t5 where t5: "tap_run dt (press_ticks k3) t4 = ([TapTriple], t5)"
    using tap_press[OF t4(2) _ _ assms(5)] by auto
  obtain w1 where w1: "tap_run dt (replicate (Suc j + m) (False, False)) t1 = ([TapSingle], w1)"
    using tap_window[OF t1(2) _ t1(3) assms(8,9,2)] by auto
  obtain w2 where w2: "tap_run dt (replicate (Suc j + m) (False, False)) t3 = ([TapDouble], w2)"
    using tap_window[OF t3(2) _ t3(3) assms(8,9,2)] by auto
  show ?thesis by (simp only: tap_run_append t1 t2 t3 t4 t5 w1 w2 prod.case) simp
qed

lemma tap_gestures_recognised_witness:
  "fst (tap_run (1/10) (press_ticks 1 @ replicate (Suc 3 + 4) (False, False)) tap_reset) = [TapSingle]
    \<and> fst (tap_run (1/10) (press_ticks 1 @ replicate 2 (False, False) @ press_ticks 2 @
          replicate (Suc 3 + 4) (False, False)) tap_reset) = [TapDouble]
    \<and> fst (tap_run (1/10) (press_ticks 1 @ replicate 2 (False, False) @ press_ticks 2 @
          replicate 1 (False, False) @ press_ticks 0) tap_reset) = [TapTriple]"
  by (rule tap_gestures_recognised)
    (simp_all add: tap_rest_def tap_reset_def kTapMaxS_def kDoubleGapS_def)

text \<open>A hold, and a press another button joins, both end at rest with nothing reported.\<close>

lemma hold_ticks:
  assumes "tap_rest 0 t"
  obtains t1 where "tap_run dt (replicate (Suc k) (True, False)) t = ([], t1)"
    "was_pressed t1" "\<not> tap_void t1" "press_s t1 = real k * dt" "\<not> tap_pending t1"
proof -
  obtain t1 where edge: "tap_update True False dt t = (TapNone, t1)"
    and t1: "was_pressed t1" "\<not> tap_void t1" "press_s t1 = 0" "\<not> tap_pending t1"
    using assms by (auto simp: tap_rest_def tap_update_def Let_def split: if_splits)
  show ?thesis
    by (rule that[of "t1\<lparr>press_s := real k * dt\<rparr>"]) (use t1 in \<open>simp_all add: edge press_run\<close>)
qed

lemma void_held_run:
  assumes "tap_void t" "was_pressed t"
  shows "tap_run dt (replicate n (True, False)) t = ([], t)"
proof -
  have "tap_update True False dt t = (TapNone, t)"
    using assms by (cases t) (simp add: tap_update_def)
  then show ?thesis by (induction n) simp_all
qed

lemma void_release_run:
  assumes "tap_void t" "\<not> tap_pending t" "tap_count t = 0"
  shows "\<exists>t'. tap_run dt (replicate (Suc m) (False, False)) t = ([], t') \<and> tap_rest 0 t'"
  using assms by (simp add: tap_update_def quiet_run tap_rest_def)

lemma void_tick:
  assumes "was_pressed t"
  obtains t' where "tap_run dt [(True, True)] t = ([], t')" "tap_void t'" "was_pressed t'"
    "\<not> tap_pending t'" "tap_count t' = 0"
  using assms by (simp add: tap_update_def Let_def)

text \<open>
  A press of 0.3 s or more is no tap, and a press joined by another face button is void
  until it is released: neither yields an event, however long it is held and however long the
  silence after it, and both leave nothing of a gesture counted.
\<close>
theorem long_or_void_press_is_silent:
  assumes "tap_rest 0 t" "kTapMaxS \<le> real k * dt"
  shows "(\<exists>t'. tap_run dt (press_ticks k @ replicate m (False, False)) t = ([], t') \<and> tap_rest 0 t')
    \<and> (\<exists>t'. tap_run dt (replicate (Suc l) (True, False) @ [(True, True)] @
          replicate n (True, False) @ replicate (Suc m) (False, False)) t = ([], t') \<and> tap_rest 0 t')"
proof (intro conjI)
  obtain t1 where hold: "tap_run dt (replicate (Suc k) (True, False)) t = ([], t1)"
    and t1: "was_pressed t1" "\<not> tap_void t1" "press_s t1 = real k * dt" "\<not> tap_pending t1"
    using hold_ticks[OF assms(1)] by blast
  have up: "tap_update False False dt t1 = (TapNone, t1\<lparr>was_pressed := False, tap_count := 0\<rparr>)"
    using t1 assms(2) by (simp add: tap_update_def Let_def)
  show "\<exists>t'. tap_run dt (press_ticks k @ replicate m (False, False)) t = ([], t') \<and> tap_rest 0 t'"
    using t1 by (simp add: press_ticks_def tap_run_append up quiet_run tap_rest_def hold
        apfst_def map_prod_def del: replicate_Suc)
next
  obtain t1 where hold: "tap_run dt (replicate (Suc l) (True, False)) t = ([], t1)"
    and t1: "was_pressed t1"
    using hold_ticks[OF assms(1)] by metis
  obtain t2 where t2: "tap_run dt [(True, True)] t1 = ([], t2)" "tap_void t2" "was_pressed t2"
      "\<not> tap_pending t2" "tap_count t2 = 0"
    using void_tick[OF t1] by blast
  obtain t3 where t3: "tap_run dt (replicate (Suc m) (False, False)) t2 = ([], t3)" "tap_rest 0 t3"
    using void_release_run[OF t2(2,4,5)] by blast
  show "\<exists>t'. tap_run dt (replicate (Suc l) (True, False) @ [(True, True)] @
          replicate n (True, False) @ replicate (Suc m) (False, False)) t = ([], t') \<and> tap_rest 0 t'"
    by (rule exI[of _ t3])
      (simp only: tap_run_append hold t2(1) void_held_run[OF t2(2,3)] t3 prod.case, simp add: t3)
qed

lemma long_or_void_press_is_silent_witness:
  "\<exists>t'. tap_run (1/10) (replicate (Suc 0) (True, False) @ [(True, True)] @
          replicate 5 (True, False) @ replicate (Suc 2) (False, False)) tap_reset = ([], t')
      \<and> tap_rest 0 t'"
  using long_or_void_press_is_silent[of tap_reset 4 "1/10" 2 0 5]
  by (simp add: tap_rest_def tap_reset_def kTapMaxS_def del: replicate_Suc)

section \<open>Gestures to commands\<close>

datatype record_action = RNone | RStart | RStop | RLabelSuccess | RLabelFail | RLabelPartial

datatype record_state = SIdle | SRecording | SAwaitingLabel | SUnknown

datatype tap_button = ButtonA | ButtonB

datatype tap_kind = Single | Double | Triple

primrec action_code :: "record_action \<Rightarrow> 8 word" where
  "action_code RNone = 0"
| "action_code RStart = 1"
| "action_code RStop = 2"
| "action_code RLabelSuccess = 3"
| "action_code RLabelFail = 4"
| "action_code RLabelPartial = 5"

primrec state_code :: "record_state \<Rightarrow> 8 word" where
  "state_code SIdle = 0"
| "state_code SRecording = 1"
| "state_code SAwaitingLabel = 2"
| "state_code SUnknown = 255"

definition record_decide :: "record_state \<Rightarrow> tap_button \<Rightarrow> tap_kind \<Rightarrow> record_action" where
  "record_decide st0 button kind =
     (let st = (if st0 = SUnknown then SIdle else st0)
      in case button of
           ButtonB \<Rightarrow>
             (case kind of
                Single \<Rightarrow> (if st \<noteq> SRecording then RStart else RNone)
              | Double \<Rightarrow> (if st = SRecording then RStop else RNone)
              | Triple \<Rightarrow> RNone)
         | ButtonA \<Rightarrow>
             (if st \<noteq> SAwaitingLabel then RNone
              else case kind of
                     Single \<Rightarrow> RLabelSuccess
                   | Double \<Rightarrow> RLabelFail
                   | Triple \<Rightarrow> RLabelPartial))"

fun record_next_state :: "record_state \<Rightarrow> record_action \<Rightarrow> record_state" where
  "record_next_state current RStart = SRecording"
| "record_next_state current RStop = SAwaitingLabel"
| "record_next_state current RLabelSuccess = SIdle"
| "record_next_state current RLabelFail = SIdle"
| "record_next_state current RLabelPartial = SIdle"
| "record_next_state current RNone = current"

primrec record_action_name :: "record_action \<Rightarrow> string" where
  "record_action_name RStart = ''start''"
| "record_action_name RStop = ''stop''"
| "record_action_name RLabelSuccess = ''label_success''"
| "record_action_name RLabelFail = ''label_fail''"
| "record_action_name RLabelPartial = ''label_partial''"
| "record_action_name RNone = ''none''"

primrec record_state_name :: "record_state \<Rightarrow> string" where
  "record_state_name SIdle = ''idle''"
| "record_state_name SRecording = ''recording''"
| "record_state_name SAwaitingLabel = ''awaiting_label''"
| "record_state_name SUnknown = ''unknown''"

section \<open>RecordCommander\<close>

text \<open>A published message: its sequence number, its stamp and the action's wire code.\<close>

record record_msg =
  msg_seq :: nat
  msg_stamp_ns :: int
  msg_action :: "8 word"

text \<open>
  The commander; \<open>sent\<close> is what was handed to the DDS channel, oldest first. The channel
  exists (\<open>pub\<close>) from \<open>start\<close> to \<open>stop\<close>.
\<close>

record record_commander =
  pub :: bool
  cmd_seq :: nat
  assumed :: record_state
  started :: bool
  sent :: "record_msg list"

definition commander_init :: record_commander where
  "commander_init = \<lparr>pub = False, cmd_seq = 0, assumed = SIdle, started = False, sent = []\<rparr>"

text \<open>\<open>start\<close>: \<open>dds_ok\<close> is whether the channel opened without an exception.\<close>

definition commander_start :: "bool \<Rightarrow> record_commander \<Rightarrow> bool \<times> record_commander" where
  "commander_start dds_ok c =
     (if \<not> dds_ok then (False, c\<lparr>pub := False\<rparr>)
      else (True, c\<lparr>pub := True, assumed := SIdle, started := True\<rparr>))"

definition commander_stop :: "record_commander \<Rightarrow> record_commander" where
  "commander_stop c = c\<lparr>started := False, pub := False\<rparr>"

definition publish :: "int \<Rightarrow> record_action \<Rightarrow> record_commander \<Rightarrow> record_commander" where
  "publish now_ns action c =
     (if \<not> pub c then c
      else c\<lparr>cmd_seq := cmd_seq c + 1,
             sent := sent c @ [\<lparr>msg_seq = cmd_seq c + 1, msg_stamp_ns = now_ns,
                               msg_action = action_code action\<rparr>]\<rparr>)"

definition on_tap :: "int \<Rightarrow> tap_button \<Rightarrow> tap_kind \<Rightarrow> record_commander \<Rightarrow> record_commander" where
  "on_tap now_ns button kind c =
     (if \<not> started c then c
      else let action = record_decide (assumed c) button kind
           in if action = RNone then c
              else (publish now_ns action c)\<lparr>assumed := record_next_state (assumed c) action\<rparr>)"

fun on_taps :: "(int \<times> tap_button \<times> tap_kind) list \<Rightarrow> record_commander \<Rightarrow> record_commander" where
  "on_taps [] c = c"
| "on_taps ((now, b, k) # taps) c = on_taps taps (on_tap now b k c)"

text \<open>
  The collector's protocol, over wire codes and without the mirror: an episode opens with a
  start, only a start is followed by a stop, only a stop by a label, and a start never follows
  a start.
\<close>

definition may_follow :: "8 word \<Rightarrow> 8 word \<Rightarrow> bool" where
  "may_follow a b \<longleftrightarrow>
     (if b = action_code RStart then a \<noteq> action_code RStart
      else if b = action_code RStop then a = action_code RStart
      else b \<in> {action_code RLabelSuccess, action_code RLabelFail, action_code RLabelPartial} \<and>
           a = action_code RStop)"

definition legal_protocol :: "8 word list \<Rightarrow> bool" where
  "legal_protocol cs \<longleftrightarrow> successively may_follow cs \<and>
     (cs \<noteq> [] \<longrightarrow> hd cs = action_code RStart)"

text \<open>The mirror is what the last message implies, and the log is the protocol so far.\<close>

primrec code_state :: "record_action \<Rightarrow> record_state" where
  "code_state RNone = SIdle"
| "code_state RStart = SRecording"
| "code_state RStop = SAwaitingLabel"
| "code_state RLabelSuccess = SIdle"
| "code_state RLabelFail = SIdle"
| "code_state RLabelPartial = SIdle"

definition commander_inv :: "nat \<Rightarrow> record_commander \<Rightarrow> bool" where
  "commander_inv n0 c \<longleftrightarrow> pub c = started c \<and> legal_protocol (map msg_action (sent c)) \<and>
     map msg_seq (sent c) = [Suc n0..<Suc (cmd_seq c)] \<and> n0 \<le> cmd_seq c \<and>
     (\<exists>a. assumed c = code_state a \<and>
          (if sent c = [] then a = RNone
           else a \<noteq> RNone \<and> msg_action (last (sent c)) = action_code a))"

lemma action_code_inj [simp]: "action_code a = action_code b \<longleftrightarrow> a = b"
  by (cases a; cases b) simp_all

lemma legal_snoc:
  assumes "legal_protocol cs"
    and "if cs = [] then c = action_code RStart else may_follow (last cs) c"
  shows "legal_protocol (cs @ [c])"
  using assms by (auto simp: legal_protocol_def successively_append_iff split: if_splits)

lemma decided_may_follow:
  assumes "record_decide (code_state a) b k = x" "x \<noteq> RNone"
  shows "(a = RNone \<longrightarrow> x = RStart) \<and> (a \<noteq> RNone \<longrightarrow> may_follow (action_code a) (action_code x))
    \<and> record_next_state (code_state a) x = code_state x"
  using assms
  by (cases a; cases b; cases k) (auto simp: record_decide_def may_follow_def)

lemma commander_inv_on_tap:
  assumes "commander_inv n0 c"
  shows "commander_inv n0 (on_tap now b k c)"
proof (cases "\<not> started c \<or> record_decide (assumed c) b k = RNone")
  case True
  then show ?thesis using assms by (auto simp: on_tap_def)
next
  case False
  define x where "x = record_decide (assumed c) b k"
  obtain a where a: "assumed c = code_state a"
    "if sent c = [] then a = RNone else a \<noteq> RNone \<and> msg_action (last (sent c)) = action_code a"
    using assms by (auto simp: commander_inv_def)
  have x: "x \<noteq> RNone" and run: "started c" using False by (auto simp: x_def)
  note d = decided_may_follow[of a b k x, OF _ x]
  have leg: "legal_protocol (map msg_action (sent c) @ [action_code x])"
    using assms a d by (intro legal_snoc) (auto simp: commander_inv_def x_def last_map)
  have "on_tap now b k c = (publish now x c)\<lparr>assumed := code_state x\<rparr>"
    using run x d a by (simp add: on_tap_def x_def Let_def)
  then show ?thesis
    using assms run leg x by (auto simp: commander_inv_def publish_def intro!: exI[of _ x])
qed

lemma commander_inv_on_taps: "commander_inv n0 c \<Longrightarrow> commander_inv n0 (on_taps taps c)"
  by (induction taps c rule: on_taps.induct) (simp_all add: commander_inv_on_tap)

text \<open>
  Whatever gestures arrive after the commander has started, the messages it publishes are a
  legal recording session for the collector (each stop follows a start, each label a stop, no
  start follows a start, the first message is a start), numbered consecutively.
\<close>
theorem gestures_publish_legal_protocol:
  assumes "commander_start True c0 = (True, c)" "sent c0 = []"
  shows "legal_protocol (map msg_action (sent (on_taps taps c)))
    \<and> map msg_seq (sent (on_taps taps c)) = [Suc (cmd_seq c0)..<Suc (cmd_seq (on_taps taps c))]"
proof -
  have "commander_inv (cmd_seq c0) c"
    using assms by (auto simp: commander_start_def commander_inv_def legal_protocol_def
        intro!: exI[of _ RNone])
  from commander_inv_on_taps[OF this, of taps] show ?thesis by (simp add: commander_inv_def)
qed

lemma gestures_publish_legal_protocol_witness:
  "let taps = [(0, ButtonB, Double), (1, ButtonB, Single), (2, ButtonB, Single),
       (3, ButtonB, Double), (4, ButtonA, Triple), (5, ButtonA, Single), (6, ButtonB, Single)];
       c = on_taps taps (snd (commander_start True commander_init))
   in legal_protocol (map msg_action (sent c)) \<and> map msg_action (sent c) = [1, 2, 5, 1]
      \<and> map msg_seq (sent c) = [1, 2, 3, 4]"
  using gestures_publish_legal_protocol[of commander_init
      "snd (commander_start True commander_init)"
      "[(0, ButtonB, Double), (1, ButtonB, Single), (2, ButtonB, Single),
       (3, ButtonB, Double), (4, ButtonA, Triple), (5, ButtonA, Single), (6, ButtonB, Single)]"]
  by (simp add: commander_start_def commander_init_def on_tap_def record_decide_def publish_def)

end
