(* ===== verification/Receivers.thy ===== *)
theory Receivers
  imports Channels
begin

text \<open>
  The two DDS intakes that guard the process against garbage: the navigation velocity
  (\<open>src/motion/nav_cmd_receiver.cpp\<close>) and the VLA latent-action stream
  (\<open>src/vla/vla_token_receiver.cpp\<close>). A wire float may be infinite or not a number here;
  what reaches the buffers is a real.
\<close>

section \<open>Wire floats\<close>

datatype wire_float = Fin real | PosInf | NegInf | NaN

fun is_finite :: "wire_float \<Rightarrow> bool" where
  "is_finite (Fin x) = True"
| "is_finite PosInf = False"
| "is_finite NegInf = False"
| "is_finite NaN = False"

fun the_fin :: "wire_float \<Rightarrow> real" where
  "the_fin (Fin x) = x"
| "the_fin PosInf = 0"
| "the_fin NegInf = 0"
| "the_fin NaN = 0"

lemma is_finite_iff: "is_finite f \<longleftrightarrow> (\<exists>x. f = Fin x)"
  by (cases f) auto

definition all_finite :: "wire_float list \<Rightarrow> bool" where
  "all_finite v \<longleftrightarrow> list_all is_finite v"

lemma all_finite_iff: "all_finite v \<longleftrightarrow> (\<exists>xs. v = map Fin xs)"
  unfolding all_finite_def
  by (induction v) (auto simp: is_finite_iff Cons_eq_map_conv)

lemma map_the_fin [simp]: "map the_fin (map Fin xs) = xs"
  by (induction xs) simp_all

section \<open>NavCmdReceiver\<close>

record nav_command =
  nav_vx :: real
  nav_vy :: real
  nav_vyaw :: real

record twist_msg =
  linear_x :: wire_float
  linear_y :: wire_float
  angular_z :: wire_float

record nav_receiver =
  nav_buf :: "nav_command data_buffer"
  nav_received :: nat
  nav_rejected :: nat

definition on_cmd :: "time \<Rightarrow> twist_msg \<Rightarrow> nav_receiver \<Rightarrow> nav_receiver" where
  "on_cmd now msg r =
     (if \<not> is_finite (linear_x msg) \<or> \<not> is_finite (linear_y msg) \<or> \<not> is_finite (angular_z msg)
      then r\<lparr>nav_rejected := nav_rejected r + 1\<rparr>
      else r\<lparr>nav_buf := set_data now \<lparr>nav_vx = the_fin (linear_x msg),
               nav_vy = the_fin (linear_y msg), nav_vyaw = the_fin (angular_z msg)\<rparr> (nav_buf r),
             nav_received := nav_received r + 1\<rparr>)"

section \<open>VlaTokenReceiver\<close>

record vla_latent_action =
  la_token :: "real list"
  la_left_hand :: "real list"
  la_right_hand :: "real list"
  la_frame_index :: int
  la_stamp_ns :: int
  la_seq :: nat

record latent_msg =
  lm_token_state :: "wire_float list"
  lm_left_hand_joints :: "wire_float list"
  lm_right_hand_joints :: "wire_float list"
  lm_frame_index :: int
  lm_stamp_ns :: int
  lm_seq :: nat

record vla_receiver =
  latent_buf :: "vla_latent_action data_buffer"
  latent_received :: nat
  latent_rejected :: nat

definition on_latent_action :: "time \<Rightarrow> latent_msg \<Rightarrow> vla_receiver \<Rightarrow> vla_receiver" where
  "on_latent_action now msg r =
     (if \<not> all_finite (lm_token_state msg) \<or> \<not> all_finite (lm_left_hand_joints msg) \<or>
         \<not> all_finite (lm_right_hand_joints msg)
      then r\<lparr>latent_rejected := latent_rejected r + 1\<rparr>
      else r\<lparr>latent_buf := set_data now
               \<lparr>la_token = map the_fin (lm_token_state msg),
                la_left_hand = map the_fin (lm_left_hand_joints msg),
                la_right_hand = map the_fin (lm_right_hand_joints msg),
                la_frame_index = lm_frame_index msg, la_stamp_ns = lm_stamp_ns msg,
                la_seq = lm_seq msg\<rparr> (latent_buf r),
             latent_received := latent_received r + 1\<rparr>)"

section \<open>Intakes in general\<close>

text \<open>
  Both are validating intakes: a sample is either counted as rejected and nothing else, or
  counted as received and published under its receive time.
\<close>

locale intake =
  fixes valid :: "'m \<Rightarrow> bool"
    and decode :: "'m \<Rightarrow> 'a"
    and buf :: "'s \<Rightarrow> 'a data_buffer"
    and received :: "'s \<Rightarrow> nat"
    and rejected :: "'s \<Rightarrow> nat"
    and recv :: "time \<Rightarrow> 'm \<Rightarrow> 's \<Rightarrow> 's"
  assumes recv_valid: "valid m \<Longrightarrow> buf (recv now m s) = set_data now (decode m) (buf s)
      \<and> received (recv now m s) = received s + 1 \<and> rejected (recv now m s) = rejected s"
    and recv_invalid: "\<not> valid m \<Longrightarrow> buf (recv now m s) = buf s
      \<and> received (recv now m s) = received s \<and> rejected (recv now m s) = rejected s + 1"
begin

abbreviation recvs :: "(time \<times> 'm) list \<Rightarrow> 's \<Rightarrow> 's" where
  "recvs \<equiv> fold (\<lambda>(t, m). recv t m)"

abbreviation accepted :: "(time \<times> 'm) list \<Rightarrow> (time \<times> 'm) list" where
  "accepted \<equiv> filter (\<lambda>m. valid (snd m))"

lemma counters:
  "received (recvs ms s) = received s + length (accepted ms)
   \<and> rejected (recvs ms s) = rejected s + (length ms - length (accepted ms))"
proof (induction ms rule: rev_induct)
  case (snoc m ms)
  have "length (accepted ms) \<le> length ms" by simp
  with snoc show ?case
    using recv_valid[of "snd m" "fst m"] recv_invalid[of "snd m" "fst m"]
    by (auto simp: split_beta Suc_diff_le)
qed simp

lemma newest_valid:
  "get_data_with_time (buf (recvs ms s)) =
     (if accepted ms = [] then get_data_with_time (buf s)
      else \<lparr>ts_data = Some (decode (snd (last (accepted ms)))), ts_time = fst (last (accepted ms))\<rparr>)"
proof (induction ms rule: rev_induct)
  case (snoc m ms)
  then show ?case
    using recv_valid[of "snd m" "fst m"] recv_invalid[of "snd m" "fst m"]
    by (auto simp: split_beta)
qed simp

end

definition nav_valid :: "twist_msg \<Rightarrow> bool" where
  "nav_valid m \<longleftrightarrow> is_finite (linear_x m) \<and> is_finite (linear_y m) \<and> is_finite (angular_z m)"

definition nav_decode :: "twist_msg \<Rightarrow> nav_command" where
  "nav_decode m = \<lparr>nav_vx = the_fin (linear_x m), nav_vy = the_fin (linear_y m),
                   nav_vyaw = the_fin (angular_z m)\<rparr>"

interpretation nav: intake nav_valid nav_decode nav_buf nav_received nav_rejected on_cmd
  by unfold_locales (auto simp: nav_valid_def nav_decode_def on_cmd_def)

definition latent_valid :: "latent_msg \<Rightarrow> bool" where
  "latent_valid m \<longleftrightarrow> all_finite (lm_token_state m) \<and> all_finite (lm_left_hand_joints m) \<and>
     all_finite (lm_right_hand_joints m)"

definition latent_decode :: "latent_msg \<Rightarrow> vla_latent_action" where
  "latent_decode m = \<lparr>la_token = map the_fin (lm_token_state m),
     la_left_hand = map the_fin (lm_left_hand_joints m),
     la_right_hand = map the_fin (lm_right_hand_joints m),
     la_frame_index = lm_frame_index m, la_stamp_ns = lm_stamp_ns m, la_seq = lm_seq m\<rparr>"

interpretation vla: intake latent_valid latent_decode latent_buf latent_received latent_rejected
    on_latent_action
  by unfold_locales (auto simp: latent_valid_def latent_decode_def on_latent_action_def)

text \<open>The messages of a delivery that carry only finite floats, as the reals they carry.\<close>

fun nav_finite :: "(time \<times> twist_msg) list \<Rightarrow> (time \<times> nav_command) list" where
  "nav_finite [] = []"
| "nav_finite ((t, m) # ms) =
     (case (linear_x m, linear_y m, angular_z m) of
        (Fin x, Fin y, Fin w) \<Rightarrow> (t, \<lparr>nav_vx = x, nav_vy = y, nav_vyaw = w\<rparr>) # nav_finite ms
      | _ \<Rightarrow> nav_finite ms)"

lemma nav_finite_accepted: "nav_finite ms = map (map_prod id nav_decode) (nav.accepted ms)"
proof (induction ms rule: nav_finite.induct)
  case (2 t m ms)
  then show ?case
    by (cases "linear_x m"; cases "linear_y m"; cases "angular_z m")
      (simp_all add: nav_valid_def nav_decode_def)
qed simp

text \<open>
  The navigation buffer always holds the newest command made of finite floats, with its
  receive time: a command with a NaN or an infinity in any component changes nothing but the
  rejection counter, and every message is counted exactly once.
\<close>
theorem nav_buffer_holds_newest_finite:
  "get_data_with_time (nav_buf (fold (\<lambda>(t, m). on_cmd t m) ms r)) =
     (if nav_finite ms = [] then get_data_with_time (nav_buf r)
      else \<lparr>ts_data = Some (snd (last (nav_finite ms))), ts_time = fst (last (nav_finite ms))\<rparr>)
   \<and> nav_received (fold (\<lambda>(t, m). on_cmd t m) ms r) = nav_received r + length (nav_finite ms)
   \<and> nav_rejected (fold (\<lambda>(t, m). on_cmd t m) ms r) = nav_rejected r + (length ms - length (nav_finite ms))"
  using nav.newest_valid[of ms r] nav.counters[of ms r]
  by (simp add: nav_finite_accepted last_map)

text \<open>
  Whatever was published by the VLA receiver since its buffer was last cleared is one
  delivered sample, its token and both hand vectors unchanged and free of NaN and infinity, and
  it is the newest such sample.
\<close>
theorem vla_buffer_holds_newest_finite:
  assumes "get_data (latent_buf r) = None"
    and "get_data_with_time (latent_buf (fold (\<lambda>(t, m). on_latent_action t m) ms r)) = \<lparr>ts_data = Some a, ts_time = t\<rparr>"
  shows "\<exists>pre m post. ms = pre @ (t, m) # post
    \<and> lm_token_state m = map Fin (la_token a) \<and> lm_left_hand_joints m = map Fin (la_left_hand a)
    \<and> lm_right_hand_joints m = map Fin (la_right_hand a) \<and> lm_seq m = la_seq a
    \<and> (\<forall>(t', m') \<in> set post. \<not> (all_finite (lm_token_state m') \<and>
          all_finite (lm_left_hand_joints m') \<and> all_finite (lm_right_hand_joints m')))"
proof -
  have ne: "vla.accepted ms \<noteq> []"
    using assms vla.newest_valid[of ms r] ts_data_get[of "latent_buf r"] by fastforce
  have "\<exists>x \<in> set ms. latent_valid (snd x)"
    using ne by (auto simp: filter_empty_conv)
  then obtain pre x post where ms: "ms = pre @ x # post" and x: "latent_valid (snd x)"
    and post: "\<forall>y \<in> set post. \<not> latent_valid (snd y)"
    using split_list_last_prop[of ms "\<lambda>x. latent_valid (snd x)"] by blast
  have "last (vla.accepted ms) = x"
    using x post by (simp add: ms filter_empty_conv)
  then have a: "a = latent_decode (snd x)" "t = fst x"
    using assms(2) vla.newest_valid[of ms r] ne by simp_all
  have "lm_token_state (snd x) = map Fin (la_token a)"
    "lm_left_hand_joints (snd x) = map Fin (la_left_hand a)"
    "lm_right_hand_joints (snd x) = map Fin (la_right_hand a)" "lm_seq (snd x) = la_seq a"
    using x unfolding latent_valid_def all_finite_iff a latent_decode_def
    by (auto simp del: map_map)
  with ms post a show ?thesis
    by (intro exI[of _ pre] exI[of _ "snd x"] exI[of _ post])
      (auto simp: latent_valid_def)
qed

definition sample_latent :: "wire_float list \<Rightarrow> latent_msg" where
  "sample_latent hand = \<lparr>lm_token_state = [Fin 1, Fin 2], lm_left_hand_joints = hand,
     lm_right_hand_joints = [Fin 4], lm_frame_index = 7, lm_stamp_ns = 9, lm_seq = 5\<rparr>"

lemma vla_buffer_holds_newest_finite_witness:
  "\<exists>pre m post. [(10 :: time, sample_latent [Fin 3]), (20, sample_latent [NaN])] = pre @ (10, m) # post
    \<and> lm_token_state m = map Fin [1, 2] \<and> lm_left_hand_joints m = map Fin [3]
    \<and> lm_right_hand_joints m = map Fin [4] \<and> lm_seq m = 5
    \<and> (\<forall>(t', m') \<in> set post. \<not> (all_finite (lm_token_state m') \<and>
          all_finite (lm_left_hand_joints m') \<and> all_finite (lm_right_hand_joints m')))"
  by (rule vla_buffer_holds_newest_finite[of
      "\<lparr>latent_buf = buf_empty, latent_received = 0, latent_rejected = 0\<rparr>"
      "[(10, sample_latent [Fin 3]), (20, sample_latent [NaN])]"
      "\<lparr>la_token = [1, 2], la_left_hand = [3], la_right_hand = [4], la_frame_index = 7,
        la_stamp_ns = 9, la_seq = 5\<rparr>" 10, simplified vla_latent_action.simps])
    (simp_all add: sample_latent_def on_latent_action_def all_finite_def get_data_def
      buf_empty_def get_data_with_time_def set_data_def)

end
