(* ===== verification/Input_Handler.thy ===== *)
theory Input_Handler
  imports Arbiter Record_Control Receivers
begin

text \<open>
  The operator input loop (\<open>include/motion/input_handler.hpp\<close>,
  \<open>src/motion/input_handler.cpp\<close>, \<open>include/motion/movement_state.hpp\<close>): the hold
  triggers, the latched emergency stop, the selection of a locomotion mode, the recording taps,
  the crouch height, the facing angle and the arbitration between the stick and the navigation
  command.
\<close>

section \<open>Locomotion modes\<close>

datatype locomotion_mode =
    IDLE | SLOW_WALK | WALK | RUN | IDEL_SQUAT | IDEL_KNEEL_TWO_LEGS | IDEL_KNEEL
  | IDEL_LYING_FACE_DOWN | CRAWLING | IDEL_BOXING | WALK_BOXING | LEFT_PUNCH | RIGHT_PUNCH
  | RANDOM_PUNCH | ELBOW_CRAWLING | LEFT_HOOK | RIGHT_HOOK | FORWARD_JUMP | STEALTH_WALK
  | INJURED_WALK | LEDGE_WALKING | OBJECT_CARRYING | STEALTH_WALK_2 | HAPPY_DANCE_WALK
  | ZOMBIE_WALK | GUN_WALK | SCARE_WALK

primrec loc_code :: "locomotion_mode \<Rightarrow> int" where
  "loc_code IDLE = 0"
| "loc_code SLOW_WALK = 1"
| "loc_code WALK = 2"
| "loc_code RUN = 3"
| "loc_code IDEL_SQUAT = 4"
| "loc_code IDEL_KNEEL_TWO_LEGS = 5"
| "loc_code IDEL_KNEEL = 6"
| "loc_code IDEL_LYING_FACE_DOWN = 7"
| "loc_code CRAWLING = 8"
| "loc_code IDEL_BOXING = 9"
| "loc_code WALK_BOXING = 10"
| "loc_code LEFT_PUNCH = 11"
| "loc_code RIGHT_PUNCH = 12"
| "loc_code RANDOM_PUNCH = 13"
| "loc_code ELBOW_CRAWLING = 14"
| "loc_code LEFT_HOOK = 15"
| "loc_code RIGHT_HOOK = 16"
| "loc_code FORWARD_JUMP = 17"
| "loc_code STEALTH_WALK = 18"
| "loc_code INJURED_WALK = 19"
| "loc_code LEDGE_WALKING = 20"
| "loc_code OBJECT_CARRYING = 21"
| "loc_code STEALTH_WALK_2 = 22"
| "loc_code HAPPY_DANCE_WALK = 23"
| "loc_code ZOMBIE_WALK = 24"
| "loc_code GUN_WALK = 25"
| "loc_code SCARE_WALK = 26"

lemma loc_code_inj: "loc_code a = loc_code b \<Longrightarrow> a = b"
  by (cases a; simp; cases b; simp)

lemma loc_code_range: "0 \<le> loc_code m \<and> loc_code m \<le> 26"
  by (cases m) simp_all

text \<open>The order of the modes is the one the mode navigation walks.\<close>

instantiation locomotion_mode :: linorder
begin

definition less_eq_locomotion_mode :: "locomotion_mode \<Rightarrow> locomotion_mode \<Rightarrow> bool" where
  "less_eq_locomotion_mode a b \<longleftrightarrow> loc_code a \<le> loc_code b"

definition less_locomotion_mode :: "locomotion_mode \<Rightarrow> locomotion_mode \<Rightarrow> bool" where
  "less_locomotion_mode a b \<longleftrightarrow> loc_code a < loc_code b"

instance
  by standard
    (auto simp: less_eq_locomotion_mode_def less_locomotion_mode_def intro: loc_code_inj)

end

text \<open>Modes travel as \<open>int\<close>; the static ones hold a pose in place.\<close>

definition is_static_motion_mode :: "int \<Rightarrow> bool" where
  "is_static_motion_mode mode \<longleftrightarrow>
     mode = loc_code IDLE \<or> mode = loc_code IDEL_SQUAT \<or> mode = loc_code IDEL_KNEEL_TWO_LEGS \<or>
     mode = loc_code IDEL_KNEEL \<or> mode = loc_code IDEL_LYING_FACE_DOWN \<or>
     mode = loc_code IDEL_BOXING"

record movement_state =
  locomotion_mode :: int
  movement_direction :: vec3
  facing_direction :: vec3
  movement_speed :: real
  movement_height :: real

definition movement_default :: movement_state where
  "movement_default = \<lparr>locomotion_mode = 0, movement_direction = (0, 0, 0),
     facing_direction = (1, 0, 0), movement_speed = -1, movement_height = -1\<rparr>"

section \<open>Constants and state\<close>

definition kBasicModeMax :: int where "kBasicModeMax = loc_code WALK"
definition kFullModeMax :: int where "kFullModeMax = loc_code INJURED_WALK"
definition kTriggerHeld :: real where "kTriggerHeld = 0.5"
definition kCrouchFirst :: int where "kCrouchFirst = loc_code IDEL_SQUAT"
definition kCrouchLast :: int where "kCrouchLast = loc_code IDEL_KNEEL"
definition kHeightSeed :: real where "kHeightSeed = 0.8"
definition kEstopHoldTicks :: nat where "kEstopHoldTicks = 500"
definition kSingleHoldTicks :: nat where "kSingleHoldTicks = 15"
definition kHardHoldTicks :: nat where "kHardHoldTicks = 500"
definition kDeadZone :: real where "kDeadZone = 0.15"
definition kFacingRate :: real where "kFacingRate = 1.5"
definition kLoopDt :: real where "kLoopDt = 0.002"
definition kNavStaleMs :: real where "kNavStaleMs = 300"
definition kNavStopSpeed :: real where "kNavStopSpeed = 0.05"
definition kNavSlowMax :: real where "kNavSlowMax = 0.6"

lemmas hold_consts = kEstopHoldTicks_def kSingleHoldTicks_def kHardHoldTicks_def
lemmas mode_consts = kBasicModeMax_def kFullModeMax_def kCrouchFirst_def kCrouchLast_def
lemmas nav_consts = kNavStaleMs_def kNavStopSpeed_def kNavSlowMax_def

text \<open>A sample of the VR controllers.\<close>

record pico_controller =
  left_axis :: "real \<times> real"
  right_axis :: "real \<times> real"
  btn_a :: bool
  btn_b :: bool
  btn_x :: bool
  btn_y :: bool
  left_trigger :: real
  right_trigger :: real
  left_grip :: real
  right_grip :: real

definition pico_neutral :: pico_controller where
  "pico_neutral = \<lparr>left_axis = (0, 0), right_axis = (0, 0), btn_a = False, btn_b = False,
     btn_x = False, btn_y = False, left_trigger = 0, right_trigger = 0, left_grip = 0,
     right_grip = 0\<rparr>"

record hold_trigger =
  ht_ticks :: nat
  ht_fired :: bool

definition hold_init :: hold_trigger where
  "hold_init = \<lparr>ht_ticks = 0, ht_fired = False\<rparr>"

definition hold_tick :: "bool \<Rightarrow> nat \<Rightarrow> hold_trigger \<Rightarrow> bool \<times> hold_trigger" where
  "hold_tick active_alone threshold h =
     (if \<not> active_alone then (False, h\<lparr>ht_ticks := 0, ht_fired := False\<rparr>)
      else if ht_fired h then (False, h)
      else let t = ht_ticks h + 1
           in if t \<ge> threshold then (True, h\<lparr>ht_ticks := t, ht_fired := True\<rparr>)
              else (False, h\<lparr>ht_ticks := t\<rparr>))"

record input_handler =
  facing_angle :: real
  ih_height :: real
  mode_index :: int
  a_press :: hold_trigger
  x_press :: hold_trigger
  y_press :: hold_trigger
  y_hold :: hold_trigger
  a_tap :: tap_detector
  b_tap :: tap_detector
  estop_hold_ticks :: nat
  estop :: bool

definition input_init :: input_handler where
  "input_init = \<lparr>facing_angle = 0, ih_height = -1, mode_index = 0, a_press = hold_init,
     x_press = hold_init, y_press = hold_init, y_hold = hold_init, a_tap = tap_reset,
     b_tap = tap_reset, estop_hold_ticks = 0, estop = False\<rparr>"

definition disarm :: "input_handler \<Rightarrow> input_handler" where
  "disarm h = h\<lparr>mode_index := 0\<rparr>"

section \<open>One tick of the loop\<close>

definition n_face :: "pico_controller \<Rightarrow> nat" where
  "n_face c = of_bool (btn_a c) + of_bool (btn_b c) + of_bool (btn_x c) + of_bool (btn_y c)"

definition combo :: "pico_controller \<Rightarrow> bool" where
  "combo c \<longleftrightarrow> n_face c \<ge> 2"

definition trigger_held :: "pico_controller \<Rightarrow> bool" where
  "trigger_held c \<longleftrightarrow> left_trigger c > kTriggerHeld \<or> right_trigger c > kTriggerHeld"

definition a_alone :: "pico_controller \<Rightarrow> bool" where
  "a_alone c \<longleftrightarrow> btn_a c \<and> \<not> combo c \<and> \<not> trigger_held c"

definition y_alone :: "pico_controller \<Rightarrow> bool" where
  "y_alone c \<longleftrightarrow> btn_y c \<and> \<not> combo c"

definition x_alone :: "pico_controller \<Rightarrow> bool" where
  "x_alone c \<longleftrightarrow> btn_x c \<and> \<not> combo c"

definition estop_step :: "pico_controller \<Rightarrow> input_handler \<Rightarrow> input_handler" where
  "estop_step c h =
     (if n_face c = 4 then
        let t = estop_hold_ticks h + 1
        in h\<lparr>estop_hold_ticks := t, estop := estop h \<or> t \<ge> kEstopHoldTicks\<rparr>
      else h\<lparr>estop_hold_ticks := 0\<rparr>)"

definition a_step :: "pico_controller \<Rightarrow> input_handler \<Rightarrow> input_handler" where
  "a_step c h =
     (case hold_tick (a_alone c) kSingleHoldTicks (a_press h) of (fire, ht) \<Rightarrow>
        h\<lparr>a_press := ht, mode_index := (if fire then loc_code IDLE else mode_index h)\<rparr>)"

definition tap_kind_of :: "tap_event \<Rightarrow> tap_kind list" where
  "tap_kind_of e = (case e of TapNone \<Rightarrow> [] | TapSingle \<Rightarrow> [Single] | TapDouble \<Rightarrow> [Double]
                      | TapTriple \<Rightarrow> [Triple])"

definition tap_step ::
  "pico_controller \<Rightarrow> input_handler \<Rightarrow> (tap_button \<times> tap_kind) list \<times> input_handler" where
  "tap_step c h =
     (let other_a = btn_b c \<or> btn_x c \<or> btn_y c;
          other_b = btn_a c \<or> btn_x c \<or> btn_y c
      in case tap_update (btn_a c) other_a kLoopDt (a_tap h) of (ea, ta) \<Rightarrow>
         case tap_update (btn_b c) other_b kLoopDt (b_tap h) of (eb, tb) \<Rightarrow>
           (map (Pair ButtonA) (tap_kind_of ea) @ map (Pair ButtonB) (tap_kind_of eb),
            h\<lparr>a_tap := ta, b_tap := tb\<rparr>))"

definition yx_step :: "pico_controller \<Rightarrow> input_handler \<Rightarrow> input_handler" where
  "yx_step c h =
     (case hold_tick (y_alone c) kSingleHoldTicks (y_press h) of (fy, yp) \<Rightarrow>
      let m1 = (if fy \<and> mode_index h < kBasicModeMax then mode_index h + 1 else mode_index h)
      in case hold_tick (y_alone c) kHardHoldTicks (y_hold h) of (fh, yh) \<Rightarrow>
      let m2 = (if fh \<and> m1 < kFullModeMax then m1 + 1 else m1)
      in case hold_tick (x_alone c) kSingleHoldTicks (x_press h) of (fx, xp) \<Rightarrow>
      let m3 = (if fx \<and> m2 > 0 then m2 - 1 else m2)
      in h\<lparr>y_press := yp, y_hold := yh, x_press := xp, mode_index := m3\<rparr>)"

definition height_step :: "input_handler \<Rightarrow> input_handler" where
  "height_step h =
     (if mode_index h \<ge> kCrouchFirst \<and> mode_index h \<le> kCrouchLast then
        (if ih_height h < 0 then h\<lparr>ih_height := kHeightSeed\<rparr> else h)
      else h\<lparr>ih_height := -1\<rparr>)"

definition facing_step :: "pico_controller \<Rightarrow> input_handler \<Rightarrow> input_handler" where
  "facing_step c h =
     (let rx = fst (right_axis c)
      in if \<bar>rx\<bar> > kDeadZone then h\<lparr>facing_angle := facing_angle h - kFacingRate * rx * kLoopDt\<rparr>
         else h)"

definition facing_of :: "real \<Rightarrow> vec3" where
  "facing_of a = (cos a, sin a, 0)"

text \<open>A vector of the facing frame (left, forward) in the world.\<close>

definition face_rotate :: "vec3 \<Rightarrow> real \<Rightarrow> real \<Rightarrow> vec3" where
  "face_rotate face l f =
     (case face of (fx, fy, _) \<Rightarrow> (- fy * l + fx * f, fx * l + fy * f, 0))"

definition hypot :: "real \<Rightarrow> real \<Rightarrow> real" where
  "hypot x y = sqrt (x\<^sup>2 + y\<^sup>2)"

definition nav_drives :: "arb_mode \<Rightarrow> nav_command timestamped \<Rightarrow> time \<Rightarrow> bool" where
  "nav_drives am nav now \<longleftrightarrow> am = KNormal \<and> has_data nav \<and> get_age_ms now nav < kNavStaleMs"

text \<open>The stick in its dead zone: a fresh navigation command of the origin mode, else IDLE.\<close>

definition neutral_movement ::
  "arb_mode \<Rightarrow> nav_command timestamped \<Rightarrow> time \<Rightarrow> input_handler \<Rightarrow> movement_state \<times> input_handler" where
  "neutral_movement am nav now h =
     (let idle = \<lparr>locomotion_mode = loc_code IDLE, movement_direction = (0, 0, 0),
            facing_direction = facing_of (facing_angle h), movement_speed = -1,
            movement_height = ih_height h\<rparr>
      in case (if nav_drives am nav now then ts_data nav else None) of
           None \<Rightarrow> (idle, h)
         | Some n \<Rightarrow>
             (let v = hypot (nav_vx n) (nav_vy n);
                  fa = facing_angle h + nav_vyaw n * kLoopDt;
                  h' = h\<lparr>facing_angle := fa\<rparr>;
                  face = facing_of fa;
                  still = idle\<lparr>facing_direction := face, movement_height := -1\<rparr>
              in if v \<ge> kNavStopSpeed then
                   let slow = (v \<le> kNavSlowMax)
                   in (still\<lparr>locomotion_mode := (if slow then loc_code SLOW_WALK else loc_code WALK),
                             movement_speed := (if slow then max v 0.1 else -1),
                             movement_direction := face_rotate face (nav_vy n / v) (nav_vx n / v)\<rparr>,
                       h')
                 else (still, h')))"

definition stick_speed :: "int \<Rightarrow> real \<Rightarrow> real" where
  "stick_speed mode mag =
     (if mode = loc_code SLOW_WALK then 0.1 + 0.5 * mag
      else if mode = loc_code WALK then -1
      else if mode = loc_code RUN then 1.5 + 3.0 * mag
      else mag)"

definition stick_mag :: "real \<Rightarrow> real" where
  "stick_mag raw_mag = min ((raw_mag - kDeadZone) / (1 - kDeadZone)) 1"

definition stick_movement :: "real \<Rightarrow> real \<Rightarrow> input_handler \<Rightarrow> movement_state" where
  "stick_movement lx ly h =
     (let raw_mag = hypot lx ly;
          mag = stick_mag raw_mag;
          face = facing_of (facing_angle h);
          scale = mag / raw_mag
      in \<lparr>locomotion_mode = mode_index h,
          movement_direction = face_rotate face (- lx * scale) (ly * scale),
          facing_direction = face,
          movement_speed = stick_speed (mode_index h) mag,
          movement_height = ih_height h\<rparr>)"

definition build_movement ::
  "pico_controller \<Rightarrow> arb_mode \<Rightarrow> nav_command timestamped \<Rightarrow> time \<Rightarrow> input_handler \<Rightarrow>
   movement_state \<times> input_handler" where
  "build_movement c am nav now h =
     (case left_axis c of (lx, ly) \<Rightarrow>
        if hypot lx ly < kDeadZone then neutral_movement am nav now h
        else (stick_movement lx ly h, h))"

text \<open>What one tick reads, and the tick: the movement it publishes, the taps it emits.\<close>

record tick_in =
  in_ctrl :: "pico_controller option"
  in_mode :: arb_mode
  in_nav :: "nav_command timestamped"
  in_now :: time

definition input_tick ::
  "tick_in \<Rightarrow> input_handler \<Rightarrow>
   (movement_state \<times> (tap_button \<times> tap_kind) list) \<times> input_handler" where
  "input_tick i h =
     (case in_ctrl i of
        Some c \<Rightarrow>
          (let h1 = a_step c (estop_step c h)
           in case tap_step c h1 of (taps, h2) \<Rightarrow>
              let h3 = facing_step c (height_step (yx_step c h2))
              in case build_movement c (in_mode i) (in_nav i) (in_now i) h3 of (mv, h4) \<Rightarrow>
                   ((mv, taps), h4))
      | None \<Rightarrow>
          ((\<lparr>locomotion_mode = loc_code IDLE, movement_direction = (0, 0, 0),
             facing_direction = facing_of (facing_angle h), movement_speed = -1,
             movement_height = -1\<rparr>, []),
           h\<lparr>a_tap := tap_reset, b_tap := tap_reset\<rparr>))"

text \<open>
  What happens to the handler: ticks of its own thread, and \<open>disarm\<close> called by the control
  loop between them.
\<close>

datatype input_event = Tick tick_in | Disarm

fun input_step :: "input_event \<Rightarrow> input_handler \<Rightarrow> input_handler" where
  "input_step (Tick i) h = snd (input_tick i h)"
| "input_step Disarm h = disarm h"

definition input_run :: "input_event list \<Rightarrow> input_handler \<Rightarrow> input_handler" where
  "input_run es h = fold input_step es h"

text \<open>The controller samples among the ticks: a tick without a VR link leaves none.\<close>

fun event_sample :: "input_event \<Rightarrow> pico_controller option" where
  "event_sample (Tick i) = in_ctrl i"
| "event_sample Disarm = None"

definition samples :: "input_event list \<Rightarrow> pico_controller list" where
  "samples es = List.map_filter event_sample es"

lemma input_run_append: "input_run (xs @ ys) h = input_run ys (input_run xs h)"
  by (simp add: input_run_def)

lemma input_run_simps [simp]:
  "input_run [] h = h" "input_run (e # es) h = input_run es (input_step e h)"
  by (simp_all add: input_run_def)

lemma samples_append: "samples (xs @ ys) = samples xs @ samples ys"
  by (simp add: samples_def List.map_filter_def)

lemma samples_simps [simp]:
  "samples [] = []"
  "samples (e # es) = (case event_sample e of None \<Rightarrow> [] | Some c \<Rightarrow> [c]) @ samples es"
  by (simp_all add: samples_def List.map_filter_def split: option.split)

section \<open>Hold triggers count runs\<close>

text \<open>A hold trigger counts the run it is in and has fired exactly once that run is long enough.\<close>

definition hold_counts :: "nat \<Rightarrow> ('a \<Rightarrow> bool) \<Rightarrow> 'a list \<Rightarrow> hold_trigger \<Rightarrow> bool" where
  "hold_counts n P xs h \<longleftrightarrow> (ht_fired h \<longleftrightarrow> n \<le> tail_run P xs) \<and>
     (\<not> ht_fired h \<longrightarrow> ht_ticks h = tail_run P xs)"

lemma hold_counts_init [simp]: "0 < n \<Longrightarrow> hold_counts n P [] hold_init"
  by (simp add: hold_counts_def hold_init_def)

lemma hold_tick_counts:
  assumes "hold_counts n P xs h" "0 < n"
  shows "fst (hold_tick (P x) n h) \<longleftrightarrow> tail_run P (xs @ [x]) = n"
    and "hold_counts n P (xs @ [x]) (snd (hold_tick (P x) n h))"
  using assms by (auto simp: hold_counts_def hold_tick_def Let_def)

section \<open>The buttons: emergency stop and mode selection\<close>

definition all_four :: "pico_controller \<Rightarrow> bool" where
  "all_four c \<longleftrightarrow> btn_a c \<and> btn_b c \<and> btn_x c \<and> btn_y c"

lemma n_face_4: "n_face c = 4 \<longleftrightarrow> all_four c"
  by (auto simp: n_face_def all_four_def)

text \<open>
  The mode after one more sample, as a function of the samples alone: which run of which single
  button has just reached its length.
\<close>

definition next_mode :: "pico_controller list \<Rightarrow> int \<Rightarrow> int" where
  "next_mode xs m =
     (if tail_run a_alone xs = kSingleHoldTicks then 0
      else if tail_run y_alone xs = kSingleHoldTicks \<and> m < kBasicModeMax then m + 1
      else if tail_run y_alone xs = kHardHoldTicks \<and> m < kFullModeMax then m + 1
      else if tail_run x_alone xs = kSingleHoldTicks \<and> 0 < m then m - 1
      else m)"

definition buttons_inv :: "pico_controller list \<Rightarrow> input_handler \<Rightarrow> bool" where
  "buttons_inv xs h \<longleftrightarrow>
     hold_counts kSingleHoldTicks a_alone xs (a_press h) \<and>
     hold_counts kSingleHoldTicks x_alone xs (x_press h) \<and>
     hold_counts kSingleHoldTicks y_alone xs (y_press h) \<and>
     hold_counts kHardHoldTicks y_alone xs (y_hold h) \<and>
     estop_hold_ticks h = tail_run all_four xs \<and>
     (estop h \<longleftrightarrow> sustained kEstopHoldTicks all_four xs)"

lemma buttons_inv_init: "buttons_inv [] input_init"
  by (simp add: buttons_inv_def input_init_def hold_consts sustained_Nil)

lemma alone_exclusive:
  "a_alone c \<Longrightarrow> \<not> y_alone c" "a_alone c \<Longrightarrow> \<not> x_alone c" "y_alone c \<Longrightarrow> \<not> x_alone c"
  by (auto simp: a_alone_def y_alone_def x_alone_def combo_def n_face_def split: if_splits)

lemma facing_step_keeps [simp]:
  "mode_index (facing_step c h) = mode_index h" "ih_height (facing_step c h) = ih_height h"
  "buttons_inv xs (facing_step c h) = buttons_inv xs h"
  by (simp_all add: facing_step_def Let_def buttons_inv_def)

lemma height_step_keeps [simp]:
  "mode_index (height_step h) = mode_index h"
  "buttons_inv xs (height_step h) = buttons_inv xs h"
  by (simp_all add: height_step_def buttons_inv_def)

lemma tap_step_keeps [simp]:
  "mode_index (snd (tap_step c h)) = mode_index h" "ih_height (snd (tap_step c h)) = ih_height h"
  "a_press (snd (tap_step c h)) = a_press h" "x_press (snd (tap_step c h)) = x_press h"
  "y_press (snd (tap_step c h)) = y_press h" "y_hold (snd (tap_step c h)) = y_hold h"
  "estop (snd (tap_step c h)) = estop h"
  "estop_hold_ticks (snd (tap_step c h)) = estop_hold_ticks h"
  by (simp_all add: tap_step_def Let_def split: prod.split)

lemma build_movement_keeps [simp]:
  "mode_index (snd (build_movement c am nav now h)) = mode_index h"
  "ih_height (snd (build_movement c am nav now h)) = ih_height h"
  "buttons_inv xs (snd (build_movement c am nav now h)) = buttons_inv xs h"
  by (simp_all add: build_movement_def neutral_movement_def Let_def buttons_inv_def
      split: prod.split option.split)

text \<open>The handler of a tick with a controller sample before the movement is built.\<close>

definition tick_buttons :: "pico_controller \<Rightarrow> input_handler \<Rightarrow> input_handler" where
  "tick_buttons c h = yx_step c (snd (tap_step c (a_step c (estop_step c h))))"

lemma estop_step_fields:
  "estop_hold_ticks (estop_step c h) = (if all_four c then estop_hold_ticks h + 1 else 0)"
  "estop (estop_step c h) \<longleftrightarrow> estop h \<or> all_four c \<and> kEstopHoldTicks \<le> estop_hold_ticks h + 1"
  "mode_index (estop_step c h) = mode_index h" "a_press (estop_step c h) = a_press h"
  "x_press (estop_step c h) = x_press h" "y_press (estop_step c h) = y_press h"
  "y_hold (estop_step c h) = y_hold h"
  by (simp_all add: estop_step_def Let_def n_face_4)

lemma a_step_fields:
  "mode_index (a_step c h) =
     (if fst (hold_tick (a_alone c) kSingleHoldTicks (a_press h)) then 0 else mode_index h)"
  "a_press (a_step c h) = snd (hold_tick (a_alone c) kSingleHoldTicks (a_press h))"
  "x_press (a_step c h) = x_press h" "y_press (a_step c h) = y_press h"
  "y_hold (a_step c h) = y_hold h" "estop (a_step c h) = estop h"
  "estop_hold_ticks (a_step c h) = estop_hold_ticks h"
  by (simp_all add: a_step_def split_beta)

lemma yx_step_fields:
  "mode_index (yx_step c h) =
     (let m1 = (if fst (hold_tick (y_alone c) kSingleHoldTicks (y_press h)) \<and>
                   mode_index h < kBasicModeMax then mode_index h + 1 else mode_index h);
          m2 = (if fst (hold_tick (y_alone c) kHardHoldTicks (y_hold h)) \<and>
                   m1 < kFullModeMax then m1 + 1 else m1)
      in if fst (hold_tick (x_alone c) kSingleHoldTicks (x_press h)) \<and> 0 < m2
         then m2 - 1 else m2)"
  "y_press (yx_step c h) = snd (hold_tick (y_alone c) kSingleHoldTicks (y_press h))"
  "y_hold (yx_step c h) = snd (hold_tick (y_alone c) kHardHoldTicks (y_hold h))"
  "x_press (yx_step c h) = snd (hold_tick (x_alone c) kSingleHoldTicks (x_press h))"
  "a_press (yx_step c h) = a_press h" "estop (yx_step c h) = estop h"
  "estop_hold_ticks (yx_step c h) = estop_hold_ticks h"
  by (simp_all add: yx_step_def split_beta Let_def)

lemmas step_fields = estop_step_fields a_step_fields yx_step_fields

lemma tick_buttons_mode:
  assumes "buttons_inv xs h"
  shows "mode_index (tick_buttons c h) = next_mode (xs @ [c]) (mode_index h)"
proof -
  have pos: "0 < kSingleHoldTicks" "0 < kHardHoldTicks" "kSingleHoldTicks < kHardHoldTicks"
    by (simp_all add: hold_consts)
  note fires = hold_tick_counts(1)[OF _ pos(1)] hold_tick_counts(1)[OF _ pos(2)]
  have ticks: "fst (hold_tick (a_alone c) kSingleHoldTicks (a_press h)) \<longleftrightarrow>
      tail_run a_alone (xs @ [c]) = kSingleHoldTicks"
    "fst (hold_tick (x_alone c) kSingleHoldTicks (x_press h)) \<longleftrightarrow>
      tail_run x_alone (xs @ [c]) = kSingleHoldTicks"
    "fst (hold_tick (y_alone c) kSingleHoldTicks (y_press h)) \<longleftrightarrow>
      tail_run y_alone (xs @ [c]) = kSingleHoldTicks"
    "fst (hold_tick (y_alone c) kHardHoldTicks (y_hold h)) \<longleftrightarrow>
      tail_run y_alone (xs @ [c]) = kHardHoldTicks"
    using assms unfolding buttons_inv_def by (simp_all only: fires)
  have none: "\<not> P c \<Longrightarrow> tail_run P (xs @ [c]) \<noteq> kSingleHoldTicks"
    "\<not> P c \<Longrightarrow> tail_run P (xs @ [c]) \<noteq> kHardHoldTicks" for P
    using pos by simp_all
  consider "a_alone c" "\<not> y_alone c" "\<not> x_alone c" | "\<not> a_alone c" "y_alone c" "\<not> x_alone c"
    | "\<not> a_alone c" "\<not> y_alone c" using alone_exclusive[of c] by blast
  then show ?thesis
    unfolding tick_buttons_def step_fields tap_step_keeps ticks next_mode_def
    by cases (simp_all only: none Let_def if_False simp_thms if_cancel cong: if_cong, use pos in auto)
qed

lemma tick_buttons_inv:
  assumes "buttons_inv xs h"
  shows "buttons_inv (xs @ [c]) (tick_buttons c h)"
proof -
  have pos: "0 < kSingleHoldTicks" "0 < kHardHoldTicks"
    by (simp_all add: hold_consts)
  note counts = hold_tick_counts(2)[OF _ pos(1)] hold_tick_counts(2)[OF _ pos(2)]
  show ?thesis
    using assms unfolding buttons_inv_def tick_buttons_def step_fields tap_step_keeps sustained_snoc
    by (auto simp: counts kEstopHoldTicks_def)
qed

lemma input_tick_Some:
  "in_ctrl i = Some c \<Longrightarrow> snd (input_tick i h) =
     snd (build_movement c (in_mode i) (in_nav i) (in_now i)
           (facing_step c (height_step (tick_buttons c h))))"
  by (simp add: input_tick_def tick_buttons_def Let_def split: prod.split)

lemma input_tick_None:
  "in_ctrl i = None \<Longrightarrow> snd (input_tick i h) = h\<lparr>a_tap := tap_reset, b_tap := tap_reset\<rparr>"
  by (simp add: input_tick_def)

lemma input_step_buttons:
  assumes "buttons_inv xs h"
  shows "buttons_inv (xs @ samples [e]) (input_step e h)"
proof (cases "event_sample e")
  case None
  with assms show ?thesis
    by (cases e) (simp_all add: input_tick_None disarm_def buttons_inv_def)
next
  case (Some c)
  with tick_buttons_inv[OF assms, of c] show ?thesis
    by (cases e) (simp_all add: input_tick_Some)
qed

lemma input_run_buttons: "buttons_inv (samples es) (input_run es input_init)"
proof (induction es rule: rev_induct)
  case Nil
  show ?case by (simp add: buttons_inv_init)
next
  case (snoc e xs)
  from input_step_buttons[OF this, of e] show ?case
    by (simp add: samples_append input_run_append)
qed

text \<open>
  C3: The emergency stop is latched exactly when some 500 consecutive controller samples had
  all four face buttons down (ticks without a VR link leave no sample and do not interrupt the
  count), and once latched it stays latched whatever follows.
\<close>
theorem estop_latched_iff_held:
  "(estop (input_run es input_init) \<longleftrightarrow> sustained 500 all_four (samples es))
   \<and> (estop (input_run es input_init) \<longrightarrow> estop (input_run (es @ rest) input_init))"
proof -
  have iff: "estop (input_run js input_init) \<longleftrightarrow> sustained 500 all_four (samples js)" for js
    using input_run_buttons[of js] by (simp add: buttons_inv_def kEstopHoldTicks_def)
  have "sustained 500 all_four (samples es) \<Longrightarrow> sustained 500 all_four (samples (es @ rest))"
    unfolding sustained_def samples_append by (metis append.assoc)
  with iff show ?thesis by blast
qed

text \<open>The witness: 499 samples do not stop the robot, 250 samples, a lost link, 250 more do.\<close>

definition four_down :: input_event where
  "four_down = Tick \<lparr>in_ctrl = Some (pico_neutral\<lparr>btn_a := True, btn_b := True, btn_x := True,
       btn_y := True\<rparr>), in_mode = KNormal, in_nav = get_data_with_time buf_empty, in_now = 0\<rparr>"

definition link_lost :: input_event where
  "link_lost = Tick \<lparr>in_ctrl = None, in_mode = KNormal, in_nav = get_data_with_time buf_empty,
     in_now = 0\<rparr>"

lemma samples_four_down:
  "samples (replicate n four_down) = replicate n (pico_neutral\<lparr>btn_a := True, btn_b := True,
     btn_x := True, btn_y := True\<rparr>)"
  by (induction n) (simp_all add: four_down_def)

lemma sustained_replicate:
  assumes "P x"
  shows "sustained n P (replicate m x) \<longleftrightarrow> n \<le> m"
proof
  assume "sustained n P (replicate m x)"
  then obtain pre mid post where "replicate m x = pre @ mid @ post" "length mid = n"
    by (auto simp: sustained_def)
  from arg_cong[OF this(1), of length] this(2) show "n \<le> m" by simp
next
  assume "n \<le> m"
  then have "replicate m x = [] @ replicate n x @ replicate (m - n) x"
    by (simp flip: replicate_add)
  with assms show "sustained n P (replicate m x)"
    unfolding sustained_def by (metis length_replicate list_all_iff in_set_replicate)
qed

lemma estop_latched_iff_held_witness:
  "\<not> estop (input_run (replicate 499 four_down) input_init)
   \<and> estop (input_run (replicate 250 four_down @ [link_lost] @ replicate 250 four_down) input_init)"
proof -
  have "samples (replicate 250 four_down @ [link_lost] @ replicate 250 four_down)
      = samples (replicate 500 four_down)"
    by (simp add: samples_append samples_four_down link_lost_def flip: replicate_add)
  then show ?thesis
    using estop_latched_iff_held[of "replicate 499 four_down"]
      estop_latched_iff_held[of "replicate 250 four_down @ [link_lost] @ replicate 250 four_down"]
    by (simp add: samples_four_down sustained_replicate all_four_def)
qed

lemma next_mode_cases:
  assumes "0 \<le> m" "m \<le> 19" "next_mode xs m = m'"
  shows "0 \<le> m' \<and> m' \<le> 19 \<and> m' \<le> m + 1
    \<and> (m < m' \<and> 2 < m' \<longrightarrow> 500 \<le> tail_run y_alone xs)
    \<and> (m < m' \<longrightarrow> 15 \<le> tail_run y_alone xs)
    \<and> (m' < m \<longrightarrow> m' = 0 \<and> 15 \<le> tail_run a_alone xs \<or> m' = m - 1 \<and> 15 \<le> tail_run x_alone xs)"
  using assms by (auto simp: next_mode_def hold_consts mode_consts split: if_splits)

lemma input_step_mode:
  assumes "buttons_inv xs h" "event_sample e = Some c"
  shows "mode_index (input_step e h) = next_mode (xs @ [c]) (mode_index h)"
  using assms tick_buttons_mode[OF assms(1), of c] by (cases e) (simp_all add: input_tick_Some)

lemma input_step_mode_None:
  "event_sample e = None \<Longrightarrow> mode_index (input_step e h) = (if e = Disarm then 0 else mode_index h)"
  by (cases e) (simp_all add: input_tick_None disarm_def)

lemma mode_range: "0 \<le> mode_index (input_run es input_init) \<and> mode_index (input_run es input_init) \<le> 19"
proof (induction es rule: rev_induct)
  case Nil
  show ?case by (simp add: input_init_def)
next
  case (snoc e es)
  show ?case
  proof (cases "event_sample e")
    case None
    with snoc show ?thesis by (simp add: input_run_append input_step_mode_None)
  next
    case (Some c)
    with snoc next_mode_cases[of "mode_index (input_run es input_init)" "samples es @ [c]"]
    show ?thesis by (simp add: input_run_append input_step_mode[OF input_run_buttons])
  qed
qed

lemma combo_not_alone:
  "combo c \<Longrightarrow> \<not> a_alone c \<and> \<not> x_alone c \<and> \<not> y_alone c"
  by (simp add: a_alone_def x_alone_def y_alone_def)

text \<open>
  The selected mode stays between IDLE and the cap, moves by one step at a time except for
  the escape to IDLE, and a step up into a hard mode (RUN and beyond) happens only when the last
  500 samples all held Y alone, any step up only after 15 of them; it goes down only by the A
  escape, a held X or a disarm.
\<close>
theorem hard_modes_need_full_hold:
  defines "m \<equiv> \<lambda>es. mode_index (input_run es input_init)"
  shows "0 \<le> m es \<and> m es \<le> loc_code INJURED_WALK
    \<and> m (es @ [e]) \<le> m es + 1
    \<and> (m es < m (es @ [e]) \<longrightarrow>
        (\<exists>pre mid. samples (es @ [e]) = pre @ mid \<and> list_all y_alone mid \<and>
           length mid = (if loc_code WALK < m (es @ [e]) then 500 else 15)))
    \<and> (m (es @ [e]) < m es \<longrightarrow>
        e = Disarm \<and> m (es @ [e]) = 0
        \<or> m (es @ [e]) = 0 \<and>
            (\<exists>pre mid. samples (es @ [e]) = pre @ mid \<and> list_all a_alone mid \<and> length mid = 15)
        \<or> m (es @ [e]) = m es - 1 \<and>
            (\<exists>pre mid. samples (es @ [e]) = pre @ mid \<and> list_all x_alone mid \<and> length mid = 15))"
proof (cases "event_sample e")
  case None
  then show ?thesis
    using mode_range[of es] by (auto simp: m_def input_run_append input_step_mode_None)
next
  case (Some c)
  have run: "\<And>P. (\<exists>pre mid. samples (es @ [e]) = pre @ mid \<and> list_all P mid \<and> length mid = n)
      \<longleftrightarrow> n \<le> tail_run P (samples es @ [c])" for n
    unfolding tail_run_ge using Some by (auto simp: samples_append)
  have step: "m (es @ [e]) = next_mode (samples es @ [c]) (m es)"
    using Some by (simp add: m_def input_run_append input_step_mode[OF input_run_buttons])
  show ?thesis
    unfolding run using mode_range[of es] next_mode_cases[OF _ _ step[symmetric]]
    by (auto simp: m_def)
qed

text \<open>The witness: fifteen samples of Y alone step up, and the theorem reads off the hold.\<close>

definition y_down :: input_event where
  "y_down = Tick \<lparr>in_ctrl = Some (pico_neutral\<lparr>btn_y := True\<rparr>), in_mode = KNormal,
     in_nav = get_data_with_time buf_empty, in_now = 0\<rparr>"

lemma samples_y_down: "samples (replicate n y_down) = replicate n (pico_neutral\<lparr>btn_y := True\<rparr>)"
  by (induction n) (simp_all add: y_down_def)

lemma tail_run_replicate: "tail_run P (replicate n x) = (if P x then n else 0)"
  by (simp add: tail_run_def)

lemma y_down_snoc:
  "mode_index (input_run (es @ [y_down]) input_init) =
     next_mode (samples (es @ [y_down])) (mode_index (input_run es input_init))"
proof -
  have "event_sample y_down = Some (pico_neutral\<lparr>btn_y := True\<rparr>)"
    by (simp add: y_down_def)
  from input_step_mode[OF input_run_buttons this, of es] show ?thesis
    by (simp add: input_run_append samples_append y_down_def)
qed

lemma y_down_mode:
  "next_mode (samples (replicate n y_down)) m =
     (if n = 15 \<and> m < 2 \<or> n = 500 \<and> m < 19 then m + 1 else m)"
proof -
  have "\<not> a_alone (pico_neutral\<lparr>btn_y := True\<rparr>)" "\<not> x_alone (pico_neutral\<lparr>btn_y := True\<rparr>)"
    "y_alone (pico_neutral\<lparr>btn_y := True\<rparr>)"
    by (simp_all add: a_alone_def x_alone_def y_alone_def combo_def n_face_def pico_neutral_def)
  then show ?thesis
    by (simp add: next_mode_def samples_y_down tail_run_replicate hold_consts mode_consts)
qed

lemma y_down_low: "n < 15 \<Longrightarrow> mode_index (input_run (replicate n y_down) input_init) = 0"
proof (induction n)
  case 0
  show ?case by (simp add: input_init_def)
next
  case (Suc n)
  then show ?case
    using y_down_snoc[of "replicate n y_down"] y_down_mode[of "Suc n" 0]
    by (simp add: replicate_append_same)
qed

lemma hard_modes_need_full_hold_witness:
  "(mode_index (input_run (replicate 14 y_down) input_init) = 0
    \<and> mode_index (input_run (replicate 14 y_down @ [y_down]) input_init) = 1)
   \<and> (\<exists>pre mid. samples (replicate 14 y_down @ [y_down]) = pre @ mid \<and> list_all y_alone mid
        \<and> length mid = 15)"
proof -
  have low: "mode_index (input_run (replicate 14 y_down) input_init) = 0"
    by (rule y_down_low) simp
  moreover have up: "mode_index (input_run (replicate 14 y_down @ [y_down]) input_init) = 1"
    using y_down_snoc[of "replicate 14 y_down"] y_down_mode[of 15 0] low
    by (simp add: replicate_append_same eval_nat_numeral del: replicate_Suc flip: replicate_Suc)
  ultimately show ?thesis
    using hard_modes_need_full_hold[of "replicate 14 y_down" y_down] by (simp add: loc_code_def)
qed

text \<open>
  Buttons pressed together select nothing and record nothing: on a tick with two or more
  face buttons down no tap is emitted and the mode stays, whatever was held before; so the way
  into the emergency stop never changes the mode nor the recording.
\<close>
theorem chords_do_nothing:
  assumes "in_ctrl i = Some c" "combo c"
  shows "mode_index (snd (input_tick i (input_run es input_init))) =
      mode_index (input_run es input_init)
    \<and> snd (fst (input_tick i (input_run es input_init))) = []"
proof (intro conjI)
  let ?h = "input_run es input_init"
  have "mode_index (input_step (Tick i) ?h) = next_mode (samples es @ [c]) (mode_index ?h)"
    using assms(1) by (intro input_step_mode[OF input_run_buttons]) simp
  then show "mode_index (snd (input_tick i ?h)) = mode_index ?h"
    using combo_not_alone[OF assms(2)] by (simp add: next_mode_def hold_consts)
  have others: "btn_b c \<or> btn_x c \<or> btn_y c" "btn_a c \<or> btn_x c \<or> btn_y c"
    using assms(2)
    by (cases "btn_a c"; cases "btn_b c"; cases "btn_x c"; cases "btn_y c";
        simp add: combo_def n_face_def)+
  have void: "fst (tap_update p True dt t) = TapNone" for p dt t
    by (simp add: tap_update_def Let_def)
  have "fst (tap_step c h) = []" for h
    using others void[of "btn_a c" kLoopDt "a_tap h"] void[of "btn_b c" kLoopDt "b_tap h"]
    by (auto simp: tap_step_def tap_kind_of_def Let_def split_beta)
  then show "snd (fst (input_tick i ?h)) = []"
    using assms(1) by (simp add: input_tick_def Let_def split_beta)
qed

lemma chords_do_nothing_witness:
  "mode_index (snd (input_tick
      \<lparr>in_ctrl = Some (pico_neutral\<lparr>btn_a := True, btn_y := True\<rparr>), in_mode = KTeleop,
       in_nav = get_data_with_time buf_empty, in_now = 0\<rparr>
      (input_run [four_down, link_lost] input_init))) = 0"
  using chords_do_nothing[of
      "\<lparr>in_ctrl = Some (pico_neutral\<lparr>btn_a := True, btn_y := True\<rparr>), in_mode = KTeleop,
       in_nav = get_data_with_time buf_empty, in_now = 0\<rparr>"
      "pico_neutral\<lparr>btn_a := True, btn_y := True\<rparr>" "[four_down, link_lost]"]
    chords_do_nothing[of
      "\<lparr>in_ctrl = Some (pico_neutral\<lparr>btn_a := True, btn_b := True, btn_x := True,
         btn_y := True\<rparr>), in_mode = KNormal, in_nav = get_data_with_time buf_empty, in_now = 0\<rparr>"
      "pico_neutral\<lparr>btn_a := True, btn_b := True, btn_x := True, btn_y := True\<rparr>" "[]"]
  by (simp add: combo_def n_face_def pico_neutral_def four_down_def link_lost_def
      input_tick_None input_init_def)

section \<open>The published movement\<close>

definition vnorm :: "vec3 \<Rightarrow> real" where
  "vnorm v = (case v of (x, y, z) \<Rightarrow> sqrt (x\<^sup>2 + y\<^sup>2 + z\<^sup>2))"

definition vdot :: "vec3 \<Rightarrow> vec3 \<Rightarrow> real" where
  "vdot u v = (case u of (a, b, c) \<Rightarrow> case v of (x, y, z) \<Rightarrow> a * x + b * y + c * z)"

lemma facing_unit: "vnorm (facing_of a) = 1"
  by (simp add: facing_of_def vnorm_def)

lemma face_rotate_norm: "vnorm (face_rotate (facing_of a) l f) = hypot l f"
proof -
  have "(- sin a * l + cos a * f)\<^sup>2 + (cos a * l + sin a * f)\<^sup>2 =
      ((sin a)\<^sup>2 + (cos a)\<^sup>2) * (l\<^sup>2 + f\<^sup>2)"
    by algebra
  then show ?thesis by (simp add: face_rotate_def facing_of_def vnorm_def hypot_def)
qed

lemma face_rotate_forward: "vdot (face_rotate (facing_of a) l f) (facing_of a) = f"
proof -
  have "(- sin a * l + cos a * f) * cos a + (cos a * l + sin a * f) * sin a =
      ((sin a)\<^sup>2 + (cos a)\<^sup>2) * f"
    by algebra
  then show ?thesis by (simp add: face_rotate_def facing_of_def vdot_def)
qed

lemma hypot_nonneg [simp]: "0 \<le> hypot x y"
  by (simp add: hypot_def)

lemma hypot_scale: "hypot (c * x) (c * y) = \<bar>c\<bar> * hypot x y"
  by (simp add: hypot_def power_mult_distrib real_sqrt_mult flip: distrib_left)

lemma hypot_neg [simp]: "hypot (- x) y = hypot x y"
  by (simp add: hypot_def)

lemma stick_mag_range: "kDeadZone \<le> r \<Longrightarrow> 0 \<le> stick_mag r \<and> stick_mag r \<le> 1"
  by (simp add: stick_mag_def kDeadZone_def)

lemma stick_direction_norm:
  assumes "kDeadZone \<le> hypot lx ly"
  shows "vnorm (movement_direction (stick_movement lx ly h)) = stick_mag (hypot lx ly)"
proof -
  let ?s = "stick_mag (hypot lx ly) / hypot lx ly"
  have pos: "0 < hypot lx ly" using assms by (simp add: kDeadZone_def)
  have "hypot (- lx * ?s) (ly * ?s) = \<bar>?s\<bar> * hypot lx ly"
    using hypot_scale[of ?s lx ly] by (simp add: mult.commute)
  also have "\<dots> = stick_mag (hypot lx ly)"
    using pos stick_mag_range[OF assms] by simp
  finally show ?thesis
    by (simp add: stick_movement_def Let_def face_rotate_norm)
qed

text \<open>The ranges of a movement the planner may be handed.\<close>

definition speed_ok :: "int \<Rightarrow> real \<Rightarrow> bool" where
  "speed_ok m v \<longleftrightarrow>
     (if m = loc_code SLOW_WALK then 0.1 \<le> v \<and> v \<le> 0.6
      else if m = loc_code WALK then v = -1
      else if m = loc_code RUN then 1.5 \<le> v \<and> v \<le> 4.5
      else v = -1 \<or> 0 \<le> v \<and> v \<le> 1)"

definition movement_ok :: "movement_state \<Rightarrow> bool" where
  "movement_ok mv \<longleftrightarrow> 0 \<le> locomotion_mode mv \<and> locomotion_mode mv \<le> 19 \<and>
     vnorm (facing_direction mv) = 1 \<and> vnorm (movement_direction mv) \<le> 1 \<and>
     snd (snd (movement_direction mv)) = 0 \<and> speed_ok (locomotion_mode mv) (movement_speed mv)"

lemma stick_speed_ok: "0 \<le> mag \<Longrightarrow> mag \<le> 1 \<Longrightarrow> speed_ok m (stick_speed m mag)"
  by (simp add: speed_ok_def stick_speed_def)

lemma face_rotate_z [simp]: "snd (snd (face_rotate f l r)) = 0"
  by (simp add: face_rotate_def split: prod.split)

lemma stick_movement_ok:
  assumes "kDeadZone \<le> hypot lx ly" "0 \<le> mode_index h" "mode_index h \<le> 19"
  shows "movement_ok (stick_movement lx ly h)"
  using assms stick_direction_norm[OF assms(1), of h] stick_mag_range[OF assms(1)]
    stick_speed_ok[of "stick_mag (hypot lx ly)" "mode_index h"]
  by (simp add: movement_ok_def stick_movement_def Let_def facing_unit)

lemma nav_direction_norm:
  assumes "0 < hypot x y"
  shows "vnorm (face_rotate (facing_of a) (y / hypot x y) (x / hypot x y)) = 1"
proof -
  have "hypot (y / hypot x y) (x / hypot x y) = \<bar>1 / hypot x y\<bar> * hypot y x"
    using hypot_scale[of "1 / hypot x y" y x] by simp
  also have "hypot y x = hypot x y" by (simp add: hypot_def add.commute)
  finally show ?thesis using assms by (simp add: face_rotate_norm)
qed

lemma neutral_movement_ok: "movement_ok (fst (neutral_movement am nav now h))"
  using nav_direction_norm
  by (auto simp: movement_ok_def neutral_movement_def Let_def facing_unit speed_ok_def vnorm_def[of "(0, 0, 0)"]
      nav_consts split: option.split)

lemma neutral_movement_height:
  "movement_height (fst (neutral_movement am nav now h)) \<in> {-1, ih_height h}"
  by (simp add: neutral_movement_def Let_def split: option.split)

definition height_ok :: "input_handler \<Rightarrow> bool" where
  "height_ok h \<longleftrightarrow> ih_height h \<in> {-1, kHeightSeed}"

lemma height_step_ok:
  assumes "height_ok h"
  shows "height_ok (height_step h) \<and>
    (ih_height (height_step h) = kHeightSeed \<longrightarrow> mode_index h \<in> {4, 5, 6})"
  using assms by (auto simp: height_ok_def height_step_def mode_consts kHeightSeed_def)

lemma yx_height [simp]: "ih_height (yx_step c h) = ih_height h"
  by (simp add: yx_step_def split_beta Let_def)

lemma a_height [simp]: "ih_height (a_step c h) = ih_height h"
  by (simp add: a_step_def split_beta)

lemma estop_height [simp]: "ih_height (estop_step c h) = ih_height h"
  by (simp add: estop_step_def Let_def)

lemma height_ok_input_step:
  assumes "height_ok h"
  shows "height_ok (input_step e h)"
proof (cases "event_sample e")
  case None
  with assms show ?thesis by (cases e) (simp_all add: input_tick_None disarm_def height_ok_def)
next
  case (Some c)
  have "height_ok (tick_buttons c h)"
    using assms by (simp add: height_ok_def tick_buttons_def)
  from height_step_ok[OF this] Some show ?thesis
    by (cases e) (simp_all add: input_tick_Some height_ok_def)
qed

lemma height_ok_init: "height_ok input_init"
  by (simp add: height_ok_def input_init_def)

lemma height_ok_run: "height_ok (input_run es input_init)"
  by (induction es rule: rev_induct)
    (simp_all add: input_run_append height_ok_input_step height_ok_init)

lemma input_tick_movement:
  "in_ctrl i = Some c \<Longrightarrow> fst (fst (input_tick i h)) =
     fst (build_movement c (in_mode i) (in_nav i) (in_now i)
           (facing_step c (height_step (tick_buttons c h))))"
  by (simp add: input_tick_def tick_buttons_def Let_def split: prod.split)

lemma build_movement_ok:
  assumes "0 \<le> mode_index h" "mode_index h \<le> 19"
  shows "movement_ok (fst (build_movement c am nav now h))
    \<and> movement_height (fst (build_movement c am nav now h)) \<in> {-1, ih_height h}"
  using assms neutral_movement_ok[of am nav now h] neutral_movement_height[of am nav now h]
    stick_movement_ok[of "fst (left_axis c)" "snd (left_axis c)" h]
  by (auto simp: build_movement_def stick_movement_def Let_def split: prod.split)

text \<open>
  Every movement the handler publishes is one the planner may be handed: the mode is in
  the selectable range, the facing a unit vector, the direction horizontal and of length at most
  one, the speed in the band of its mode, and the height is the mode default except in the
  crouch modes, where it may be the seed; without a VR link it is IDLE, standing, not moving.
\<close>
theorem published_movement_ok:
  defines "h \<equiv> \<lambda>es. input_run es input_init"
  shows "movement_ok (fst (fst (input_tick i (h es))))
    \<and> movement_height (fst (fst (input_tick i (h es)))) \<in> {-1, 0.8}
    \<and> (movement_height (fst (fst (input_tick i (h es)))) = 0.8 \<longrightarrow>
        mode_index (snd (input_tick i (h es))) \<in> {4, 5, 6})
    \<and> (in_ctrl i = None \<longrightarrow> locomotion_mode (fst (fst (input_tick i (h es)))) = loc_code IDLE \<and>
        movement_direction (fst (fst (input_tick i (h es)))) = (0, 0, 0))"
proof (cases "in_ctrl i")
  case None
  then show ?thesis
    by (simp add: input_tick_def movement_ok_def facing_unit speed_ok_def vnorm_def[of "(0, 0, 0)"])
next
  case (Some c)
  let ?g = "facing_step c (height_step (tick_buttons c (h es)))"
  have "height_ok (tick_buttons c (h es))"
    using height_ok_run[of es] by (simp add: h_def height_ok_def tick_buttons_def)
  from height_step_ok[OF this]
  have ht: "ih_height ?g \<in> {-1, 0.8}" "ih_height ?g = 0.8 \<longrightarrow> mode_index ?g \<in> {4, 5, 6}"
    by (simp_all add: height_ok_def kHeightSeed_def)
  have mi: "mode_index (snd (input_tick i (h es))) = mode_index ?g"
    using Some by (simp add: input_tick_Some)
  have "0 \<le> mode_index ?g \<and> mode_index ?g \<le> 19"
    using mode_range[of "es @ [Tick i]"] mi by (simp add: h_def input_run_append)
  then have "movement_ok (fst (fst (input_tick i (h es))))
      \<and> movement_height (fst (fst (input_tick i (h es)))) \<in> {-1, ih_height ?g}"
    using build_movement_ok[of ?g c] Some by (simp add: input_tick_movement)
  with ht Some show ?thesis unfolding mi by auto
qed

lemma published_movement_ok_witness:
  "movement_ok (fst (fst (input_tick
      \<lparr>in_ctrl = None, in_mode = KVla, in_nav = get_data_with_time buf_empty, in_now = 0\<rparr>
      (input_run [four_down] input_init))))
   \<and> locomotion_mode (fst (fst (input_tick
      \<lparr>in_ctrl = None, in_mode = KVla, in_nav = get_data_with_time buf_empty, in_now = 0\<rparr>
      (input_run [four_down] input_init)))) = 0"
  using published_movement_ok[of
      "\<lparr>in_ctrl = None, in_mode = KVla, in_nav = get_data_with_time buf_empty, in_now = 0\<rparr>"
      "[four_down]"]
  by simp

text \<open>
  The navigation command has momentary priority: it is without any effect (on what is
  published and on the handler) unless the VR link is up, the stick is in its dead zone, the
  robot is in the origin mode and the command is younger than 300 ms; when it is read and faster
  than the stop threshold, the robot is sent along it at the band of its speed: the direction is
  a unit vector whose components forward and left are those of the command.
\<close>
theorem nav_momentary_priority:
  assumes "in_ctrl i = Some c" "hypot (fst (left_axis c)) (snd (left_axis c)) < 0.15"
    and "in_mode i = KNormal" "ts_data (in_nav i) = Some n" "get_age_ms (in_now i) (in_nav i) < 300"
    and "v = hypot (nav_vx n) (nav_vy n)" "0.05 \<le> v"
    and "mv = fst (fst (input_tick i h))"
  shows "locomotion_mode mv = (if v \<le> 0.6 then loc_code SLOW_WALK else loc_code WALK)
    \<and> movement_speed mv = (if v \<le> 0.6 then max v 0.1 else -1) \<and> movement_height mv = -1
    \<and> vnorm (movement_direction mv) = 1
    \<and> v * vdot (movement_direction mv) (facing_direction mv) = nav_vx n
    \<and> (\<forall>j nav'. \<not> (\<exists>d. in_ctrl j = Some d \<and>
            hypot (fst (left_axis d)) (snd (left_axis d)) < 0.15 \<and> in_mode j = KNormal \<and>
            (has_data (in_nav j) \<and> get_age_ms (in_now j) (in_nav j) < 300 \<or>
             has_data nav' \<and> get_age_ms (in_now j) nav' < 300))
          \<longrightarrow> input_tick (j\<lparr>in_nav := nav'\<rparr>) h = input_tick j h)"
proof (intro conjI allI impI)
  let ?g = "facing_step c (height_step (tick_buttons c h))"
  let ?fa = "facing_angle ?g + nav_vyaw n * kLoopDt"
  have drives: "nav_drives (in_mode i) (in_nav i) (in_now i)"
    using assms by (simp add: nav_drives_def has_data_def kNavStaleMs_def)
  have mv: "mv = \<lparr>locomotion_mode = (if v \<le> 0.6 then loc_code SLOW_WALK else loc_code WALK),
      movement_direction = face_rotate (facing_of ?fa) (nav_vy n / v) (nav_vx n / v),
      facing_direction = facing_of ?fa,
      movement_speed = (if v \<le> 0.6 then max v 0.1 else -1), movement_height = -1\<rparr>"
    using assms drives
    by (simp add: input_tick_movement build_movement_def neutral_movement_def Let_def kDeadZone_def
        nav_consts split_beta)
  have v: "0 < v" using assms(7) by simp
  show "locomotion_mode mv = (if v \<le> 0.6 then loc_code SLOW_WALK else loc_code WALK)"
    "movement_speed mv = (if v \<le> 0.6 then max v 0.1 else -1)" "movement_height mv = -1"
    by (simp_all add: mv)
  show "vnorm (movement_direction mv) = 1"
    using nav_direction_norm[of "nav_vx n" "nav_vy n" ?fa] v assms(6) by (simp add: mv)
  show "v * vdot (movement_direction mv) (facing_direction mv) = nav_vx n"
    using v by (simp add: mv face_rotate_forward)
  fix j :: tick_in and nav' :: "nav_command timestamped"
  assume quiet: "\<not> (\<exists>d. in_ctrl j = Some d \<and>
      hypot (fst (left_axis d)) (snd (left_axis d)) < 0.15 \<and> in_mode j = KNormal \<and>
      (has_data (in_nav j) \<and> get_age_ms (in_now j) (in_nav j) < 300 \<or>
       has_data nav' \<and> get_age_ms (in_now j) nav' < 300))"
  show "input_tick (j\<lparr>in_nav := nav'\<rparr>) h = input_tick j h"
  proof (cases "in_ctrl j")
    case (Some d)
    have "build_movement d (in_mode j) nav' (in_now j) h' =
        build_movement d (in_mode j) (in_nav j) (in_now j) h'" for h'
      using quiet Some
      by (auto simp: build_movement_def neutral_movement_def nav_drives_def kDeadZone_def
          kNavStaleMs_def split_beta)
    with Some show ?thesis by (simp add: input_tick_def)
  qed (simp add: input_tick_def)
qed

lemma nav_momentary_priority_witness:
  "let nav = get_data_with_time (set_data 0 \<lparr>nav_vx = 3, nav_vy = 4, nav_vyaw = 0\<rparr> buf_empty);
       i = \<lparr>in_ctrl = Some pico_neutral, in_mode = KNormal, in_nav = nav, in_now = 100000000\<rparr>
   in locomotion_mode (fst (fst (input_tick i input_init))) = 2
      \<and> vnorm (movement_direction (fst (fst (input_tick i input_init)))) = 1"
proof -
  have "hypot 3 4 = 5" by (simp add: hypot_def)
  then show ?thesis
    using nav_momentary_priority[of
        "\<lparr>in_ctrl = Some pico_neutral, in_mode = KNormal,
          in_nav = get_data_with_time (set_data 0 \<lparr>nav_vx = 3, nav_vy = 4, nav_vyaw = 0\<rparr> buf_empty),
          in_now = 100000000\<rparr>" pico_neutral "\<lparr>nav_vx = 3, nav_vy = 4, nav_vyaw = 0\<rparr>" 5 _ input_init]
    by (simp add: pico_neutral_def hypot_def[of 0 0] get_age_ms_def has_data_def)
qed

end
