(* ===== verification/Motion.thy ===== *)
theory Motion
  imports Quaternion Robot_Tables
begin

text \<open>
  The 50 Hz motion sequence (\<open>include/planner/motion_sequence_50hz.hpp\<close>) and the two
  conversions of the planner (\<open>src/planner/planner_inference.cpp\<close>): the resampling of its
  30 Hz output and the sampling of its context window. Joint angles are in IsaacLab order in a
  frame and in MuJoCo order in a row of the planner's tensors.
\<close>

section \<open>Frames and sequences\<close>

definition kMaxPlannerFrames :: int where "kMaxPlannerFrames = 64"
definition kQposDim :: nat where "kQposDim = 36"
definition kCapacity :: int where "kCapacity = 1500"
definition kContextFrames :: nat where "kContextFrames = 4"

lemmas planner_dims = kMaxPlannerFrames_def kQposDim_def kCapacity_def kContextFrames_def

record motion_frame =
  fr_position :: "real list"
  fr_quaternion :: quat
  fr_joints :: "real list"
  fr_joint_velocities :: "real list"

definition frame_default :: motion_frame where
  "frame_default = \<lparr>fr_position = replicate 3 0, fr_quaternion = (1, 0, 0, 0),
     fr_joints = replicate 29 0, fr_joint_velocities = replicate 29 0\<rparr>"

record motion_seq =
  frames :: "motion_frame list"
  timesteps :: int
  gen_frame :: int

definition motion_empty :: motion_seq where
  "motion_empty = \<lparr>frames = [], timesteps = 0, gen_frame = 0\<rparr>"

definition resize_list :: "nat \<Rightarrow> 'a \<Rightarrow> 'a list \<Rightarrow> 'a list" where
  "resize_list n d xs = take n xs @ replicate (n - length xs) d"

lemma length_resize_list [simp]: "length (resize_list n d xs) = n"
  by (simp add: resize_list_def)

definition resize :: "int \<Rightarrow> motion_seq \<Rightarrow> motion_seq" where
  "resize n m = m\<lparr>timesteps := min n kCapacity,
                  frames := resize_list (nat (min n kCapacity)) frame_default (frames m)\<rparr>"

definition frame_at :: "motion_seq \<Rightarrow> int \<Rightarrow> motion_frame" where
  "frame_at m i = frames m ! nat i"

definition frame_wf :: "motion_frame \<Rightarrow> bool" where
  "frame_wf f \<longleftrightarrow> length (fr_position f) = 3 \<and> length (fr_joints f) = 29 \<and>
     length (fr_joint_velocities f) = 29"

text \<open>A sequence is sound when its length field is the number of its frames.\<close>

definition motion_wf :: "motion_seq \<Rightarrow> bool" where
  "motion_wf m \<longleftrightarrow> timesteps m = int (length (frames m)) \<and> timesteps m \<le> kCapacity \<and>
     list_all frame_wf (frames m)"

lemma frame_at_wf: "motion_wf m \<Longrightarrow> 0 \<le> i \<Longrightarrow> i < timesteps m \<Longrightarrow> frame_wf (frame_at m i)"
  by (auto simp: motion_wf_def frame_at_def list_all_length)

lemma motion_wf_empty [simp]: "motion_wf motion_empty"
  by (simp add: motion_wf_def motion_empty_def planner_dims)

text \<open>The componentwise cross-fade.\<close>

definition mix_list :: "real \<Rightarrow> real list \<Rightarrow> real list \<Rightarrow> real list" where
  "mix_list w xs ys = map2 (mix w) xs ys"

lemma length_mix_list [simp, len_simps]: "length (mix_list w xs ys) = min (length xs) (length ys)"
  by (simp add: mix_list_def)

lemma mix_list_nth [simp]:
  "i < length xs \<Longrightarrow> i < length ys \<Longrightarrow> mix_list w xs ys ! i = mix w (xs ! i) (ys ! i)"
  by (simp add: mix_list_def)

lemma mix_list_0 [simp]: "length xs = length ys \<Longrightarrow> mix_list 0 xs ys = xs"
  by (rule nth_equalityI) simp_all

lemma mix_list_1 [simp]: "length xs = length ys \<Longrightarrow> mix_list 1 xs ys = ys"
  by (rule nth_equalityI) simp_all

lemma mix_list_same [simp]: "mix_list w xs xs = xs"
  by (rule nth_equalityI) simp_all

definition all_within :: "real \<Rightarrow> real \<Rightarrow> real list \<Rightarrow> bool" where
  "all_within lo hi xs \<longleftrightarrow> (\<forall>x \<in> set xs. lo \<le> x \<and> x \<le> hi)"

lemma all_within_nth: "all_within lo hi xs \<longleftrightarrow> (\<forall>i < length xs. lo \<le> xs ! i \<and> xs ! i \<le> hi)"
  by (auto simp: all_within_def all_set_conv_all_nth)

lemma all_within_mix:
  "all_within lo hi xs \<Longrightarrow> all_within lo hi ys \<Longrightarrow> 0 \<le> w \<Longrightarrow> w \<le> 1 \<Longrightarrow>
   all_within lo hi (mix_list w xs ys)"
  by (auto simp: all_within_nth intro!: mix_between[where lo = lo and hi = hi])

lemma all_within_gather:
  assumes "all_within lo hi xs" "\<forall>t \<in> set ts. t < length xs"
  shows "all_within lo hi (gather ts xs)"
  using assms by (auto simp: all_within_def gather_def)

lemma gather_set_mj: "t \<in> set mujoco_to_isaaclab \<Longrightarrow> t < 29"
  by (auto simp: in_set_conv_nth joints.bwd_fwd)

lemma gather_set_il: "t \<in> set isaaclab_to_mujoco \<Longrightarrow> t < 29"
  by (auto simp: in_set_conv_nth joints.fwd_bwd)

section \<open>30 Hz to 50 Hz\<close>

text \<open>Rows of the output tensor: position, quaternion, joints in MuJoCo order.\<close>

definition qpos_row :: "real list \<Rightarrow> int \<Rightarrow> real list" where
  "qpos_row q f = map (\<lambda>i. q ! (nat f * kQposDim + i)) [0..<kQposDim]"

definition row_position :: "real list \<Rightarrow> real list" where
  "row_position p = take 3 p"

definition row_quat :: "real list \<Rightarrow> quat" where
  "row_quat p = (p ! 3, p ! 4, p ! 5, p ! 6)"

definition row_joints :: "real list \<Rightarrow> real list" where
  "row_joints p = map (\<lambda>j. p ! (7 + j)) [0..<29]"

lemma length_qpos_row [simp, len_simps]: "length (qpos_row q f) = 36"
  by (simp add: qpos_row_def kQposDim_def)

lemma length_row_joints [simp, len_simps]: "length (row_joints p) = 29"
  by (simp add: row_joints_def)

lemma length_row_position [simp, len_simps]: "length (row_position (qpos_row q f)) = 3"
  by (simp add: row_position_def)

definition resample_frame :: "real list \<Rightarrow> int \<Rightarrow> nat \<Rightarrow> motion_frame" where
  "resample_frame q num f_50hz =
     (let f_30hz = real f_50hz / 50 * 30;
          f0 = \<lfloor>f_30hz\<rfloor>;
          f1 = min (f0 + 1) (num - 1);
          w1 = f_30hz - of_int f0;
          p0 = qpos_row q f0;
          p1 = qpos_row q f1
      in \<lparr>fr_position = mix_list w1 (row_position p0) (row_position p1),
          fr_quaternion = quat_slerp (row_quat p0) (row_quat p1) w1,
          fr_joints = mix_list w1 (gather mujoco_to_isaaclab (row_joints p0))
                                  (gather mujoco_to_isaaclab (row_joints p1)),
          fr_joint_velocities = replicate 29 0\<rparr>)"

text \<open>Forward differences of the joints; the last frame repeats the one before it.\<close>

definition diff_velocities :: "motion_frame list \<Rightarrow> nat \<Rightarrow> real list" where
  "diff_velocities fs f =
     (let g = min f (length fs - 2)
      in map2 (\<lambda>a b. (b - a) * 50) (fr_joints (fs ! g)) (fr_joints (fs ! (g + 1))))"

definition with_velocities :: "motion_frame list \<Rightarrow> motion_frame list" where
  "with_velocities fs =
     map (\<lambda>f. (fs ! f)\<lparr>fr_joint_velocities := diff_velocities fs f\<rparr>) [0..<length fs]"

definition n_50hz :: "int \<Rightarrow> int" where
  "n_50hz num = min \<lfloor>of_int num / 30 * (50 :: real)\<rfloor> kCapacity"

text \<open>
  The output tensor holds \<open>None\<close> where the engine produced NaN. The result is the new value of
  \<open>motion_seq_\<close>, or \<open>None\<close> for each of the three rejections, which leave it alone.
\<close>

definition resample_30hz_to_50hz :: "real option list \<Rightarrow> int \<Rightarrow> motion_seq \<Rightarrow> motion_seq option" where
  "resample_30hz_to_50hz qo num m =
     (if num \<le> 0 \<or> num > kMaxPlannerFrames then None
      else if None \<in> set (take (nat num * kQposDim) qo) then None
      else if n_50hz num < 2 then None
      else let q = map the (take (nat num * kQposDim) qo)
           in Some (m\<lparr>timesteps := n_50hz num,
                      frames := with_velocities (map (resample_frame q num) [0..<nat (n_50hz num)])\<rparr>))"

lemma n_50hz_div: "0 \<le> num \<Longrightarrow> num \<le> 64 \<Longrightarrow> n_50hz num = 5 * num div 3"
proof -
  assume "0 \<le> num" "num \<le> 64"
  have "of_int num / 30 * (50 :: real) = of_int (5 * num) / of_int 3" by simp
  then have "\<lfloor>of_int num / 30 * (50 :: real)\<rfloor> = 5 * num div 3"
    by (simp only: floor_divide_of_int_eq)
  with \<open>num \<le> 64\<close> show ?thesis by (simp add: n_50hz_def kCapacity_def)
qed

text \<open>The two source rows of a resampled frame exist, and its weight is a weight.\<close>

lemma resample_source:
  fixes f :: nat
  assumes "int f < 5 * num div 3"
  defines "f30 \<equiv> real f / 50 * 30"
  shows "\<lfloor>f30\<rfloor> = 3 * int f div 5" "0 \<le> \<lfloor>f30\<rfloor>" "\<lfloor>f30\<rfloor> \<le> num - 1"
    "0 \<le> f30 - of_int \<lfloor>f30\<rfloor>" "f30 - of_int \<lfloor>f30\<rfloor> \<le> 1"
proof -
  have "f30 = of_int (3 * int f) / of_int 5" by (simp add: f30_def)
  then show e: "\<lfloor>f30\<rfloor> = 3 * int f div 5" by (simp only: floor_divide_of_int_eq)
  show "0 \<le> \<lfloor>f30\<rfloor>" "\<lfloor>f30\<rfloor> \<le> num - 1" unfolding e using assms(1) by linarith+
  show "0 \<le> f30 - of_int \<lfloor>f30\<rfloor>" "f30 - of_int \<lfloor>f30\<rfloor> \<le> 1"
    using floor_correct[of f30] by linarith+
qed

lemma length_with_velocities [simp, len_simps]: "length (with_velocities fs) = length fs"
  by (simp add: with_velocities_def)

lemma with_velocities_nth:
  "f < length fs \<Longrightarrow> with_velocities fs ! f = (fs ! f)\<lparr>fr_joint_velocities := diff_velocities fs f\<rparr>"
  by (simp add: with_velocities_def)

lemma resample_frame_wf: "length (fr_joints (resample_frame q num f)) = 29"
  "length (fr_position (resample_frame q num f)) = 3"
  by (simp_all add: resample_frame_def Let_def)

lemma resample_wf:
  assumes "resample_30hz_to_50hz qo num m = Some m'"
  shows "motion_wf m' \<and> 2 \<le> timesteps m' \<and> timesteps m' = 5 * num div 3
    \<and> 2 \<le> num \<and> num \<le> 64 \<and> gen_frame m' = gen_frame m"
proof -
  have r: "0 < num" "num \<le> 64" "2 \<le> n_50hz num"
    and m': "m' = m\<lparr>timesteps := n_50hz num, frames := with_velocities
        (map (resample_frame (map the (take (nat num * kQposDim) qo)) num) [0..<nat (n_50hz num)])\<rparr>"
    using assms by (auto simp: resample_30hz_to_50hz_def Let_def kMaxPlannerFrames_def
        split: if_splits)
  have n: "n_50hz num = 5 * num div 3" using r by (simp add: n_50hz_div)
  show ?thesis
    using r by (auto simp: m' motion_wf_def n kCapacity_def list_all_length frame_wf_def
        with_velocities_nth resample_frame_wf diff_velocities_def Let_def)
qed

text \<open>The reals of an output tensor without NaN, of the length the engine was validated for.\<close>

definition seq_joint :: "motion_seq \<Rightarrow> nat \<Rightarrow> nat \<Rightarrow> real" where
  "seq_joint m f j = fr_joints (frames m ! f) ! j"

lemma map_the_take:
  "map the (take n (map Some q)) = take n q"
  by (simp add: take_map comp_def)

lemma qpos_row_take:
  assumes "0 \<le> f" "f < num"
  shows "qpos_row (take (nat num * kQposDim) q) f = qpos_row q f"
proof -
  have "nat f + 1 \<le> nat num" using assms by linarith
  then have "(nat f + 1) * kQposDim \<le> nat num * kQposDim" by (rule mult_le_mono1)
  then have "nat f * kQposDim + i < nat num * kQposDim" if "i < kQposDim" for i
    using that by (simp add: algebra_simps)
  then show ?thesis by (auto simp: qpos_row_def)
qed

lemma resample_frame_take:
  assumes "int f < 5 * num div 3" "2 \<le> num"
  shows "resample_frame (take (nat num * kQposDim) q) num f = resample_frame q num f"
proof -
  note src = resample_source[OF assms(1)]
  let ?f0 = "\<lfloor>real f / 50 * 30\<rfloor>"
  have "qpos_row (take (nat num * kQposDim) q) ?f0 = qpos_row q ?f0"
    using src by (intro qpos_row_take) linarith+
  moreover have "qpos_row (take (nat num * kQposDim) q) (min (?f0 + 1) (num - 1))
      = qpos_row q (min (?f0 + 1) (num - 1))"
    using src assms(2) by (intro qpos_row_take) linarith+
  ultimately show ?thesis unfolding resample_frame_def Let_def by simp
qed

lemma resample_frames:
  assumes "2 \<le> num" "num \<le> 64"
  shows "resample_30hz_to_50hz (map Some q) num m =
     Some (m\<lparr>timesteps := 5 * num div 3,
             frames := with_velocities (map (resample_frame q num) [0..<nat (5 * num div 3)])\<rparr>)"
proof -
  have "None \<notin> set (take n (map Some q))" for n by (auto simp: take_map)
  moreover have "2 \<le> 5 * num div 3" using assms(1) by linarith
  moreover have "map (resample_frame (take (nat num * kQposDim) q) num) [0..<nat (5 * num div 3)]
      = map (resample_frame q num) [0..<nat (5 * num div 3)]"
    using assms by (intro map_cong refl resample_frame_take) auto
  ultimately show ?thesis
    using assms by (simp add: resample_30hz_to_50hz_def n_50hz_div kMaxPlannerFrames_def
        map_the_take del: map_eq_conv)
qed

lemma row_joints_within:
  "all_within lo hi q \<Longrightarrow> 0 \<le> f \<Longrightarrow> nat f * 36 + 36 \<le> length q \<Longrightarrow>
   all_within lo hi (gather mujoco_to_isaaclab (row_joints (qpos_row q f)))"
  by (rule all_within_gather)
    (auto simp: all_within_nth row_joints_def qpos_row_def kQposDim_def gather_set_mj)

lemma resample_frame_within:
  assumes "all_within lo hi q" "length q = 2304" "int f < 5 * num div 3" "2 \<le> num" "num \<le> 64"
  shows "all_within lo hi (fr_joints (resample_frame q num f))"
proof -
  note src = resample_source[OF assms(3)]
  let ?f0 = "\<lfloor>real f / 50 * 30\<rfloor>"
  have "nat ?f0 \<le> 63" "nat (min (?f0 + 1) (num - 1)) \<le> 63" "0 \<le> min (?f0 + 1) (num - 1)"
    using src assms(4,5) by linarith+
  then show ?thesis
    using src assms(1,2) by (auto simp: resample_frame_def Let_def intro!: all_within_mix row_joints_within)
qed

lemma resample_grid:
  assumes "int (5 * k) < 5 * num div 3" "2 \<le> num"
  shows "fr_joints (resample_frame q num (5 * k)) =
      gather mujoco_to_isaaclab (row_joints (qpos_row q (3 * int k)))"
proof -
  have "real (5 * k) / 50 * 30 = of_int (3 * int k)" by simp
  then show ?thesis by (simp only: resample_frame_def Let_def floor_of_int) simp
qed

text \<open>
  Resampling a planner output without NaN of 2 to 64 frames at 30 Hz gives a sound 50 Hz
  sequence of 5/3 as many frames: every joint angle stays within any bounds the output respects,
  every fifth frame is every third frame of the output in IsaacLab order, and the velocities are
  the forward differences of the joints, the last one repeated; any other count, or a NaN in the
  frames counted, is rejected.
\<close>
theorem resample_interpolates:
  assumes "length q = 2304" "2 \<le> num" "num \<le> 64" "all_within lo hi q"
  shows "\<exists>m'. resample_30hz_to_50hz (map Some q) num m = Some m' \<and> motion_wf m'
    \<and> timesteps m' = 5 * num div 3
    \<and> (\<forall>f < length (frames m'). all_within lo hi (fr_joints (frames m' ! f)))
    \<and> (\<forall>k j. 5 * k < length (frames m') \<longrightarrow> j < 29 \<longrightarrow>
        seq_joint m' (5 * k) j = q ! (3 * k * 36 + 7 + mujoco_to_isaaclab ! j))
    \<and> (\<forall>f j. f + 1 < length (frames m') \<longrightarrow> j < 29 \<longrightarrow>
        seq_joint m' (f + 1) j = seq_joint m' f j + fr_joint_velocities (frames m' ! f) ! j / 50)
    \<and> fr_joint_velocities (last (frames m')) =
        fr_joint_velocities (frames m' ! (length (frames m') - 2))"
proof -
  let ?fs = "map (resample_frame q num) [0..<nat (5 * num div 3)]"
  let ?m = "m\<lparr>timesteps := 5 * num div 3, frames := with_velocities ?fs\<rparr>"
  note eq = resample_frames[OF assms(2,3), of q m]
  have len: "length (frames ?m) = nat (5 * num div 3)" "2 \<le> nat (5 * num div 3)"
    using assms(2) by (simp, linarith)
  have joints: "fr_joints (frames ?m ! f) = fr_joints (resample_frame q num f)"
    if "f < nat (5 * num div 3)" for f
    using that by (simp add: with_velocities_nth)
  have "\<forall>f < length (frames ?m). all_within lo hi (fr_joints (frames ?m ! f))"
    using assms joints by (simp add: resample_frame_within)
  moreover have "seq_joint ?m (5 * k) j = q ! (3 * k * 36 + 7 + mujoco_to_isaaclab ! j)"
    if "5 * k < length (frames ?m)" "j < 29" for k j
  proof -
    have "int (5 * k) < 5 * num div 3" using that by simp
    from resample_grid[OF this assms(2)] have "fr_joints (frames ?m ! (5 * k)) =
        gather mujoco_to_isaaclab (row_joints (qpos_row q (3 * int k)))"
      using that joints[of "5 * k"] by simp
    with that show ?thesis
      using joints.bwd_fwd[of j]
      by (simp only: seq_joint_def)
        (simp add: row_joints_def qpos_row_def kQposDim_def nat_mult_distrib algebra_simps)
  qed
  moreover have "seq_joint ?m (f + 1) j =
      seq_joint ?m f j + fr_joint_velocities (frames ?m ! f) ! j / 50"
    if "f + 1 < length (frames ?m)" "j < 29" for f j
  proof -
    have "min f (nat (5 * num div 3) - 2) = f" using that by simp
    with that show ?thesis
      by (simp add: seq_joint_def with_velocities_nth diff_velocities_def resample_frame_wf
          diff_divide_distrib)
  qed
  moreover have "fr_joint_velocities (last (frames ?m)) =
      fr_joint_velocities (frames ?m ! (length (frames ?m) - 2))"
    using len by (simp add: last_conv_nth with_velocities_nth diff_velocities_def
        flip: length_greater_0_conv)
  ultimately show ?thesis
    using eq resample_wf[OF eq] by blast
qed

lemma resample_interpolates_witness:
  "\<exists>m'. resample_30hz_to_50hz (map Some (replicate 2304 (1/4))) 9 motion_empty = Some m'
    \<and> timesteps m' = 15 \<and> motion_wf m'"
  using resample_interpolates[of "replicate 2304 (1/4)" 9 "1/4" "1/4" motion_empty]
  by (simp add: all_within_def) blast

section \<open>The context window\<close>

text \<open>
  One row of the context: the motion at the time of frame \<open>gen\<close> plus \<open>n\<close>/30 s, interpolated
  between two frames and held at its ends, the joints scattered back to MuJoCo order.
\<close>

definition context_frames :: "motion_seq \<Rightarrow> int \<Rightarrow> nat \<Rightarrow> motion_frame \<times> motion_frame \<times> real" where
  "context_frames m gen n =
     (let gen_time = real_of_int gen / 50;
          t = gen_time + real n / 30;
          f_50hz = t * 50;
          f0 = clamp \<lfloor>f_50hz\<rfloor> 0 (timesteps m - 1);
          f1 = min (f0 + 1) (timesteps m - 1);
          w1 = f_50hz - of_int \<lfloor>f_50hz\<rfloor>
      in (frame_at m f0, frame_at m f1, w1))"

definition context_row :: "motion_seq \<Rightarrow> int \<Rightarrow> nat \<Rightarrow> real list" where
  "context_row m gen n =
     (case context_frames m gen n of (a, b, w1) \<Rightarrow>
        mix_list w1 (fr_position a) (fr_position b) @
        quat_list (quat_slerp (fr_quaternion a) (fr_quaternion b) w1) @
        scatter mujoco_to_isaaclab (mix_list w1 (fr_joints a) (fr_joints b)) (replicate 29 0))"

text \<open>An empty motion has no frame to read: the access is out of range.\<close>

definition update_context_from_motion :: "motion_seq \<Rightarrow> int \<Rightarrow> real list option" where
  "update_context_from_motion m gen =
     (if timesteps m \<le> 0 then None else Some (concat (map (context_row m gen) [0..<kContextFrames])))"

definition initialize_context :: "real \<Rightarrow> real list \<Rightarrow> real list" where
  "initialize_context default_height joint_positions =
     concat (map (\<lambda>n. [0, 0, default_height, 1, 0, 0, 0] @ joint_positions) [0..<kContextFrames])"

lemma context_frames_in_range:
  assumes "0 < timesteps m" "context_frames m gen n = (a, b, w)"
  shows "\<exists>i j. a = frame_at m i \<and> b = frame_at m j \<and> 0 \<le> i \<and> i < timesteps m \<and>
    0 \<le> j \<and> j < timesteps m \<and> 0 \<le> w \<and> w < 1"
proof -
  let ?f = "(real_of_int gen / 50 + real n / 30) * 50"
  let ?lo = "clamp \<lfloor>?f\<rfloor> 0 (timesteps m - 1)"
  have r: "0 \<le> ?lo" "?lo \<le> timesteps m - 1"
    using assms(1) by (intro clamp_lower clamp_upper; simp)+
  have w: "0 \<le> ?f - of_int \<lfloor>?f\<rfloor>" "?f - of_int \<lfloor>?f\<rfloor> < 1"
    using floor_correct[of ?f] by linarith+
  have e: "a = frame_at m ?lo" "b = frame_at m (min (?lo + 1) (timesteps m - 1))"
    "w = ?f - of_int \<lfloor>?f\<rfloor>"
    using assms(2) by (simp_all only: context_frames_def Let_def prod.inject)
  have "?lo < timesteps m" "0 \<le> min (?lo + 1) (timesteps m - 1)"
    "min (?lo + 1) (timesteps m - 1) < timesteps m"
    using r assms(1) by linarith+
  with e r(1) w show ?thesis by blast
qed

lemma context_row_parts:
  assumes "motion_wf m" "0 < timesteps m" "context_frames m gen n = (a, b, w)"
  shows "length (context_row m gen n) = kQposDim"
    "gather mujoco_to_isaaclab (row_joints (context_row m gen n)) =
       mix_list w (fr_joints a) (fr_joints b)"
    "row_quat (context_row m gen n) = quat_slerp (fr_quaternion a) (fr_quaternion b) w"
    "row_position (context_row m gen n) = mix_list w (fr_position a) (fr_position b)"
proof -
  obtain i j where "a = frame_at m i" "b = frame_at m j" "0 \<le> i" "i < timesteps m"
      "0 \<le> j" "j < timesteps m"
    using context_frames_in_range[OF assms(2,3)] by blast
  then have wf: "length (fr_joints a) = 29" "length (fr_joints b) = 29"
      "length (fr_position a) = 3" "length (fr_position b) = 3"
    using frame_at_wf[OF assms(1)] by (auto simp: frame_wf_def)
  let ?p = "mix_list w (fr_position a) (fr_position b)"
  let ?s = "quat_slerp (fr_quaternion a) (fr_quaternion b) w"
  let ?j = "mix_list w (fr_joints a) (fr_joints b)"
  have row: "context_row m gen n =
      ?p @ quat_list ?s @ scatter mujoco_to_isaaclab ?j (replicate 29 0)"
    by (simp add: context_row_def assms(3))
  have sc: "scatter mujoco_to_isaaclab ?j (replicate 29 0) = gather isaaclab_to_mujoco ?j"
    using wf by (intro joints.scatter_eq_gather) simp_all
  have "row_joints (context_row m gen n) = gather isaaclab_to_mujoco ?j"
    unfolding row sc row_joints_def
    by (rule nth_equalityI) (simp_all add: wf nth_append)
  then show "gather mujoco_to_isaaclab (row_joints (context_row m gen n)) = ?j"
    using wf by (simp add: joints.gather_fwd_bwd)
  show "length (context_row m gen n) = kQposDim" unfolding row by (simp add: wf kQposDim_def)
  show "row_quat (context_row m gen n) = ?s"
    unfolding row row_quat_def by (cases ?s) (simp add: nth_append wf quat_list_def)
  show "row_position (context_row m gen n) = ?p"
    unfolding row row_position_def by (simp add: wf)
qed

lemma concat_rows_nth:
  assumes "\<And>n. length (g n) = d"
  shows "length (concat (map g [0..<k])) = k * d"
    and "n < k \<Longrightarrow> map (\<lambda>i. concat (map g [0..<k]) ! (n * d + i)) [0..<d] = g n"
proof (induction k)
  case (Suc k)
  { case 1 show ?case using Suc(1) assms by simp }
  { case 2
    have len: "length (concat (map g [0..<k])) = k * d" by (rule Suc(1))
    show ?case
    proof (cases "n < k")
      case True
      then have "(n + 1) * d \<le> k * d" by (intro mult_le_mono1) simp
      then have "n * d + i < k * d" if "i < d" for i using that by simp
      then have "map (\<lambda>i. concat (map g [0..<Suc k]) ! (n * d + i)) [0..<d] =
          map (\<lambda>i. concat (map g [0..<k]) ! (n * d + i)) [0..<d]"
        by (intro map_cong refl) (simp add: nth_append len)
      with Suc(2)[OF True] show ?thesis by simp
    next
      case False
      then have "n = k" using 2 by simp
      then show ?thesis
        by (intro nth_equalityI) (simp_all add: nth_append len assms)
    qed }
qed simp_all

lemma concat_uniform_nth:
  assumes "\<And>n. length (g n) = d" "n < k" "j < d"
  shows "concat (map g [0..<k]) ! (n * d + j) = g n ! j"
  using arg_cong[OF concat_rows_nth(2)[of g, OF assms(1,2)], of "\<lambda>xs. xs ! j"] assms(3) by simp

text \<open>
  The context handed to the planner reads only existing frames, whatever frame it starts
  at (before the first, beyond the last or between two): its four rows carry, back in MuJoCo
  order, joints that respect every bound the motion respects and unit orientations when the
  motion's are, and beyond the end of the motion every row repeats the last frame.
\<close>
theorem context_within_motion:
  assumes "motion_wf m" "0 < timesteps m" "n < kContextFrames"
  shows "\<exists>ctx. update_context_from_motion m gen = Some ctx \<and> length ctx = 4 * kQposDim
    \<and> ((\<forall>f \<in> set (frames m). all_within lo hi (fr_joints f)) \<longrightarrow>
        all_within lo hi (row_joints (qpos_row ctx (int n))))
    \<and> ((\<forall>f \<in> set (frames m). unit_quat (fr_quaternion f)) \<longrightarrow>
        unit_quat (row_quat (qpos_row ctx (int n))))
    \<and> (timesteps m - 1 \<le> gen \<longrightarrow>
        gather mujoco_to_isaaclab (row_joints (qpos_row ctx (int n))) = fr_joints (last (frames m))
        \<and> row_position (qpos_row ctx (int n)) = fr_position (last (frames m)))"
proof -
  let ?ctx = "concat (map (context_row m gen) [0..<kContextFrames])"
  obtain a b w where abw: "context_frames m gen n = (a, b, w)" by (cases "context_frames m gen n")
  note parts = context_row_parts[OF assms(1,2) abw]
  obtain i j where ij: "a = frame_at m i" "b = frame_at m j" "0 \<le> i" "i < timesteps m"
      "0 \<le> j" "j < timesteps m" and w: "0 \<le> w" "w < 1"
    using context_frames_in_range[OF assms(2) abw] by blast
  then have mem: "a \<in> set (frames m)" "b \<in> set (frames m)"
    using assms(1) by (auto simp: frame_at_def motion_wf_def)
  have lens: "length (context_row m gen k) = kQposDim" for k
    using context_row_parts(1)[OF assms(1,2)] by (metis prod_cases3)
  have row: "qpos_row ?ctx (int n) = context_row m gen n"
    unfolding qpos_row_def using concat_rows_nth(2)[of "context_row m gen", OF lens assms(3)] by simp
  have J: "all_within lo hi (row_joints (context_row m gen n))"
    if "\<forall>f \<in> set (frames m). all_within lo hi (fr_joints f)"
  proof -
    have "all_within lo hi (gather mujoco_to_isaaclab (row_joints (context_row m gen n)))"
      unfolding parts using that mem w by (intro all_within_mix) auto
    then have "all_within lo hi (gather isaaclab_to_mujoco
        (gather mujoco_to_isaaclab (row_joints (context_row m gen n))))"
      by (rule all_within_gather) (simp add: gather_set_il)
    then show ?thesis by (simp add: joints.gather_bwd_fwd)
  qed
  have Q: "unit_quat (row_quat (context_row m gen n))"
    if "\<forall>f \<in> set (frames m). unit_quat (fr_quaternion f)"
    unfolding parts using that mem w by (intro quat_slerp_unit) auto
  have E: "a = last (frames m) \<and> b = last (frames m)" if "timesteps m - 1 \<le> gen"
  proof -
    let ?f = "(real_of_int gen / 50 + real n / 30) * 50"
    have "gen \<le> \<lfloor>?f\<rfloor>" by (simp add: le_floor_iff algebra_simps)
    then have "clamp \<lfloor>?f\<rfloor> 0 (timesteps m - 1) = timesteps m - 1"
      using that assms(2) by (intro clamp_high) linarith+
    then have "a = frame_at m (timesteps m - 1)" "b = frame_at m (timesteps m - 1)"
      using abw by (auto simp: context_frames_def Let_def)
    moreover have "nat (timesteps m - 1) = length (frames m) - 1" "frames m \<noteq> []"
      using assms(1,2) by (auto simp: motion_wf_def)
    then have "frame_at m (timesteps m - 1) = last (frames m)"
      by (simp add: frame_at_def last_conv_nth)
    ultimately show ?thesis by simp
  qed
  have L: "length ?ctx = 4 * kQposDim"
    using concat_rows_nth(1)[of "context_row m gen", OF lens] by (simp add: kContextFrames_def)
  have "update_context_from_motion m gen = Some ?ctx"
    using assms(2) by (simp add: update_context_from_motion_def)
  then show ?thesis using L J Q E parts by (intro exI[of _ ?ctx]) (simp add: row)
qed

lemma context_within_motion_witness:
  "\<exists>ctx. update_context_from_motion (resize 3 motion_empty) 7 = Some ctx \<and> length ctx = 144
    \<and> unit_quat (row_quat (qpos_row ctx 2))"
proof -
  have "motion_wf (resize 3 motion_empty)" "timesteps (resize 3 motion_empty) = 3"
    "\<forall>f \<in> set (frames (resize 3 motion_empty)). unit_quat (fr_quaternion f)"
    by (simp_all add: motion_wf_def resize_def resize_list_def motion_empty_def frame_default_def
        frame_wf_def planner_dims unit_quat_def quat_norm2_def list_all_iff)
  then show ?thesis
    using context_within_motion[of "resize 3 motion_empty" 2 7 0 0]
    by (auto simp: planner_dims)
qed

end
