(* ===== verification/Planner.thy ===== *)
theory Planner
  imports Input_Handler Motion
begin

text \<open>
  The motion planner (\<open>include/planner/planner_inference.hpp\<close>,
  \<open>src/planner/planner_inference.cpp\<close>): the input tensors, the replan gating, the inference
  and publication of a plan, the initialisation from the measured pose and the 10 Hz loop with
  its reseed tickets. The engine is a parameter: from a context and the input tensors it yields
  the output tensor (\<open>None\<close> marks NaN) and the frame count, or fails to enqueue.
\<close>

section \<open>Tensors and state\<close>

definition kLoopPeriodS :: real where "kLoopPeriodS = 0.1"
definition kReplanIntervalRunning :: real where "kReplanIntervalRunning = 0.1"
definition kReplanIntervalCrawling :: real where "kReplanIntervalCrawling = 0.2"
definition kReplanIntervalBoxing :: real where "kReplanIntervalBoxing = 1.0"
definition kReplanIntervalDefault :: real where "kReplanIntervalDefault = 1.0"
definition kLookAheadSteps :: int where "kLookAheadSteps = 2"

lemmas replan_consts = kLoopPeriodS_def kReplanIntervalRunning_def kReplanIntervalCrawling_def
  kReplanIntervalBoxing_def kReplanIntervalDefault_def

record planner_tensors =
  t_mode :: int
  t_target_vel :: real
  t_height :: real
  t_movement_direction :: vec3
  t_facing_direction :: vec3
  t_random_seed :: int
  t_has_specific_target :: int
  t_specific_target_positions :: "real list"
  t_specific_target_headings :: "real list"
  t_allowed_pred_num_tokens :: "int list"

type_synonym planner_engine =
  "real list \<Rightarrow> planner_tensors \<Rightarrow> (real option list \<times> int) option"

record planner =
  pl_context :: "real list"
  pl_tensors :: planner_tensors
  pl_motion_seq :: motion_seq
  pl_gen_frame :: int
  pl_initialized :: bool
  reinit_requested :: nat
  reinit_done :: nat
  default_height :: real
  current_random_seed :: int
  last_movement_state :: movement_state
  replan_interval_counter :: real
  last_publish :: time
  motion_50hz_buf :: "motion_seq data_buffer"

definition tensors_zero :: planner_tensors where
  "tensors_zero = \<lparr>t_mode = 0, t_target_vel = 0, t_height = 0, t_movement_direction = (0, 0, 0),
     t_facing_direction = (0, 0, 0), t_random_seed = 0, t_has_specific_target = 0,
     t_specific_target_positions = replicate 12 0, t_specific_target_headings = replicate 4 0,
     t_allowed_pred_num_tokens = replicate 11 0\<rparr>"

definition planner_new :: planner where
  "planner_new = \<lparr>pl_context = replicate (kContextFrames * kQposDim) 0, pl_tensors = tensors_zero,
     pl_motion_seq = motion_empty, pl_gen_frame = 0, pl_initialized = False, reinit_requested = 0,
     reinit_done = 0, default_height = 0.788740, current_random_seed = 1234,
     last_movement_state = movement_default, replan_interval_counter = 0, last_publish = 0,
     motion_50hz_buf = buf_empty\<rparr>"

section \<open>Starting\<close>

definition kPlannerInputs :: "string list" where
  "kPlannerInputs = [''context_mujoco_qpos'', ''mode'', ''target_vel'', ''movement_direction'',
     ''facing_direction'', ''random_seed'', ''height'', ''has_specific_target'',
     ''specific_target_positions'', ''specific_target_headings'', ''allowed_pred_num_tokens'']"

definition kPlannerOutputs :: "string list" where
  "kPlannerOutputs = [''mujoco_qpos'', ''num_pred_frames'']"

text \<open>What the engine says of itself: tensor names and shapes.\<close>

record engine_info =
  input_names :: "string list"
  output_names :: "string list"
  tensor_shape :: "string \<Rightarrow> int list option"

definition tensor_dim :: "engine_info \<Rightarrow> string \<Rightarrow> nat" where
  "tensor_dim e name =
     (case tensor_shape e name of None \<Rightarrow> 0
      | Some shape \<Rightarrow> fold (\<lambda>d n. if d > 0 then n * nat d else n) shape 1)"

definition validate_engine :: "engine_info \<Rightarrow> bool" where
  "validate_engine e \<longleftrightarrow>
     list_all (\<lambda>n. n \<in> set (input_names e)) kPlannerInputs \<and>
     list_all (\<lambda>n. n \<in> set (output_names e)) kPlannerOutputs \<and>
     \<not> (tensor_dim e ''context_mujoco_qpos'' \<noteq> kContextFrames * kQposDim \<or>
        tensor_dim e ''mujoco_qpos'' \<noteq> nat kMaxPlannerFrames * kQposDim)"

text \<open>
  \<open>start\<close>: conversion, engine, inputs, validation, stream, each of which may fail; the thread
  is running when it returns \<open>True\<close>.
\<close>

definition planner_start ::
  "bool \<Rightarrow> bool \<Rightarrow> bool \<Rightarrow> engine_info \<Rightarrow> bool \<Rightarrow> real \<Rightarrow> int \<Rightarrow> planner \<Rightarrow> bool \<times> planner" where
  "planner_start converted engine_ok inputs_ok info stream_ok height seed p =
     (let p1 = p\<lparr>default_height := height, current_random_seed := seed\<rparr>
      in if \<not> converted then (False, p1)
         else if \<not> engine_ok then (False, p1)
         else if \<not> inputs_ok then (False, p1)
         else if \<not> validate_engine info then (False, p1)
         else if \<not> stream_ok then (False, p1)
         else (True, p1\<lparr>pl_context := resize_list (kContextFrames * kQposDim) 0 (pl_context p1)\<rparr>))"

section \<open>Planning one motion\<close>

definition set_input_tensors :: "int \<Rightarrow> real \<Rightarrow> real \<Rightarrow> vec3 \<Rightarrow> vec3 \<Rightarrow> planner \<Rightarrow> planner" where
  "set_input_tensors mode target_vel target_height movement facing p =
     p\<lparr>pl_tensors := \<lparr>t_mode = mode, t_target_vel = target_vel, t_height = target_height,
         t_movement_direction = movement, t_facing_direction = facing,
         t_random_seed = current_random_seed p, t_has_specific_target = 0,
         t_specific_target_positions = replicate 12 0, t_specific_target_headings = replicate 4 0,
         t_allowed_pred_num_tokens = (replicate 11 0)[3 := 1, 4 := 1, 5 := 1]\<rparr>\<rparr>"

text \<open>\<open>run_and_publish\<close> at time \<open>now\<close>: whether a plan was published, and the new state.\<close>

definition run_and_publish :: "planner_engine \<Rightarrow> time \<Rightarrow> planner \<Rightarrow> bool \<times> planner" where
  "run_and_publish engine now p =
     (case engine (pl_context p) (pl_tensors p) of
        None \<Rightarrow> (False, p)
      | Some (qpos, num) \<Rightarrow>
          (case resample_30hz_to_50hz qpos num (pl_motion_seq p) of
             None \<Rightarrow> (False, p)
           | Some m \<Rightarrow>
               (let m' = m\<lparr>gen_frame := pl_gen_frame p\<rparr>
                in (True, p\<lparr>pl_motion_seq := m',
                            motion_50hz_buf := set_data now m' (motion_50hz_buf p),
                            last_publish := now\<rparr>))))"

text \<open>The initialisation: an IDLE plan from four copies of the measured pose.\<close>

definition init_prepare :: "real list \<Rightarrow> planner \<Rightarrow> planner" where
  "init_prepare joint_positions p =
     (set_input_tensors (loc_code IDLE) (-1) (-1) (0, 0, 0) (1, 0, 0)
        (p\<lparr>pl_context := initialize_context (default_height p) joint_positions\<rparr>))
       \<lparr>pl_gen_frame := 0\<rparr>"

definition initialize_once ::
  "planner_engine \<Rightarrow> real list option \<Rightarrow> time \<Rightarrow> planner \<Rightarrow> bool \<times> planner" where
  "initialize_once engine state now p =
     (case state of
        None \<Rightarrow> (False, p)
      | Some joint_positions \<Rightarrow>
          (case run_and_publish engine now (init_prepare joint_positions p) of
             (False, p3) \<Rightarrow> (False, p3)
           | (True, p3) \<Rightarrow>
               (True, p3\<lparr>last_movement_state := movement_default,
                         replan_interval_counter := 0, pl_initialized := True\<rparr>)))"

definition is_boxing :: "int \<Rightarrow> bool" where
  "is_boxing mode \<longleftrightarrow> mode = loc_code LEFT_PUNCH \<or> mode = loc_code RIGHT_PUNCH \<or>
     mode = loc_code RANDOM_PUNCH \<or> mode = loc_code LEFT_HOOK \<or> mode = loc_code RIGHT_HOOK"

definition replan_interval :: "int \<Rightarrow> real" where
  "replan_interval mode =
     (if mode = loc_code RUN then kReplanIntervalRunning
      else if mode = loc_code CRAWLING then kReplanIntervalCrawling
      else if is_boxing mode then kReplanIntervalBoxing
      else kReplanIntervalDefault)"

definition need_replan :: "movement_state \<Rightarrow> planner \<Rightarrow> bool \<times> planner" where
  "need_replan ms p =
     (let last = last_movement_state p;
          mode_changed = (locomotion_mode ms \<noteq> locomotion_mode last);
          facing_changed = (facing_direction ms \<noteq> facing_direction last);
          height_changed = (movement_height ms \<noteq> movement_height last);
          speed_changed = (movement_speed ms \<noteq> movement_speed last);
          dir_changed = (movement_direction ms \<noteq> movement_direction last);
          time_to_replan = (replan_interval_counter p \<ge> replan_interval (locomotion_mode ms));
          p' = (if time_to_replan then p\<lparr>replan_interval_counter := 0\<rparr> else p)
      in (if mode_changed \<or> facing_changed \<or> height_changed then True
          else \<not> is_static_motion_mode (locomotion_mode ms) \<and>
               (speed_changed \<or> dir_changed \<or> (time_to_replan \<and> movement_speed ms \<noteq> 0)),
          p'))"

section \<open>The loop\<close>

text \<open>
  What one tick reads: its start time, the publication time, the measured joints, the movement
  command and the snapshot of the playback provider.
\<close>

record planner_in =
  pi_now :: time
  pi_publish :: time
  pi_state :: "real list option"
  pi_movement :: "movement_state option"
  pi_snapshot :: "(motion_seq \<times> int) option"

definition request_reinit :: "planner \<Rightarrow> nat \<times> planner" where
  "request_reinit p = (reinit_requested p + 1, p\<lparr>reinit_requested := reinit_requested p + 1\<rparr>)"

text \<open>The context source: the controller's playback, else the last plan and the wall clock.\<close>

definition sample_context :: "planner_in \<Rightarrow> planner \<Rightarrow> planner option" where
  "sample_context i p =
     (let (m, g) = (case pi_snapshot i of
             Some (snapshot, cursor) \<Rightarrow> (snapshot, cursor + kLookAheadSteps)
           | None \<Rightarrow> (pl_motion_seq p,
                trunc_real (real_of_int (pi_now i - last_publish p) / 1000000000 * 50)
                  + kLookAheadSteps))
      in case update_context_from_motion m g of
           None \<Rightarrow> None
         | Some ctx \<Rightarrow> Some (p\<lparr>pl_gen_frame := g, pl_context := ctx\<rparr>))"

text \<open>One pass of the loop; \<open>None\<close> is a read outside a motion.\<close>

definition planner_tick :: "planner_engine \<Rightarrow> planner_in \<Rightarrow> planner \<Rightarrow> planner option" where
  "planner_tick engine i p0 =
     (let req = reinit_requested p0;
          p1 = (if req \<noteq> reinit_done p0 \<and> pl_initialized p0
                then p0\<lparr>motion_50hz_buf := clear_buf (motion_50hz_buf p0), pl_initialized := False\<rparr>
                else p0)
      in if \<not> pl_initialized p1 then
           (case initialize_once engine (pi_state i) (pi_publish i) p1 of
              (True, p2) \<Rightarrow> Some (p2\<lparr>reinit_done := req\<rparr>)
            | (False, p2) \<Rightarrow> Some p2)
         else let p2 = p1\<lparr>replan_interval_counter := replan_interval_counter p1 + kLoopPeriodS\<rparr>
         in case pi_movement i of
              None \<Rightarrow> Some p2
            | Some ms \<Rightarrow>
                (case need_replan ms p2 of
                   (False, p3) \<Rightarrow> Some p3
                 | (True, p3) \<Rightarrow>
                     (let p4 = set_input_tensors (locomotion_mode ms) (movement_speed ms)
                                 (movement_height ms) (movement_direction ms) (facing_direction ms)
                                 (p3\<lparr>last_movement_state := ms\<rparr>)
                      in case sample_context i p4 of
                           None \<Rightarrow> None
                         | Some p5 \<Rightarrow> Some (snd (run_and_publish engine (pi_publish i) p5)))))"

datatype planner_event = PTick planner_in | PRequest

fun planner_step :: "planner_engine \<Rightarrow> planner_event \<Rightarrow> planner \<Rightarrow> planner option" where
  "planner_step engine (PTick i) p = planner_tick engine i p"
| "planner_step engine PRequest p = Some (snd (request_reinit p))"

fun planner_run :: "planner_engine \<Rightarrow> planner_event list \<Rightarrow> planner \<Rightarrow> planner option" where
  "planner_run engine [] p = Some p"
| "planner_run engine (e # es) p =
     (case planner_step engine e p of None \<Rightarrow> None | Some p' \<Rightarrow> planner_run engine es p')"

section \<open>The planner's invariant\<close>

definition planner_inv :: "planner \<Rightarrow> bool" where
  "planner_inv p \<longleftrightarrow> motion_wf (pl_motion_seq p) \<and> timesteps (pl_motion_seq p) \<le> 106 \<and>
     length (pl_context p) = 144 \<and> reinit_done p \<le> reinit_requested p \<and>
     (if pl_initialized p then 2 \<le> timesteps (pl_motion_seq p) \<and>
        get_data (motion_50hz_buf p) = Some (pl_motion_seq p)
      else get_data (motion_50hz_buf p) = None)"

text \<open>What the planner may rely on: 29 measured joints, a non-empty sound playback.\<close>

definition planner_in_ok :: "planner_in \<Rightarrow> bool" where
  "planner_in_ok i \<longleftrightarrow> (\<forall>q. pi_state i = Some q \<longrightarrow> length q = 29) \<and>
     (\<forall>m c. pi_snapshot i = Some (m, c) \<longrightarrow> motion_wf m \<and> 0 < timesteps m)"

fun planner_event_ok :: "planner_event \<Rightarrow> bool" where
  "planner_event_ok (PTick i) = planner_in_ok i"
| "planner_event_ok PRequest = True"

lemma planner_inv_new: "planner_inv planner_new"
  by (simp add: planner_inv_def planner_new_def get_data_def buf_empty_def planner_dims
      motion_empty_def motion_wf_def)

lemma length_initialize_context:
  "length q = 29 \<Longrightarrow> length (initialize_context h q) = 144"
  by (simp add: initialize_context_def kContextFrames_def upt_rec)

lemma length_update_context:
  assumes "motion_wf m" "0 < timesteps m" "update_context_from_motion m g = Some ctx"
  shows "length ctx = 144"
proof -
  have "length (context_row m g n) = kQposDim" for n
    using context_row_parts(1)[OF assms(1,2)] by (metis prod_cases3)
  from concat_rows_nth(1)[of "context_row m g", OF this] show ?thesis
    using assms(3) by (auto simp: update_context_from_motion_def planner_dims split: if_splits)
qed

text \<open>Publishing either leaves the state or installs one sound sequence everywhere.\<close>

lemma run_and_publish_cases:
  assumes "run_and_publish engine now p = (ok, p')"
  obtains "\<not> ok" "p' = p"
  | m where "ok" "motion_wf m" "2 \<le> timesteps m" "timesteps m \<le> 106" "gen_frame m = pl_gen_frame p"
      "p' = p\<lparr>pl_motion_seq := m, motion_50hz_buf := set_data now m (motion_50hz_buf p),
              last_publish := now\<rparr>"
proof -
  show thesis
  proof (cases "engine (pl_context p) (pl_tensors p)")
    case None
    with assms show thesis by (intro that(1)) (simp_all add: run_and_publish_def)
  next
    case (Some r)
    obtain qpos num where r: "r = (qpos, num)" by (cases r)
    show thesis
    proof (cases "resample_30hz_to_50hz qpos num (pl_motion_seq p)")
      case None
      with assms Some r show thesis by (intro that(1)) (simp_all add: run_and_publish_def)
    next
      fix m assume m: "resample_30hz_to_50hz qpos num (pl_motion_seq p) = Some m"
      have wf: "motion_wf m" "2 \<le> timesteps m" "timesteps m = 5 * num div 3" "num \<le> 64"
        using resample_wf[OF m] by simp_all
      then have "motion_wf (m\<lparr>gen_frame := pl_gen_frame p\<rparr>)" by (simp add: motion_wf_def)
      moreover have "timesteps m \<le> 106" using wf(3,4) by linarith
      ultimately show thesis
        using wf m assms Some r by (intro that(2)[of "m\<lparr>gen_frame := pl_gen_frame p\<rparr>"])
          (simp_all add: run_and_publish_def Let_def)
    qed
  qed
qed

lemma set_input_tensors_keeps [simp]:
  "pl_motion_seq (set_input_tensors a b c d e p) = pl_motion_seq p"
  "pl_context (set_input_tensors a b c d e p) = pl_context p"
  "motion_50hz_buf (set_input_tensors a b c d e p) = motion_50hz_buf p"
  "pl_initialized (set_input_tensors a b c d e p) = pl_initialized p"
  "reinit_done (set_input_tensors a b c d e p) = reinit_done p"
  "reinit_requested (set_input_tensors a b c d e p) = reinit_requested p"
  "last_publish (set_input_tensors a b c d e p) = last_publish p"
  "last_movement_state (set_input_tensors a b c d e p) = last_movement_state p"
  by (simp_all add: set_input_tensors_def)

lemma need_replan_keeps:
  assumes "need_replan ms p = (b, p')"
  shows "p' = p \<or> p' = p\<lparr>replan_interval_counter := 0\<rparr>"
  using assms by (auto simp: need_replan_def Let_def)

lemma initialize_once_inv:
  assumes "planner_inv p" "\<not> pl_initialized p" "\<forall>q. state = Some q \<longrightarrow> length q = 29"
    and "initialize_once engine state now p = (ok, p')"
  shows "planner_inv p' \<and> pl_initialized p' = ok \<and> reinit_requested p' = reinit_requested p
    \<and> reinit_done p' = reinit_done p"
proof (cases state)
  case None
  with assms show ?thesis by (simp add: initialize_once_def)
next
  case (Some q)
  define p2 where "p2 = init_prepare q p"
  have inv2: "planner_inv p2" "\<not> pl_initialized p2" "reinit_requested p2 = reinit_requested p"
    "reinit_done p2 = reinit_done p"
    using assms(1-3) Some by (simp_all add: planner_inv_def p2_def init_prepare_def length_initialize_context)
  obtain b p3 where r: "run_and_publish engine now p2 = (b, p3)" by fastforce
  have res: "(ok, p') = (b, if b then p3\<lparr>last_movement_state := movement_default,
      replan_interval_counter := 0, pl_initialized := True\<rparr> else p3)"
    using assms(4) r by (auto simp: initialize_once_def Some p2_def split: bool.splits)
  from r show ?thesis
    by (rule run_and_publish_cases) (use res inv2 in \<open>auto simp: planner_inv_def\<close>)
qed

lemma sample_context_inv:
  assumes "planner_inv p" "pl_initialized p" "planner_in_ok i"
  obtains m g ctx where "sample_context i p = Some (p\<lparr>pl_gen_frame := g, pl_context := ctx\<rparr>)"
    "update_context_from_motion m g = Some ctx" "length ctx = 144"
    "(m, g) = (case pi_snapshot i of Some (s, c) \<Rightarrow> (s, c + kLookAheadSteps)
       | None \<Rightarrow> (pl_motion_seq p, trunc_real (real_of_int (pi_now i - last_publish p)
            / 1000000000 * 50) + kLookAheadSteps))"
proof -
  define m where "m = (case pi_snapshot i of Some (s, c) \<Rightarrow> s | None \<Rightarrow> pl_motion_seq p)"
  define g where "g = (case pi_snapshot i of Some (s, c) \<Rightarrow> c + kLookAheadSteps
    | None \<Rightarrow> trunc_real (real_of_int (pi_now i - last_publish p) / 1000000000 * 50) + kLookAheadSteps)"
  have mg: "(m, g) = (case pi_snapshot i of Some (s, c) \<Rightarrow> (s, c + kLookAheadSteps)
       | None \<Rightarrow> (pl_motion_seq p, trunc_real (real_of_int (pi_now i - last_publish p)
            / 1000000000 * 50) + kLookAheadSteps))"
    by (auto simp: m_def g_def split: option.split)
  have m: "motion_wf m" "0 < timesteps m"
    using assms by (auto simp: m_def planner_inv_def planner_in_ok_def split: option.split)
  then obtain ctx where ctx: "update_context_from_motion m g = Some ctx"
    by (simp add: update_context_from_motion_def)
  have "sample_context i p = Some (p\<lparr>pl_gen_frame := g, pl_context := ctx\<rparr>)"
    unfolding sample_context_def mg[symmetric] by (simp add: ctx)
  from that[OF this ctx length_update_context[OF m ctx] mg] show thesis .
qed

lemma planner_inv_context:
  "planner_inv p \<Longrightarrow> length ctx = 144 \<Longrightarrow> planner_inv (p\<lparr>pl_gen_frame := g, pl_context := ctx\<rparr>)"
  by (simp add: planner_inv_def)

lemma planner_inv_tensors:
  "planner_inv p \<Longrightarrow> planner_inv (set_input_tensors a b c d e (p\<lparr>last_movement_state := ms\<rparr>))"
  by (simp add: planner_inv_def)

lemma run_and_publish_inv:
  assumes "planner_inv p" "pl_initialized p"
  shows "planner_inv (snd (run_and_publish engine now p))
    \<and> pl_initialized (snd (run_and_publish engine now p))"
proof -
  obtain b p' where r: "run_and_publish engine now p = (b, p')" by fastforce
  from r show ?thesis
    by (rule run_and_publish_cases) (use r assms in \<open>auto simp: planner_inv_def\<close>)
qed

lemma planner_tick_inv:
  assumes "planner_inv p" "planner_in_ok i"
  shows "\<exists>p'. planner_tick engine i p = Some p' \<and> planner_inv p'"
proof -
  define p1 where "p1 = (if reinit_requested p \<noteq> reinit_done p \<and> pl_initialized p
      then p\<lparr>motion_50hz_buf := clear_buf (motion_50hz_buf p), pl_initialized := False\<rparr> else p)"
  have inv1: "planner_inv p1" "reinit_requested p1 = reinit_requested p" "reinit_done p1 = reinit_done p"
    using assms(1) by (simp_all add: planner_inv_def p1_def)
  note unf = planner_tick_def p1_def[symmetric] Let_def
  show ?thesis
  proof (cases "pl_initialized p1")
    case False
    obtain ok p2 where r: "initialize_once engine (pi_state i) (pi_publish i) p1 = (ok, p2)" by fastforce
    have "planner_inv p2 \<and> reinit_requested p2 = reinit_requested p"
      using initialize_once_inv[OF inv1(1) False _ r] inv1 assms(2) by (simp add: planner_in_ok_def)
    then show ?thesis using False r by (cases ok) (auto simp: unf planner_inv_def)
  next
    case True
    define p2 where "p2 = p1\<lparr>replan_interval_counter := replan_interval_counter p1 + kLoopPeriodS\<rparr>"
    have inv2: "planner_inv p2" "pl_initialized p2"
      using inv1 True by (simp_all add: planner_inv_def p2_def)
    show ?thesis
    proof (cases "pi_movement i")
      case None
      with True inv2 show ?thesis by (simp add: unf p2_def)
    next
      case (Some ms)
      obtain b p3 where n: "need_replan ms p2 = (b, p3)" by fastforce
      have inv3: "planner_inv p3" "pl_initialized p3"
        using need_replan_keeps[OF n] inv2 by (auto simp: planner_inv_def)
      define p4 where "p4 = set_input_tensors (locomotion_mode ms) (movement_speed ms)
          (movement_height ms) (movement_direction ms) (facing_direction ms)
          (p3\<lparr>last_movement_state := ms\<rparr>)"
      have inv4: "planner_inv p4" "pl_initialized p4"
        using planner_inv_tensors[OF inv3(1)] inv3(2) by (simp_all add: p4_def)
      obtain m g ctx where s: "sample_context i p4 = Some (p4\<lparr>pl_gen_frame := g, pl_context := ctx\<rparr>)"
          "length ctx = 144"
        using sample_context_inv[OF inv4 assms(2)] by metis
      have "planner_inv (snd (run_and_publish engine (pi_publish i)
          (p4\<lparr>pl_gen_frame := g, pl_context := ctx\<rparr>)))"
        using run_and_publish_inv[OF planner_inv_context[OF inv4(1) s(2)]] inv4(2) by simp
      then show ?thesis
        using True Some n inv3 s(1) by (cases b) (simp_all add: unf flip: p2_def p4_def)
    qed
  qed
qed

lemma planner_run_inv:
  "planner_inv p \<Longrightarrow> list_all planner_event_ok es \<Longrightarrow>
   \<exists>p'. planner_run engine es p = Some p' \<and> planner_inv p'"
proof (induction es arbitrary: p)
  case (Cons e es)
  have "\<exists>p1. planner_step engine e p = Some p1 \<and> planner_inv p1"
  proof (cases e)
    case (PTick i)
    then show ?thesis using planner_tick_inv[of p i engine] Cons.prems by simp
  next
    case PRequest
    then show ?thesis using Cons.prems(1) by (simp add: request_reinit_def planner_inv_def)
  qed
  then show ?case using Cons by auto
qed simp



section \<open>Replanning\<close>

definition changed_pose :: "movement_state \<Rightarrow> movement_state \<Rightarrow> bool" where
  "changed_pose a b \<longleftrightarrow> locomotion_mode a \<noteq> locomotion_mode b \<or>
     facing_direction a \<noteq> facing_direction b \<or> movement_height a \<noteq> movement_height b"

lemma need_replan_fst:
  "fst (need_replan ms p) \<longleftrightarrow> changed_pose ms (last_movement_state p) \<or>
     \<not> is_static_motion_mode (locomotion_mode ms) \<and>
     (movement_speed ms \<noteq> movement_speed (last_movement_state p) \<or>
      movement_direction ms \<noteq> movement_direction (last_movement_state p) \<or>
      replan_interval (locomotion_mode ms) \<le> replan_interval_counter p \<and> movement_speed ms \<noteq> 0)"
  by (simp add: need_replan_def Let_def changed_pose_def)

text \<open>A running planner without a pending ticket.\<close>

definition running :: "planner \<Rightarrow> bool" where
  "running p \<longleftrightarrow> pl_initialized p \<and> reinit_requested p = reinit_done p"

definition counted :: "planner \<Rightarrow> planner" where
  "counted p = p\<lparr>replan_interval_counter := replan_interval_counter p + kLoopPeriodS\<rparr>"

definition commanded :: "movement_state \<Rightarrow> planner \<Rightarrow> planner" where
  "commanded ms p = set_input_tensors (locomotion_mode ms) (movement_speed ms)
     (movement_height ms) (movement_direction ms) (facing_direction ms)
     (p\<lparr>last_movement_state := ms\<rparr>)"

lemma running_tick:
  assumes "running p" "pi_movement i = Some ms"
  shows "planner_tick engine i p =
     (if fst (need_replan ms (counted p)) then
        (case sample_context i (commanded ms (snd (need_replan ms (counted p)))) of
           None \<Rightarrow> None
         | Some p5 \<Rightarrow> Some (snd (run_and_publish engine (pi_publish i) p5)))
      else Some (snd (need_replan ms (counted p))))"
  using assms
  by (simp add: planner_tick_def running_def counted_def commanded_def Let_def split_beta
      split: bool.split)

lemma commanded_keeps [simp]:
  "pl_initialized (commanded ms p) = pl_initialized p"
  "motion_50hz_buf (commanded ms p) = motion_50hz_buf p"
  "reinit_requested (commanded ms p) = reinit_requested p"
  "reinit_done (commanded ms p) = reinit_done p"
  "last_movement_state (commanded ms p) = ms"
  "pl_motion_seq (commanded ms p) = pl_motion_seq p"
  "last_publish (commanded ms p) = last_publish p"
  by (simp_all add: commanded_def set_input_tensors_def)

lemma counted_keeps [simp]:
  "running (counted p) = running p" "planner_inv (counted p) = planner_inv p"
  "motion_50hz_buf (counted p) = motion_50hz_buf p"
  "last_movement_state (counted p) = last_movement_state p"
  "pl_motion_seq (counted p) = pl_motion_seq p"
  "last_publish (counted p) = last_publish p"
  by (simp_all add: counted_def running_def planner_inv_def)

lemma need_replan_snd [simp]:
  "running (snd (need_replan ms p)) = running p"
  "planner_inv (snd (need_replan ms p)) = planner_inv p"
  "motion_50hz_buf (snd (need_replan ms p)) = motion_50hz_buf p"
  "last_movement_state (snd (need_replan ms p)) = last_movement_state p"
  "pl_motion_seq (snd (need_replan ms p)) = pl_motion_seq p"
  "last_publish (snd (need_replan ms p)) = last_publish p"
  using need_replan_keeps[of ms p "fst (need_replan ms p)" "snd (need_replan ms p)"]
  by (auto simp: running_def planner_inv_def)

lemma run_and_publish_keeps:
  "running (snd (run_and_publish e now p)) = running p"
  "last_movement_state (snd (run_and_publish e now p)) = last_movement_state p"
  by (auto simp: run_and_publish_def running_def Let_def split: option.split)

lemma sample_context_keeps:
  assumes "sample_context i p = Some p'"
  shows "running p' = running p" "last_movement_state p' = last_movement_state p"
    "motion_50hz_buf p' = motion_50hz_buf p"
  using assms by (auto simp: sample_context_def running_def Let_def split: option.splits prod.splits)

text \<open>A static command that is the last one planned: the pass does nothing but count.\<close>

lemma static_tick_quiet:
  assumes "running p" "is_static_motion_mode (locomotion_mode ms)" "pi_movement i = Some ms"
    and "\<not> changed_pose ms (last_movement_state p)" "planner_tick engine i p = Some p'"
  shows "running p' \<and> last_movement_state p' = last_movement_state p
    \<and> motion_50hz_buf p' = motion_50hz_buf p"
  using assms(5) unfolding running_tick[OF assms(1,3)]
  using assms(1,2,4) by (auto simp: need_replan_fst)

lemma static_run_quiet:
  assumes "running p" "is_static_motion_mode (locomotion_mode ms)"
    and "\<not> changed_pose ms (last_movement_state p)"
    and "\<forall>e \<in> set es. \<exists>i. e = PTick i \<and> pi_movement i = Some ms" "planner_run engine es p = Some p'"
  shows "motion_50hz_buf p' = motion_50hz_buf p"
  using assms
proof (induction es arbitrary: p)
  case (Cons e es)
  obtain i where i: "e = PTick i" "pi_movement i = Some ms" using Cons.prems(4) by auto
  obtain p1 where t: "planner_tick engine i p = Some p1" and r: "planner_run engine es p1 = Some p'"
    using Cons.prems(5) i(1) by (auto split: option.splits)
  note q = static_tick_quiet[OF Cons.prems(1,2) i(2) Cons.prems(3) t]
  show ?case using Cons.IH[OF _ Cons.prems(2) _ _ r] q Cons.prems(3,4) by auto
qed simp

text \<open>
  A static command (standing, squatting, kneeling, lying, boxing stance) is planned once:
  as long as the command stays the same the published motion is left alone by every later pass,
  whatever the engine would answer. In particular a static command whose single inference
  failed is never tried again: the plan made for the previous command stays published.
\<close>
theorem static_command_planned_once:
  assumes "running p" "is_static_motion_mode (locomotion_mode ms)"
    and "pi_movement i = Some ms" "planner_tick engine i p = Some p1"
    and "\<forall>e \<in> set es. \<exists>j. e = PTick j \<and> pi_movement j = Some ms"
    and "planner_run engine' es p1 = Some p2"
  shows "motion_50hz_buf p2 = motion_50hz_buf p1
    \<and> ((\<forall>ctx t. engine ctx t = None) \<longrightarrow> motion_50hz_buf p2 = motion_50hz_buf p)"
proof -
  note t = running_tick[OF assms(1,3), of engine]
  have p1: "running p1 \<and> \<not> changed_pose ms (last_movement_state p1)
      \<and> ((\<forall>ctx t. engine ctx t = None) \<longrightarrow> motion_50hz_buf p1 = motion_50hz_buf p)"
  proof (cases "fst (need_replan ms (counted p))")
    case False
    then have "p1 = snd (need_replan ms (counted p))" using assms(4) t by simp
    with False assms(1,2) show ?thesis by (simp add: need_replan_fst)
  next
    case True
    then obtain p5 where s: "sample_context i (commanded ms (snd (need_replan ms (counted p)))) = Some p5"
      and p1: "p1 = snd (run_and_publish engine (pi_publish i) p5)"
      using assms(4) t by (auto split: option.splits)
    have "running (commanded ms (snd (need_replan ms (counted p))))"
      using assms(1) by (simp add: running_def flip: need_replan_snd(1)[of ms "counted p"])
        (simp add: running_def need_replan_def counted_def Let_def)
    with sample_context_keeps[OF s] have "running p1" "last_movement_state p1 = ms"
      unfolding p1 by (simp_all add: run_and_publish_keeps)
    moreover have "motion_50hz_buf p1 = motion_50hz_buf p" if "\<forall>ctx t. engine ctx t = None"
      using that sample_context_keeps(3)[OF s] unfolding p1 by (simp add: run_and_publish_def)
    ultimately show ?thesis by (simp add: changed_pose_def)
  qed
  with static_run_quiet[OF _ assms(2) _ assms(5,6)] show ?thesis by metis
qed

text \<open>A planner at work on a short standing motion, for the witnesses.\<close>

definition sample_planner :: planner where
  "sample_planner = planner_new\<lparr>pl_initialized := True, pl_motion_seq := resize 3 motion_empty,
     motion_50hz_buf := set_data 0 (resize 3 motion_empty) buf_empty\<rparr>"

definition sample_in :: "movement_state \<Rightarrow> planner_in" where
  "sample_in ms = \<lparr>pi_now = 100, pi_publish = 200, pi_state = Some (replicate 29 0),
     pi_movement = Some ms, pi_snapshot = None\<rparr>"

lemma sample_planner_inv: "planner_inv sample_planner" "running sample_planner"
  by (simp_all add: sample_planner_def planner_inv_def planner_new_def running_def resize_def
      motion_empty_def motion_wf_def resize_list_def frame_default_def frame_wf_def planner_dims
      list_all_iff)

lemma sample_in_ok: "planner_in_ok (sample_in ms)"
  by (simp add: sample_in_def planner_in_ok_def)

definition turned :: movement_state where
  "turned = movement_default\<lparr>facing_direction := (0, 1, 0)\<rparr>"

lemma static_command_planned_once_witness:
  "\<exists>p1 p2. planner_tick (\<lambda>c t. None) (sample_in turned) sample_planner = Some p1
    \<and> planner_run (\<lambda>c t. Some (map Some (replicate 2304 0), 9)) [PTick (sample_in turned)] p1 = Some p2
    \<and> motion_50hz_buf p2 = motion_50hz_buf sample_planner"
proof -
  let ?bad = "\<lambda>c t. None" and ?good = "\<lambda>c t. Some (map Some (replicate 2304 0), 9)"
  obtain p1 where p1: "planner_tick ?bad (sample_in turned) sample_planner = Some p1" "planner_inv p1"
    using planner_tick_inv[OF sample_planner_inv(1) sample_in_ok] by blast
  obtain p2 where p2: "planner_run ?good [PTick (sample_in turned)] p1 = Some p2"
    using planner_run_inv[OF p1(2), of "[PTick (sample_in turned)]" ?good] sample_in_ok by auto
  have "is_static_motion_mode (locomotion_mode turned)"
    by (simp add: turned_def movement_default_def is_static_motion_mode_def)
  moreover have "pi_movement (sample_in turned) = Some turned" by (simp add: sample_in_def)
  ultimately have "motion_50hz_buf p2 = motion_50hz_buf sample_planner"
    using static_command_planned_once[OF sample_planner_inv(2) _ _ p1(1) _ p2] by auto
  with p1(1) p2 show ?thesis by blast
qed

text \<open>
  A command that changes the mode, the facing or the height is planned by the very next
  pass, and so is any change of speed or direction of a moving mode: when the inference
  succeeds, the motion published is the engine's answer to the tensors of that command, in the
  context sampled two frames ahead of the controller's playback, and it says so in the frame it
  is to be blended in at.
\<close>
theorem changed_command_is_planned:
  assumes "planner_inv p" "running p" "pi_movement i = Some ms"
    and "changed_pose ms (last_movement_state p) \<or> \<not> is_static_motion_mode (locomotion_mode ms) \<and>
          (movement_speed ms, movement_direction ms) \<noteq>
          (movement_speed (last_movement_state p), movement_direction (last_movement_state p))"
    and "pi_snapshot i = Some (snap, cursor)" "motion_wf snap" "0 < timesteps snap"
    and "update_context_from_motion snap (cursor + 2) = Some ctx"
    and "\<And>t. t_mode t = locomotion_mode ms \<Longrightarrow> t_target_vel t = movement_speed ms \<Longrightarrow>
          t_height t = movement_height ms \<Longrightarrow> t_movement_direction t = movement_direction ms \<Longrightarrow>
          t_facing_direction t = facing_direction ms \<Longrightarrow> engine ctx t = Some (qpos, num)"
    and "resample_30hz_to_50hz qpos num (pl_motion_seq p) = Some m"
  shows "\<exists>p'. planner_tick engine i p = Some p' \<and> last_movement_state p' = ms \<and>
    get_data_with_time (motion_50hz_buf p') =
      \<lparr>ts_data = Some (m\<lparr>gen_frame := cursor + 2\<rparr>), ts_time = pi_publish i\<rparr>"
proof -
  let ?p4 = "commanded ms (snd (need_replan ms (counted p)))"
  have yes: "fst (need_replan ms (counted p))" using assms(4) by (auto simp: need_replan_fst)
  have s: "sample_context i ?p4 = Some (?p4\<lparr>pl_gen_frame := cursor + 2, pl_context := ctx\<rparr>)"
    using assms(5,8) by (simp add: sample_context_def kLookAheadSteps_def)
  have e: "engine ctx (pl_tensors ?p4) = Some (qpos, num)"
    by (rule assms(9)) (simp_all add: commanded_def set_input_tensors_def)
  show ?thesis
    unfolding running_tick[OF assms(2,3)]
    using yes s e assms(10) by (simp add: run_and_publish_def Let_def)
qed

lemma changed_command_is_planned_witness:
  "\<exists>ctx m p'. planner_tick (\<lambda>c t. Some (map Some (replicate 2304 0), 9))
        ((sample_in turned)\<lparr>pi_snapshot := Some (resize 3 motion_empty, 1)\<rparr>) sample_planner = Some p'
    \<and> update_context_from_motion (resize 3 motion_empty) 3 = Some ctx
    \<and> get_data_with_time (motion_50hz_buf p') =
        \<lparr>ts_data = Some (m\<lparr>gen_frame := 1 + 2\<rparr>), ts_time = 200\<rparr>"
proof -
  let ?i = "(sample_in turned)\<lparr>pi_snapshot := Some (resize 3 motion_empty, 1)\<rparr>"
  let ?e = "\<lambda>c t. Some (map Some (replicate 2304 (0 :: real)), 9)"
  have wf: "motion_wf (resize 3 motion_empty)" "0 < timesteps (resize 3 motion_empty)"
    using sample_planner_inv by (simp_all add: sample_planner_def planner_inv_def)
  obtain ctx where c: "update_context_from_motion (resize 3 motion_empty) (1 + 2) = Some ctx"
    using wf by (simp add: update_context_from_motion_def)
  obtain m where m: "resample_30hz_to_50hz (map Some (replicate 2304 0)) 9
      (pl_motion_seq sample_planner) = Some m"
    using resample_frames[of 9 "replicate 2304 0"] by auto
  have "\<exists>p'. planner_tick ?e ?i sample_planner = Some p' \<and> last_movement_state p' = turned \<and>
      get_data_with_time (motion_50hz_buf p') =
      \<lparr>ts_data = Some (m\<lparr>gen_frame := 1 + 2\<rparr>), ts_time = pi_publish ?i\<rparr>"
  proof (rule changed_command_is_planned[OF sample_planner_inv _ _ _ wf c _ m])
    show "changed_pose turned (last_movement_state sample_planner) \<or>
        \<not> is_static_motion_mode (locomotion_mode turned) \<and>
        (movement_speed turned, movement_direction turned) \<noteq>
        (movement_speed (last_movement_state sample_planner),
         movement_direction (last_movement_state sample_planner))"
      by (simp add: changed_pose_def turned_def sample_planner_def planner_new_def movement_default_def)
  qed (simp_all add: sample_in_def)
  with c show ?thesis by (auto simp: sample_in_def)
qed

text \<open>
  A reseed starts over from the measured pose: while a ticket is pending (or before the
  first plan) a pass with a robot state and a working engine publishes the engine's answer to
  four copies of the measured joints at the default height under the IDLE command, to be played
  from frame 0, and acknowledges every ticket issued before the pass; a pass without a state or
  with a failing engine acknowledges nothing and leaves the buffer empty.
\<close>
theorem reseed_from_measured_pose:
  assumes "planner_inv p" "reinit_requested p \<noteq> reinit_done p \<or> \<not> pl_initialized p"
    and "planner_tick engine i p = Some p'"
  shows "(\<forall>q qpos num m. pi_state i = Some q \<and>
       engine (initialize_context (default_height p) q)
         \<lparr>t_mode = loc_code IDLE, t_target_vel = -1, t_height = -1, t_movement_direction = (0, 0, 0),
          t_facing_direction = (1, 0, 0), t_random_seed = current_random_seed p,
          t_has_specific_target = 0, t_specific_target_positions = replicate 12 0,
          t_specific_target_headings = replicate 4 0,
          t_allowed_pred_num_tokens = [0, 0, 0, 1, 1, 1, 0, 0, 0, 0, 0]\<rparr> = Some (qpos, num) \<and>
       resample_30hz_to_50hz qpos num (pl_motion_seq p) = Some m \<longrightarrow>
         reinit_done p' = reinit_requested p \<and> running p' \<and>
         last_movement_state p' = movement_default \<and>
         get_data_with_time (motion_50hz_buf p') =
           \<lparr>ts_data = Some (m\<lparr>gen_frame := 0\<rparr>), ts_time = pi_publish i\<rparr>)
    \<and> (pi_state i = None \<or> (\<forall>c t. engine c t = None) \<longrightarrow>
         reinit_done p' = reinit_done p \<and> \<not> pl_initialized p' \<and> get_data (motion_50hz_buf p') = None)"
proof -
  define p1 where "p1 = (if reinit_requested p \<noteq> reinit_done p \<and> pl_initialized p
      then p\<lparr>motion_50hz_buf := clear_buf (motion_50hz_buf p), pl_initialized := False\<rparr> else p)"
  have p1: "\<not> pl_initialized p1" "get_data (motion_50hz_buf p1) = None"
    "reinit_requested p1 = reinit_requested p" "reinit_done p1 = reinit_done p"
    "default_height p1 = default_height p" "current_random_seed p1 = current_random_seed p"
    "pl_motion_seq p1 = pl_motion_seq p"
    using assms(1,2) by (auto simp: p1_def planner_inv_def)
  have tick: "planner_tick engine i p =
     (case initialize_once engine (pi_state i) (pi_publish i) p1 of
        (True, p2) \<Rightarrow> Some (p2\<lparr>reinit_done := reinit_requested p\<rparr>)
      | (False, p2) \<Rightarrow> Some p2)"
    using p1(1) by (simp add: planner_tick_def Let_def flip: p1_def)
  have mask: "(replicate 11 (0 :: int))[3 := 1, 4 := 1, 5 := 1] = [0, 0, 0, 1, 1, 1, 0, 0, 0, 0, 0]"
    by (simp add: eval_nat_numeral)
  show ?thesis
    using assms(3) p1 unfolding tick
    by (auto simp: initialize_once_def init_prepare_def set_input_tensors_def run_and_publish_def
        Let_def mask running_def split: option.splits)
qed

lemma reseed_from_measured_pose_witness:
  "\<exists>p' m. planner_tick (\<lambda>c t. Some (map Some (replicate 2304 0), 9)) (sample_in turned) planner_new
      = Some p'
    \<and> reinit_done p' = 0 \<and> running p' \<and>
    get_data_with_time (motion_50hz_buf p') = \<lparr>ts_data = Some (m\<lparr>gen_frame := 0\<rparr>), ts_time = 200\<rparr>"
proof -
  let ?e = "\<lambda>c t. Some (map Some (replicate 2304 (0 :: real)), 9)"
  obtain p' where p': "planner_tick ?e (sample_in turned) planner_new = Some p'"
    using planner_tick_inv[OF planner_inv_new sample_in_ok] by blast
  obtain m where m: "resample_30hz_to_50hz (map Some (replicate 2304 0)) 9
      (pl_motion_seq planner_new) = Some m"
    using resample_frames[of 9 "replicate 2304 0"] by auto
  have "reinit_requested planner_new \<noteq> reinit_done planner_new \<or> \<not> pl_initialized planner_new"
    "reinit_requested planner_new = 0"
    by (simp_all add: planner_new_def)
  with reseed_from_measured_pose[OF planner_inv_new this(1) p'] m p' show ?thesis
    by (auto simp: sample_in_def)
qed

end
