(* ===== verification/Reseed.thy ===== *)
theory Reseed
  imports Planner
begin

text \<open>
  The reseed protocol between the control loop and the planner loop
  (\<open>src/planner/planner_inference.cpp\<close>, \<open>src/control/whole_body_controller.cpp\<close>), two
  threads that share the published motion, the playback the planner samples and the tickets. A
  motion is abstracted to its lineage: the number of requests that had been made when the pass
  that seeded it from the measured pose began. A step is what one thread does between two
  accesses the other can see.
\<close>

datatype planner_pc =
    Idle                \<comment> \<open>between passes, and before the requests are read\<close>
  | Loaded nat          \<comment> \<open>\<open>reinit_req\<close> read; a pending ticket has cleared the buffer\<close>
  | Published nat       \<comment> \<open>the initial plan is in the buffer, the ticket not yet acknowledged\<close>
  | Inferring nat       \<comment> \<open>a replan in flight from a context of this lineage\<close>

record protocol =
  requested :: nat
  acked :: nat
  ready :: bool               \<comment> \<open>\<open>initialized_\<close>\<close>
  own :: nat                  \<comment> \<open>lineage of the planner's last output\<close>
  buffer :: "nat option"      \<comment> \<open>\<open>motion_50hz_buf\<close>\<close>
  pc :: planner_pc
  playback :: "nat option"    \<comment> \<open>the controller's \<open>playback_motion_\<close>\<close>
  waiting :: "nat option"     \<comment> \<open>\<open>state_reseed_ticket_\<close>, playback discarded\<close>
  recovering :: "nat option"  \<comment> \<open>\<open>reinit_ticket_\<close>, playback frozen\<close>

definition protocol_init :: protocol where
  "protocol_init = \<lparr>requested = 0, acked = 0, ready = False, own = 0, buffer = None, pc = Idle,
     playback = None, waiting = None, recovering = None\<rparr>"

text \<open>The planner loop.\<close>

inductive planner_move :: "protocol \<Rightarrow> protocol \<Rightarrow> bool" where
  load_clear: "pc s = Idle \<Longrightarrow> requested s \<noteq> acked s \<Longrightarrow> ready s \<Longrightarrow>
    planner_move s (s\<lparr>pc := Loaded (requested s), buffer := None, ready := False\<rparr>)"
| load_plain: "pc s = Idle \<Longrightarrow> requested s = acked s \<or> \<not> ready s \<Longrightarrow>
    planner_move s (s\<lparr>pc := Loaded (requested s)\<rparr>)"
| init_publish: "pc s = Loaded r \<Longrightarrow> \<not> ready s \<Longrightarrow>
    planner_move s (s\<lparr>pc := Published r, buffer := Some r, own := r, ready := True\<rparr>)"
| init_fail: "pc s = Loaded r \<Longrightarrow> \<not> ready s \<Longrightarrow> planner_move s (s\<lparr>pc := Idle\<rparr>)"
| acknowledge: "pc s = Published r \<Longrightarrow> planner_move s (s\<lparr>pc := Idle, acked := r\<rparr>)"
| no_replan: "pc s = Loaded r \<Longrightarrow> ready s \<Longrightarrow> planner_move s (s\<lparr>pc := Idle\<rparr>)"
| snapshot: "pc s = Loaded r \<Longrightarrow> ready s \<Longrightarrow> playback s = Some e \<Longrightarrow>
    planner_move s (s\<lparr>pc := Inferring e\<rparr>)"
| no_snapshot: "pc s = Loaded r \<Longrightarrow> ready s \<Longrightarrow> playback s = None \<Longrightarrow>
    planner_move s (s\<lparr>pc := Inferring (own s)\<rparr>)"
| replan: "pc s = Inferring e \<Longrightarrow>
    planner_move s (s\<lparr>pc := Idle, buffer := Some e, own := e\<rparr>)"
| replan_fail: "pc s = Inferring e \<Longrightarrow> planner_move s (s\<lparr>pc := Idle\<rparr>)"

text \<open>
  The control loop: the LowState path drops the playback and holds until its ticket is
  acknowledged; otherwise it adopts or blends what the buffer holds.
\<close>

inductive control_move :: "protocol \<Rightarrow> protocol \<Rightarrow> bool" where
  lowstate_reseed: "control_move s
    (s\<lparr>playback := None, requested := requested s + 1, waiting := Some (requested s + 1)\<rparr>)"
| resume: "waiting s = Some t \<Longrightarrow> t \<le> acked s \<Longrightarrow> control_move s (s\<lparr>waiting := None\<rparr>)"
| adopt: "waiting s = None \<Longrightarrow> recovering s = None \<Longrightarrow> playback s = None \<Longrightarrow> buffer s = Some e \<Longrightarrow>
    control_move s (s\<lparr>playback := Some e\<rparr>)"
| blend: "waiting s = None \<Longrightarrow> recovering s = None \<Longrightarrow> playback s = Some p \<Longrightarrow> buffer s = Some e \<Longrightarrow>
    control_move s (s\<lparr>playback := Some (min p e)\<rparr>)"

text \<open>
  The VLA recovery: the ticket is issued when the standing blend has landed, with the playback
  still in place, and the playback is dropped once the ticket is acknowledged.
\<close>

inductive recovery_move :: "protocol \<Rightarrow> protocol \<Rightarrow> bool" where
  recovery_reseed: "waiting s = None \<Longrightarrow> recovering s = None \<Longrightarrow> recovery_move s
    (s\<lparr>requested := requested s + 1, recovering := Some (requested s + 1)\<rparr>)"
| recovery_done: "waiting s = None \<Longrightarrow> recovering s = Some t \<Longrightarrow> t \<le> acked s \<Longrightarrow> recovery_move s
    (s\<lparr>recovering := None, playback := None\<rparr>)"

inductive reach :: "(protocol \<Rightarrow> protocol \<Rightarrow> bool) \<Rightarrow> protocol \<Rightarrow> bool" for move where
  reach_init: "reach move protocol_init"
| reach_step: "reach move s \<Longrightarrow> move s s' \<Longrightarrow> reach move s'"

definition lowstate_protocol :: "protocol \<Rightarrow> protocol \<Rightarrow> bool" where
  "lowstate_protocol s s' \<longleftrightarrow> planner_move s s' \<or> control_move s s'"

definition full_protocol :: "protocol \<Rightarrow> protocol \<Rightarrow> bool" where
  "full_protocol s s' \<longleftrightarrow> planner_move s s' \<or> control_move s s' \<or> recovery_move s s'"

inductive_simps recovery_move_iff: "recovery_move s s'"

section \<open>The LowState path\<close>

text \<open>Every motion around is at least as young as the last acknowledged ticket.\<close>

definition young :: "protocol \<Rightarrow> nat option \<Rightarrow> bool" where
  "young s x \<longleftrightarrow> (\<forall>e. x = Some e \<longrightarrow> acked s \<le> e)"

definition protocol_inv :: "protocol \<Rightarrow> bool" where
  "protocol_inv s \<longleftrightarrow> acked s \<le> requested s \<and> recovering s = None \<and>
     young s (buffer s) \<and> young s (playback s) \<and> (ready s \<longrightarrow> acked s \<le> own s) \<and>
     (acked s < requested s \<longrightarrow> playback s = None \<and> waiting s = Some (requested s)) \<and>
     (\<not> ready s \<longrightarrow> buffer s = None) \<and>
     (case pc s of
        Idle \<Rightarrow> True
      | Loaded r \<Rightarrow> acked s \<le> r \<and> r \<le> requested s
      | Published r \<Rightarrow> acked s \<le> r \<and> r \<le> requested s \<and> buffer s = Some r \<and> own s = r \<and> ready s
      | Inferring e \<Rightarrow> acked s \<le> e \<and> ready s)"

lemma protocol_inv_init: "protocol_inv protocol_init"
  by (simp add: protocol_inv_def protocol_init_def young_def)

lemma protocol_inv_planner:
  assumes "planner_move s s'" "protocol_inv s"
  shows "protocol_inv s'"
  using assms(1)
proof (cases rule: planner_move.cases)
  case (acknowledge r)
  then have r: "acked s \<le> r" "r \<le> requested s" "buffer s = Some r" "own s = r" "ready s"
    using assms(2) by (simp_all add: protocol_inv_def)
  have "playback s = None" if "acked s < r"
    using that r(2) assms(2) by (simp add: protocol_inv_def)
  then show ?thesis
    using r assms(2) acknowledge by (cases "acked s < r") (auto simp: protocol_inv_def young_def)
next
  case (snapshot r e)
  then show ?thesis using assms(2) by (simp add: protocol_inv_def young_def)
next
  case (init_publish r)
  then show ?thesis using assms(2) by (simp add: protocol_inv_def young_def)
next
  case (replan e)
  then show ?thesis using assms(2) by (simp add: protocol_inv_def young_def)
qed (use assms(2) in \<open>simp_all add: protocol_inv_def young_def\<close>)

lemma protocol_inv_control:
  assumes "control_move s s'" "protocol_inv s"
  shows "protocol_inv s'"
  using assms(1)
proof (cases rule: control_move.cases)
  case lowstate_reseed
  then show ?thesis
    using assms(2) by (cases "pc s") (simp_all add: protocol_inv_def young_def)
next
  case (resume t)
  then show ?thesis
    using assms(2) by (cases "pc s") (simp_all add: protocol_inv_def young_def)
next
  case (adopt e)
  then show ?thesis
    using assms(2) by (cases "pc s") (auto simp: protocol_inv_def young_def)
next
  case (blend p e)
  then show ?thesis
    using assms(2) by (cases "pc s") (auto simp: protocol_inv_def young_def)
qed

lemma protocol_inv_reach: "reach lowstate_protocol s \<Longrightarrow> protocol_inv s"
  by (induction rule: reach.induct)
    (auto simp: lowstate_protocol_def protocol_inv_init intro: protocol_inv_planner protocol_inv_control)

text \<open>
  On the LowState path the ticket is a guarantee: in every interleaving of the two
  threads, once a ticket is acknowledged every motion in the buffer, every playback the
  controller adopts from then on and every replan in flight descends from a measured pose read
  after that ticket was issued; while a ticket is outstanding the controller holds no playback.
\<close>
theorem acknowledged_reseed_is_fresh:
  assumes "reach lowstate_protocol s" "t \<le> acked s"
  shows "(\<forall>e. buffer s = Some e \<longrightarrow> t \<le> e) \<and> (\<forall>e. playback s = Some e \<longrightarrow> t \<le> e)
    \<and> (\<forall>e. pc s = Inferring e \<longrightarrow> t \<le> e)
    \<and> (acked s < requested s \<longrightarrow> playback s = None \<and> waiting s = Some (requested s))"
  using protocol_inv_reach[OF assms(1)] assms(2)
  by (auto simp: protocol_inv_def young_def split: planner_pc.splits)

text \<open>A run of the protocol: startup, adoption, a LowState loss, the reseed.\<close>

lemma reach_planner: "reach lowstate_protocol s \<Longrightarrow> planner_move s s' \<Longrightarrow> reach lowstate_protocol s'"
  by (rule reach_step) (auto simp: lowstate_protocol_def)

lemma reach_control: "reach lowstate_protocol s \<Longrightarrow> control_move s s' \<Longrightarrow> reach lowstate_protocol s'"
  by (rule reach_step) (auto simp: lowstate_protocol_def)

lemma reach_full_planner: "reach full_protocol s \<Longrightarrow> planner_move s s' \<Longrightarrow> reach full_protocol s'"
  by (rule reach_step) (auto simp: full_protocol_def)

lemma reach_full_control: "reach full_protocol s \<Longrightarrow> control_move s s' \<Longrightarrow> reach full_protocol s'"
  by (rule reach_step) (auto simp: full_protocol_def)

lemma reach_full_recovery: "reach full_protocol s \<Longrightarrow> recovery_move s s' \<Longrightarrow> reach full_protocol s'"
  by (rule reach_step) (auto simp: full_protocol_def)

definition at_work :: protocol where
  "at_work = \<lparr>requested = 0, acked = 0, ready = True, own = 0, buffer = Some 0, pc = Idle,
     playback = Some 0, waiting = None, recovering = None\<rparr>"

lemma at_work_reach:
  assumes "\<And>s s'. planner_move s s' \<or> control_move s s' \<Longrightarrow> move s s'"
  shows "reach move at_work"
proof -
  define s1 where "s1 = protocol_init\<lparr>pc := Loaded 0\<rparr>"
  define s2 where "s2 = s1\<lparr>pc := Published 0, buffer := Some 0, own := 0, ready := True\<rparr>"
  define s3 where "s3 = s2\<lparr>pc := Idle, acked := 0\<rparr>"
  have "reach move s1"
    using reach_step[OF reach_init, of move s1] assms load_plain[of protocol_init]
    by (simp add: s1_def protocol_init_def)
  then have "reach move s2"
    using reach_step[of move s1 s2] assms init_publish[of s1 0]
    by (simp add: s2_def s1_def protocol_init_def)
  then have "reach move s3"
    using reach_step[of move s2 s3] assms acknowledge[of s2 0] by (simp add: s3_def s2_def)
  then have "reach move (s3\<lparr>playback := Some 0\<rparr>)"
    using reach_step[of move s3] assms adopt[of s3 0]
    by (simp add: s3_def s2_def s1_def protocol_init_def)
  then show ?thesis by (simp add: at_work_def s3_def s2_def s1_def protocol_init_def)
qed

lemma acknowledged_reseed_is_fresh_witness:
  "let s = \<lparr>requested = 1, acked = 1, ready = True, own = 1, buffer = Some 1, pc = Idle,
         playback = None, waiting = Some 1, recovering = None\<rparr>
   in reach lowstate_protocol s \<and> (\<forall>e. buffer s = Some e \<longrightarrow> 1 \<le> e)"
proof -
  define s1 where "s1 = at_work\<lparr>playback := None, requested := 1, waiting := Some 1\<rparr>"
  define s2 where "s2 = s1\<lparr>pc := Loaded 1, buffer := None, ready := False\<rparr>"
  define s3 where "s3 = s2\<lparr>pc := Published 1, buffer := Some 1, own := 1, ready := True\<rparr>"
  define s4 where "s4 = s3\<lparr>pc := Idle, acked := 1\<rparr>"
  have "reach lowstate_protocol at_work" by (rule at_work_reach) (simp add: lowstate_protocol_def)
  then have "reach lowstate_protocol s1"
    by (rule reach_control) (use lowstate_reseed[of at_work] in \<open>simp add: s1_def at_work_def\<close>)
  then have "reach lowstate_protocol s2"
    by (rule reach_planner) (use load_clear[of s1] in \<open>simp add: s2_def s1_def at_work_def\<close>)
  then have "reach lowstate_protocol s3"
    by (rule reach_planner) (use init_publish[of s2 1] in \<open>simp add: s3_def s2_def\<close>)
  then have "reach lowstate_protocol s4"
    by (rule reach_planner) (use acknowledge[of s3 1] in \<open>simp add: s4_def s3_def\<close>)
  with acknowledged_reseed_is_fresh[OF this, of 1] show ?thesis
    by (simp add: s4_def s3_def s2_def s1_def at_work_def)
qed

section \<open>The VLA recovery path\<close>

text \<open>
  C31: On the VLA recovery path the guarantee fails: some interleaving acknowledges the
  ticket, and before the controller has dropped its playback a replan samples that playback, so
  that a motion published after the acknowledgement descends from the timeline of before the
  ticket, and the controller adopts it as its fresh origin.
\<close>
theorem recovery_reseed_can_be_stale:
  "\<exists>s t. reach full_protocol s \<and> recovering s = Some t \<and> t \<le> acked s \<and> pc s = Idle \<and>
     (\<exists>e < t. buffer s = Some e \<and>
        reach full_protocol (s\<lparr>recovering := None, playback := Some e\<rparr>))"
proof -
  define s1 where "s1 = at_work\<lparr>requested := 1, recovering := Some 1\<rparr>"
  define s2 where "s2 = s1\<lparr>pc := Loaded 1, buffer := None, ready := False\<rparr>"
  define s3 where "s3 = s2\<lparr>pc := Published 1, buffer := Some 1, own := 1, ready := True\<rparr>"
  define s4 where "s4 = s3\<lparr>pc := Idle, acked := 1\<rparr>"
  define s5 where "s5 = s4\<lparr>pc := Loaded 1\<rparr>"
  define s6 where "s6 = s5\<lparr>pc := Inferring 0\<rparr>"
  define s7 where "s7 = s6\<lparr>pc := Idle, buffer := Some 0, own := 0\<rparr>"
  define s8 where "s8 = s7\<lparr>recovering := None, playback := None\<rparr>"
  note defs = s7_def s6_def s5_def s4_def s3_def s2_def s1_def at_work_def
  have "reach full_protocol at_work" by (rule at_work_reach) (auto simp: full_protocol_def)
  then have "reach full_protocol s1"
    by (rule reach_full_recovery) (use recovery_reseed[of at_work] in \<open>simp add: s1_def at_work_def\<close>)
  then have "reach full_protocol s2"
    by (rule reach_full_planner) (use load_clear[of s1] in \<open>simp add: defs\<close>)
  then have "reach full_protocol s3"
    by (rule reach_full_planner) (use init_publish[of s2 1] in \<open>simp add: defs\<close>)
  then have "reach full_protocol s4"
    by (rule reach_full_planner) (use acknowledge[of s3 1] in \<open>simp add: defs\<close>)
  then have "reach full_protocol s5"
    by (rule reach_full_planner) (use load_plain[of s4] in \<open>simp add: defs\<close>)
  then have "reach full_protocol s6"
    by (rule reach_full_planner) (use snapshot[of s5 1 0] in \<open>simp add: defs\<close>)
  then have r7: "reach full_protocol s7"
    by (rule reach_full_planner) (use replan[of s6 0] in \<open>simp add: defs\<close>)
  then have "reach full_protocol s8"
    by (rule reach_full_recovery) (use recovery_done[of s7 1] in \<open>simp add: s8_def defs\<close>)
  then have "reach full_protocol (s8\<lparr>playback := Some 0\<rparr>)"
    by (rule reach_full_control) (use adopt[of s8 0] in \<open>simp add: s8_def defs\<close>)
  then have "reach full_protocol (s7\<lparr>recovering := None, playback := Some 0\<rparr>)"
    by (simp add: s8_def)
  with r7 show ?thesis
    by (intro exI[of _ s7] exI[of _ 1]) (simp add: defs)
qed

end
