(* ===== verification/Policy.thy ===== *)
theory Policy
  imports Motion State_Logger
begin

text \<open>
  The two network stages: the token encoder (\<open>include/control/token_encoder.hpp\<close>,
  \<open>src/control/token_encoder.cpp\<close>), the policy decoder (\<open>src/control/policy_decoder.cpp\<close>)
  and the model wrapper they share (\<open>src/control/obs_dict_model.cpp\<close>). A network is a
  parameter from an observation vector to an output vector or a failure to enqueue.
\<close>

type_synonym network = "real list \<Rightarrow> real list option"

section \<open>ObsDictModel\<close>

text \<open>What loading an engine reports: conversion, initialisation, tensor names and sizes.\<close>

record model_info =
  mi_converted :: bool
  mi_initialized :: bool
  mi_inputs :: "string list"
  mi_outputs :: "string list"
  mi_dim :: "string \<Rightarrow> nat"
  mi_stream :: bool

text \<open>\<open>Initialize\<close>: the sizes of the input and output buffers, or a failure.\<close>

definition obs_dict_initialize :: "model_info \<Rightarrow> string \<Rightarrow> nat \<Rightarrow> nat \<Rightarrow> (nat \<times> nat) option" where
  "obs_dict_initialize mi output_name expected_in expected_out =
     (if \<not> mi_converted mi then None
      else if \<not> mi_initialized mi then None
      else if length (mi_inputs mi) \<noteq> 1 \<or> mi_inputs mi ! 0 \<noteq> ''obs_dict'' \<or>
              length (mi_outputs mi) \<noteq> 1 \<or> mi_outputs mi ! 0 \<noteq> output_name then None
      else let in_dim = mi_dim mi ''obs_dict''; out_dim = mi_dim mi output_name
           in if (expected_in \<noteq> 0 \<and> in_dim \<noteq> expected_in) \<or>
                 (expected_out \<noteq> 0 \<and> out_dim \<noteq> expected_out) then None
              else if \<not> mi_stream mi then None
              else Some (in_dim, out_dim))"

section \<open>TokenEncoder\<close>

definition kInputDim :: nat where "kInputDim = 1751"
definition kTokenDim :: nat where "kTokenDim = 64"
definition kOffEncoderMode :: nat where "kOffEncoderMode = 0"
definition kOffMotionQ :: nat where "kOffMotionQ = 4"
definition kOffMotionDq :: nat where "kOffMotionDq = 294"
definition kOffAnchorOri :: nat where "kOffAnchorOri = 584"
definition kOffAnchorSingle :: nat where "kOffAnchorSingle = 644"
definition kOffLowerQ :: nat where "kOffLowerQ = 650"
definition kOffLowerDq :: nat where "kOffLowerDq = 770"
definition kOffVR3Pos :: nat where "kOffVR3Pos = 890"
definition kOffVR3Orn :: nat where "kOffVR3Orn = 899"
definition kOffSmplJoints :: nat where "kOffSmplJoints = 911"
definition kOffSmplAnchor :: nat where "kOffSmplAnchor = 1631"
definition kOffSmplWrists :: nat where "kOffSmplWrists = 1691"
definition kFutFrames :: nat where "kFutFrames = 10"
definition kFutStep :: int where "kFutStep = 5"

lemmas encoder_offsets = kInputDim_def kTokenDim_def kOffEncoderMode_def kOffMotionQ_def
  kOffMotionDq_def kOffAnchorOri_def kOffAnchorSingle_def kOffLowerQ_def kOffLowerDq_def
  kOffVR3Pos_def kOffVR3Orn_def kOffSmplJoints_def kOffSmplAnchor_def kOffSmplWrists_def
  kFutFrames_def

definition kLowerBodyIdx :: "nat list" where
  "kLowerBodyIdx = [0, 3, 6, 9, 13, 17, 1, 4, 7, 10, 14, 18]"

text \<open>The teleoperation targets: three points, or one frame of the whole body.\<close>

record vr3_point =
  vr3_position :: "real list"
  vr3_orientation :: "real list"

record smpl_pose =
  joints_local :: "vec3 list"
  anchor_quat :: quat
  wrist_joint_pos :: "real list"

definition vr3_wf :: "vr3_point \<Rightarrow> bool" where
  "vr3_wf v \<longleftrightarrow> length (vr3_position v) = 9 \<and> length (vr3_orientation v) = 12"

definition smpl_wf :: "smpl_pose \<Rightarrow> bool" where
  "smpl_wf p \<longleftrightarrow> length (joints_local p) = 24 \<and> length (wrist_joint_pos p) = 6"

definition window_wf :: "smpl_pose list \<Rightarrow> bool" where
  "window_wf w \<longleftrightarrow> length w = 10 \<and> list_all smpl_wf w"

record encoder =
  last_mode :: int
  init_base_quat :: quat
  init_ref_root_rot :: quat
  delta_heading :: real
  reinitialize_heading :: bool

definition encoder_new :: encoder where
  "encoder_new = \<lparr>last_mode = -1, init_base_quat = (1, 0, 0, 0), init_ref_root_rot = (1, 0, 0, 0),
     delta_heading = 0, reinitialize_heading = True\<rparr>"

definition request_heading_reinit :: "encoder \<Rightarrow> encoder" where
  "request_heading_reinit e = e\<lparr>reinitialize_heading := True\<rparr>"

definition target_frame :: "int \<Rightarrow> int \<Rightarrow> int \<Rightarrow> int \<Rightarrow> bool \<Rightarrow> int" where
  "target_frame current_frame frame_idx step n playing =
     (let f = (if playing then min (current_frame + frame_idx * step) (n - 1)
               else current_frame)
      in clamp f 0 (n - 1))"

definition update_heading_state ::
  "motion_seq \<Rightarrow> int \<Rightarrow> state_logger \<Rightarrow> smpl_pose list option \<Rightarrow> encoder \<Rightarrow> encoder" where
  "update_heading_state motion cursor logger smpl e =
     (if timesteps motion = 0 then e
      else let e1 = (if reinitialize_heading e then
                 e\<lparr>init_base_quat := base_quat (get_latest 1 logger ! 0), delta_heading := 0,
                   init_ref_root_rot :=
                     (case smpl of
                        Some w \<Rightarrow> anchor_quat (w ! 0)
                      | None \<Rightarrow> fr_quaternion
                          (frame_at motion (clamp cursor 0 (timesteps motion - 1)))),
                   reinitialize_heading := False\<rparr>
               else e)
           in if smpl = None \<and> cursor = 0
              then e1\<lparr>init_ref_root_rot := fr_quaternion (frame_at motion 0)\<rparr> else e1)"

definition compute_apply_delta_heading :: "encoder \<Rightarrow> quat" where
  "compute_apply_delta_heading e =
     (let init_heading = calc_heading_quat (init_base_quat e);
          data_heading_inv = calc_heading_quat_inv (init_ref_root_rot e);
          apply0 = quat_mul init_heading data_heading_inv
      in if delta_heading e \<noteq> 0 then quat_mul (euler_z_to_quat (delta_heading e)) apply0
         else apply0)"

text \<open>First two columns of a rotation matrix, row-wise.\<close>

definition two_columns :: "mat3 \<Rightarrow> real list" where
  "two_columns m = (case m of ((a, b, _), (c, d, _), (e, f, _)) \<Rightarrow> [a, b, c, d, e, f])"

definition anchor_ref :: "encoder \<Rightarrow> quat \<Rightarrow> quat \<Rightarrow> quat" where
  "anchor_ref e base ref_root =
     (let base_heading_inv = quat_conjugate (calc_heading_quat base);
          new_ref_root_rot = quat_mul (compute_apply_delta_heading e) ref_root
      in quat_mul base_heading_inv new_ref_root_rot)"

definition anchor_orientation :: "encoder \<Rightarrow> quat list \<Rightarrow> quat \<Rightarrow> real list" where
  "anchor_orientation e ref_roots base =
     concat (map (\<lambda>f. two_columns (quat_to_rotation_matrix (anchor_ref e base (ref_roots ! f))))
       [0..<length ref_roots])"

definition playback_roots :: "nat \<Rightarrow> int \<Rightarrow> motion_seq \<Rightarrow> int \<Rightarrow> bool \<Rightarrow> quat list" where
  "playback_roots num_frames step motion cursor playing =
     map (\<lambda>f. fr_quaternion (frame_at motion
            (target_frame cursor (int f) step (timesteps motion) playing)))
       [0..<min num_frames kFutFrames]"

definition future_frame :: "motion_seq \<Rightarrow> int \<Rightarrow> bool \<Rightarrow> nat \<Rightarrow> motion_frame" where
  "future_frame motion cursor playing f =
     frame_at motion (target_frame cursor (int f) kFutStep (timesteps motion) playing)"

text \<open>The observation of each mode, from the zeroed buffer.\<close>

definition obs_smpl :: "encoder \<Rightarrow> quat \<Rightarrow> smpl_pose list \<Rightarrow> real list" where
  "obs_smpl e base w =
     write_at kOffSmplAnchor (anchor_orientation e (map anchor_quat w) base)
       (write_at kOffSmplWrists (concat (map (\<lambda>f. wrist_joint_pos (w ! f)) [0..<kFutFrames]))
         (write_at kOffSmplJoints
           (concat (map (\<lambda>f. concat (map vec3_list (joints_local (w ! f)))) [0..<kFutFrames]))
           (write_at kOffEncoderMode [2] (replicate kInputDim 0))))"

definition obs_g1 :: "encoder \<Rightarrow> quat \<Rightarrow> motion_seq \<Rightarrow> int \<Rightarrow> bool \<Rightarrow> real list" where
  "obs_g1 e base motion cursor playing =
     write_at kOffAnchorOri
       (anchor_orientation e (playback_roots kFutFrames kFutStep motion cursor playing) base)
       (write_at kOffMotionDq
         (concat (map (\<lambda>f. if playing then fr_joint_velocities (future_frame motion cursor playing f)
                           else replicate 29 0) [0..<kFutFrames]))
         (write_at kOffMotionQ
           (concat (map (\<lambda>f. fr_joints (future_frame motion cursor playing f)) [0..<kFutFrames]))
           (write_at kOffEncoderMode [0] (replicate kInputDim 0))))"

definition obs_teleop ::
  "encoder \<Rightarrow> quat \<Rightarrow> motion_seq \<Rightarrow> int \<Rightarrow> bool \<Rightarrow> vr3_point \<Rightarrow> real list" where
  "obs_teleop e base motion cursor playing v =
     write_at kOffVR3Orn (vr3_orientation v)
       (write_at kOffVR3Pos (vr3_position v)
         (write_at kOffAnchorSingle
           (anchor_orientation e (playback_roots 1 1 motion cursor playing) base)
           (write_at kOffLowerDq
             (concat (map (\<lambda>f. if playing
                then gather kLowerBodyIdx (fr_joint_velocities (future_frame motion cursor playing f))
                else replicate 12 0) [0..<kFutFrames]))
             (write_at kOffLowerQ
               (concat (map (\<lambda>f. gather kLowerBodyIdx
                  (fr_joints (future_frame motion cursor playing f))) [0..<kFutFrames]))
               (write_at kOffEncoderMode [1] (replicate kInputDim 0))))))"

definition fill_obs ::
  "motion_seq \<Rightarrow> int \<Rightarrow> bool \<Rightarrow> state_logger \<Rightarrow> vr3_point option \<Rightarrow> smpl_pose list option \<Rightarrow>
   encoder \<Rightarrow> real list" where
  "fill_obs motion cursor playing logger vr3 smpl e =
     (if timesteps motion = 0 then replicate kInputDim 0
      else let base = base_quat (get_latest 1 logger ! 0)
           in case smpl of
                Some w \<Rightarrow> obs_smpl e base w
              | None \<Rightarrow>
                  (case vr3 of
                     None \<Rightarrow> obs_g1 e base motion cursor playing
                   | Some v \<Rightarrow> obs_teleop e base motion cursor playing v))"

definition encoder_mode :: "vr3_point option \<Rightarrow> smpl_pose list option \<Rightarrow> int" where
  "encoder_mode vr3 smpl = (if smpl \<noteq> None then 2 else if vr3 \<noteq> None then 1 else 0)"

definition encoder_step ::
  "network \<Rightarrow> motion_seq \<Rightarrow> int \<Rightarrow> bool \<Rightarrow> state_logger \<Rightarrow> vr3_point option \<Rightarrow>
   smpl_pose list option \<Rightarrow> encoder \<Rightarrow> real list option \<times> encoder" where
  "encoder_step net motion cursor playing logger vr3 smpl e =
     (let e1 = e\<lparr>last_mode := encoder_mode vr3 smpl\<rparr>;
          e2 = update_heading_state motion cursor logger smpl e1
      in (map_option (take kTokenDim) (net (fill_obs motion cursor playing logger vr3 smpl e2)), e2))"

section \<open>PolicyDecoder\<close>

definition kDecoderDim :: nat where "kDecoderDim = 994"
definition kOffAngVel :: nat where "kOffAngVel = 64"
definition kOffHisQ :: nat where "kOffHisQ = 94"
definition kOffHisDq :: nat where "kOffHisDq = 384"
definition kOffHisAction :: nat where "kOffHisAction = 674"
definition kOffGravity :: nat where "kOffGravity = 964"
definition kHistFrames :: nat where "kHistFrames = 10"

lemmas decoder_offsets = kDecoderDim_def kOffAngVel_def kOffHisQ_def kOffHisDq_def
  kOffHisAction_def kOffGravity_def kHistFrames_def

record motor_command =
  q_target :: "real list"
  dq_target :: "real list"
  mc_kp :: "real list"
  mc_kd :: "real list"
  tau_ff :: "real list"

definition motor_command_zero :: motor_command where
  "motor_command_zero = \<lparr>q_target = replicate 29 0, dq_target = replicate 29 0,
     mc_kp = replicate 29 0, mc_kd = replicate 29 0, tau_ff = replicate 29 0\<rparr>"

text \<open>The history part of the observation, written into the model's persistent input.\<close>

definition decoder_obs :: "state_logger \<Rightarrow> real list \<Rightarrow> real list" where
  "decoder_obs logger dst =
     (let hist = get_latest kHistFrames logger;
          block = (\<lambda>g. concat (map (\<lambda>f. g (hist ! f)) [0..<kHistFrames]))
      in write_at kOffGravity (block (\<lambda>e. vec3_list (gravity_in_body_frame (base_quat e))))
           (write_at kOffHisAction (block last_action_obs)
             (write_at kOffHisDq (block body_dq)
               (write_at kOffHisQ (block body_q)
                 (write_at kOffAngVel (block (\<lambda>e. vec3_list (base_ang_vel e))) dst)))))"

record decoder =
  dec_input :: "real list"
  last_action :: "real list"

definition decoder_new :: decoder where
  "decoder_new = \<lparr>dec_input = replicate kDecoderDim 0, last_action = replicate 29 0\<rparr>"

definition action_command :: "real list \<Rightarrow> motor_command" where
  "action_command action = motor_command_zero
     \<lparr>q_target := map (\<lambda>i. g1_default_angles ! i
                             + action ! (isaaclab_to_mujoco ! i) * g1_action_scale ! i) [0..<29],
      mc_kp := map (\<lambda>i. g1_kps ! i) [0..<29],
      mc_kd := map (\<lambda>i. g1_kds ! i) [0..<29]\<rparr>"

definition decoder_step ::
  "network \<Rightarrow> real list \<Rightarrow> state_logger \<Rightarrow> decoder \<Rightarrow> motor_command option \<times> decoder" where
  "decoder_step net token logger d =
     (let obs = decoder_obs logger (write_at 0 token (dec_input d));
          d' = d\<lparr>dec_input := obs\<rparr>
      in case net obs of
           None \<Rightarrow> (None, d')
         | Some action \<Rightarrow>
             (Some (action_command action),
              d'\<lparr>last_action := map (\<lambda>i. action ! i) [0..<29]\<rparr>))"

section \<open>The encoder's observation\<close>

lemma target_frame_range:
  "0 < n \<Longrightarrow> 0 \<le> target_frame c f st n playing \<and> target_frame c f st n playing < n"
  using clamp_lower[of 0 "n - 1"] clamp_upper[of 0 "n - 1"]
  by (simp add: target_frame_def Let_def)

lemma future_frame_wf:
  "motion_wf m \<Longrightarrow> 0 < timesteps m \<Longrightarrow> frame_wf (future_frame m c playing f)"
  by (simp add: future_frame_def frame_at_wf target_frame_range)

lemma length_two_columns [simp]: "length (two_columns m) = 6"
  by (simp add: two_columns_def split: prod.split)

lemma length_blocks:
  assumes "\<And>f. f < k \<Longrightarrow> length (g f) = d"
  shows "length (concat (map g [0..<k])) = k * d"
  using assms by (induction k) simp_all

lemma length_anchor [simp]: "length (anchor_orientation e roots base) = length roots * 6"
  by (simp add: anchor_orientation_def length_blocks)

lemma length_playback_roots [simp]: "length (playback_roots k st m c p) = min k kFutFrames"
  by (simp add: playback_roots_def)

lemma blocks_nth:
  assumes "\<And>f. f < k \<Longrightarrow> length (g f) = d" "n < k" "j < d"
  shows "concat (map g [0..<k]) ! (n * d + j) = g n ! j"
proof -
  define h where "h f = (if f < k then g f else replicate d (g n ! j))" for f
  have "concat (map g [0..<k]) = concat (map h [0..<k])"
    by (intro arg_cong[of _ _ concat] map_cong) (simp_all add: h_def)
  then show ?thesis
    using concat_uniform_nth[of h d n k j] assms by (simp add: h_def)
qed

definition upper_slots :: "int \<Rightarrow> (nat \<times> nat) list" where
  "upper_slots mode =
     (if mode = 0 then [(0, 1), (4, 294), (294, 584), (584, 644)]
      else if mode = 1 then [(0, 1), (644, 650), (650, 770), (770, 890), (890, 899), (899, 911)]
      else [(0, 1), (911, 1631), (1631, 1691), (1691, 1751)])"

text \<open>Whether a slot belongs to a mode, from the documented layout.\<close>

definition in_slots :: "int \<Rightarrow> nat \<Rightarrow> bool" where
  "in_slots mode k \<longleftrightarrow> (\<exists>(a, b) \<in> set (upper_slots mode). a \<le> k \<and> k < b)"

lemma window_lengths:
  assumes "window_wf w"
  shows "length (concat (map (\<lambda>f. wrist_joint_pos (w ! f)) [0..<kFutFrames])) = 60"
    "length (concat (map (\<lambda>f. concat (map vec3_list (joints_local (w ! f)))) [0..<kFutFrames])) = 720"
    "length w = 10"
proof -
  have w: "smpl_wf (w ! f)" if "f < 10" for f
    using assms that by (simp add: window_wf_def list_all_length)
  have "length (concat (map vec3_list xs)) = 3 * length xs" for xs
    by (induction xs) simp_all
  with w show "length (concat (map (\<lambda>f. wrist_joint_pos (w ! f)) [0..<kFutFrames])) = 60"
    "length (concat (map (\<lambda>f. concat (map vec3_list (joints_local (w ! f)))) [0..<kFutFrames])) = 720"
    "length w = 10"
    using assms length_blocks[of kFutFrames "\<lambda>f. wrist_joint_pos (w ! f)" 6]
      length_blocks[of kFutFrames "\<lambda>f. concat (map vec3_list (joints_local (w ! f)))" 72]
    by (simp_all add: kFutFrames_def smpl_wf_def window_wf_def)
qed

lemma motion_lengths:
  assumes "motion_wf m" "0 < timesteps m"
  shows "length (concat (map (\<lambda>f. fr_joints (future_frame m c p f)) [0..<kFutFrames])) = 290"
    "length (concat (map (\<lambda>f. if p then fr_joint_velocities (future_frame m c p f)
        else replicate 29 0) [0..<kFutFrames])) = 290"
    "length (concat (map (\<lambda>f. gather kLowerBodyIdx (fr_joints (future_frame m c p f)))
        [0..<kFutFrames])) = 120"
    "length (concat (map (\<lambda>f. if p then gather kLowerBodyIdx
        (fr_joint_velocities (future_frame m c p f)) else replicate 12 0) [0..<kFutFrames])) = 120"
proof -
  have wf: "length (fr_joints (future_frame m c q f)) = 29"
    "length (fr_joint_velocities (future_frame m c q f)) = 29" for f q
    using future_frame_wf[OF assms] by (simp_all add: frame_wf_def)
  have k: "length kLowerBodyIdx = 12" by (simp add: kLowerBodyIdx_def)
  show "length (concat (map (\<lambda>f. fr_joints (future_frame m c p f)) [0..<kFutFrames])) = 290"
    by (subst length_blocks[where d = 29]) (simp_all add: wf kFutFrames_def)
  show "length (concat (map (\<lambda>f. if p then fr_joint_velocities (future_frame m c p f)
        else replicate 29 0) [0..<kFutFrames])) = 290"
    by (subst length_blocks[where d = 29]) (simp_all add: wf kFutFrames_def)
  show "length (concat (map (\<lambda>f. gather kLowerBodyIdx (fr_joints (future_frame m c p f)))
        [0..<kFutFrames])) = 120"
    by (subst length_blocks[where d = 12]) (simp_all add: k kFutFrames_def)
  show "length (concat (map (\<lambda>f. if p then gather kLowerBodyIdx
        (fr_joint_velocities (future_frame m c p f)) else replicate 12 0) [0..<kFutFrames])) = 120"
    by (subst length_blocks[where d = 12]) (simp_all add: k kFutFrames_def)
qed

lemma obs_g1_nth:
  assumes "motion_wf m" "0 < timesteps m"
  shows "length (obs_g1 e b m c p) = 1751"
    and "k < 1751 \<Longrightarrow> obs_g1 e b m c p ! k =
      (if 584 \<le> k \<and> k < 644 then anchor_orientation e (playback_roots 10 kFutStep m c p) b ! (k - 584)
       else if 294 \<le> k \<and> k < 584 then concat (map (\<lambda>f. if p
           then fr_joint_velocities (future_frame m c p f) else replicate 29 0) [0..<10]) ! (k - 294)
       else if 4 \<le> k \<and> k < 294
         then concat (map (\<lambda>f. fr_joints (future_frame m c p f)) [0..<10]) ! (k - 4)
       else 0)"
  using motion_lengths(1,2)[OF assms, where c = c and p = p]
  by (simp_all add: obs_g1_def write_at_nth encoder_offsets nth_Cons')

lemma obs_teleop_nth:
  assumes "motion_wf m" "0 < timesteps m" "vr3_wf v"
  shows "length (obs_teleop e b m c p v) = 1751"
    and "k < 1751 \<Longrightarrow> obs_teleop e b m c p v ! k =
      (if 899 \<le> k \<and> k < 911 then vr3_orientation v ! (k - 899)
       else if 890 \<le> k \<and> k < 899 then vr3_position v ! (k - 890)
       else if 644 \<le> k \<and> k < 650 then anchor_orientation e (playback_roots 1 1 m c p) b ! (k - 644)
       else if 770 \<le> k \<and> k < 890 then concat (map (\<lambda>f. if p then gather kLowerBodyIdx
           (fr_joint_velocities (future_frame m c p f)) else replicate 12 0) [0..<10]) ! (k - 770)
       else if 650 \<le> k \<and> k < 770 then concat (map (\<lambda>f. gather kLowerBodyIdx
           (fr_joints (future_frame m c p f))) [0..<10]) ! (k - 650)
       else if k = 0 then 1 else 0)"
  using motion_lengths(3,4)[OF assms(1,2), where c = c and p = p] assms(3)
  by (simp_all add: obs_teleop_def write_at_nth encoder_offsets vr3_wf_def nth_Cons')

lemma obs_smpl_nth:
  assumes "window_wf w"
  shows "length (obs_smpl e b w) = 1751"
    and "k < 1751 \<Longrightarrow> obs_smpl e b w ! k =
      (if 1631 \<le> k \<and> k < 1691 then anchor_orientation e (map anchor_quat w) b ! (k - 1631)
       else if 1691 \<le> k \<and> k < 1751
         then concat (map (\<lambda>f. wrist_joint_pos (w ! f)) [0..<10]) ! (k - 1691)
       else if 911 \<le> k \<and> k < 1631
         then concat (map (\<lambda>f. concat (map vec3_list (joints_local (w ! f)))) [0..<10]) ! (k - 911)
       else if k = 0 then 2 else 0)"
  using window_lengths[OF assms]
  by (simp_all add: obs_smpl_def write_at_nth encoder_offsets nth_Cons')

text \<open>
  In every encoder mode the observation has exactly 1751 entries, entry 0 is the mode,
  and every entry outside the blocks of that mode is zero: nothing of a planner motion reaches
  the network in full-body teleoperation, nothing of an operator in planner mode, and no block
  overlaps the next.
\<close>
theorem encoder_modes_are_separate:
  assumes "motion_wf m" "0 < timesteps m" "\<forall>v. vr3 = Some v \<longrightarrow> vr3_wf v"
    and "\<forall>w. smpl = Some w \<longrightarrow> window_wf w"
  shows "length (fill_obs m c p logger vr3 smpl e) = 1751
    \<and> fill_obs m c p logger vr3 smpl e ! 0 = of_int (encoder_mode vr3 smpl)
    \<and> (\<forall>k < 1751. \<not> in_slots (encoder_mode vr3 smpl) k \<longrightarrow>
        fill_obs m c p logger vr3 smpl e ! k = 0)"
proof (cases smpl)
  case (Some w)
  with assms show ?thesis
    using obs_smpl_nth[of w]
    by (simp add: fill_obs_def Let_def encoder_mode_def in_slots_def upper_slots_def)
next
  case None
  show ?thesis
  proof (cases vr3)
    case (Some v)
    with None assms show ?thesis
      using obs_teleop_nth[OF assms(1,2)]
      by (simp add: fill_obs_def Let_def encoder_mode_def in_slots_def upper_slots_def)
  next
    case N2: None
    with None assms show ?thesis
      using obs_g1_nth[OF assms(1,2)]
      by (simp add: fill_obs_def Let_def encoder_mode_def in_slots_def upper_slots_def)
  qed
qed

definition sample_motion :: motion_seq where
  "sample_motion = resize 3 motion_empty"

lemma sample_motion_wf: "motion_wf sample_motion" "timesteps sample_motion = 3"
  by (simp_all add: sample_motion_def motion_wf_def resize_def resize_list_def motion_empty_def
      frame_default_def frame_wf_def planner_dims list_all_iff)

definition sample_pose :: smpl_pose where
  "sample_pose = \<lparr>joints_local = replicate 24 (1, 2, 3), anchor_quat = (1, 0, 0, 0),
     wrist_joint_pos = replicate 6 (1/2)\<rparr>"

lemma sample_window_wf: "window_wf (replicate 10 sample_pose)"
  by (simp add: window_wf_def smpl_wf_def sample_pose_def list_all_iff)

lemma encoder_modes_are_separate_witness:
  "length (fill_obs sample_motion 1 True (logger_init 10) None (Some (replicate 10 sample_pose))
      encoder_new) = 1751
   \<and> fill_obs sample_motion 1 True (logger_init 10) None (Some (replicate 10 sample_pose))
      encoder_new ! 0 = 2
   \<and> fill_obs sample_motion 1 True (logger_init 10) None (Some (replicate 10 sample_pose))
      encoder_new ! 300 = 0"
  using encoder_modes_are_separate[of sample_motion None "Some (replicate 10 sample_pose)" 1 True
      "logger_init 10" encoder_new] sample_motion_wf sample_window_wf
  by (simp add: encoder_mode_def in_slots_def upper_slots_def)

text \<open>
  What the encoder sees of the planner's future: in planner mode block f holds the
  joints of the motion 5 f frames after the cursor, held at the last frame and, while not
  playing, at the cursor with zero velocities; in three-point teleoperation the same frames
  restricted to the twelve leg joints, in the motor order of the legs, with the operator's three
  points behind them unchanged.
\<close>
theorem encoder_sees_future_frames:
  fixes m :: motion_seq and p :: bool and c :: int and f :: nat
  assumes "motion_wf m" "0 < timesteps m" "0 \<le> c" "c < timesteps m" "f < 10" "vr3_wf v"
  defines "fr \<equiv> frames m ! nat (if p then min (c + 5 * int f) (timesteps m - 1) else c)"
  shows "(\<forall>j < 29. fill_obs m c p logger None None e ! (4 + f * 29 + j) = fr_joints fr ! j
        \<and> fill_obs m c p logger None None e ! (294 + f * 29 + j) =
            (if p then fr_joint_velocities fr ! j else 0))
    \<and> (\<forall>j < 12. fill_obs m c p logger (Some v) None e ! (650 + f * 12 + j) =
            fr_joints fr ! (isaaclab_to_mujoco ! j)
        \<and> fill_obs m c p logger (Some v) None e ! (770 + f * 12 + j) =
            (if p then fr_joint_velocities fr ! (isaaclab_to_mujoco ! j) else 0))
    \<and> (\<forall>i < 9. fill_obs m c p logger (Some v) None e ! (890 + i) = vr3_position v ! i)
    \<and> (\<forall>i < 12. fill_obs m c p logger (Some v) None e ! (899 + i) = vr3_orientation v ! i)"
proof -
  have "target_frame c (int f) kFutStep (timesteps m) p =
      (if p then min (c + 5 * int f) (timesteps m - 1) else c)"
    using assms(2-4) by (simp add: target_frame_def kFutStep_def mult.commute)
  then have fr_at: "future_frame m c p f = fr"
    by (simp add: future_frame_def frame_at_def assms(7))
  then have fr_at_playing: "p \<Longrightarrow> future_frame m c True f = fr" by simp
  have wf: "length (fr_joints (future_frame m c q g)) = 29"
    "length (fr_joint_velocities (future_frame m c q g)) = 29" for q g
    using future_frame_wf[OF assms(1,2)] by (simp_all add: frame_wf_def)
  have low: "length kLowerBodyIdx = 12" by (simp add: kLowerBodyIdx_def)
  have idx: "kLowerBodyIdx ! j = isaaclab_to_mujoco ! j" if "j < 12" for j
  proof -
    have "kLowerBodyIdx = take 12 isaaclab_to_mujoco"
      by (simp add: kLowerBodyIdx_def isaaclab_to_mujoco_def)
    then show ?thesis using that nth_take[of j 12 isaaclab_to_mujoco] by simp
  qed
  have b29: "f * 29 + j < 290" if "j < 29" for j using assms(5) that by linarith
  have b12: "f * 12 + j < 120" if "j < 12" for j using assms(5) that by linarith
  have g1: "fill_obs m c p logger None None e ! (4 + f * 29 + j) = fr_joints fr ! j"
    "fill_obs m c p logger None None e ! (294 + f * 29 + j) =
      (if p then fr_joint_velocities fr ! j else 0)" if "j < 29" for j
  proof -
    have "concat (map (\<lambda>f. fr_joints (future_frame m c p f)) [0..<10]) ! (f * 29 + j) =
        fr_joints fr ! j"
      by (subst blocks_nth) (use assms(5) that wf in \<open>simp_all add: fr_at\<close>)
    then show "fill_obs m c p logger None None e ! (4 + f * 29 + j) = fr_joints fr ! j"
      using b29[OF that] assms(2) by (simp add: fill_obs_def obs_g1_nth[OF assms(1,2)])
    have "concat (map (\<lambda>f. if p then fr_joint_velocities (future_frame m c p f)
        else replicate 29 0) [0..<10]) ! (f * 29 + j) =
        (if p then fr_joint_velocities fr ! j else 0)"
      by (subst blocks_nth[where d = 29]) (use assms(5) that wf in \<open>simp_all add: fr_at_playing\<close>)
    then show "fill_obs m c p logger None None e ! (294 + f * 29 + j) =
        (if p then fr_joint_velocities fr ! j else 0)"
      using b29[OF that] assms(2) by (simp only: fill_obs_def Let_def option.case)
        (simp add: obs_g1_nth[OF assms(1,2)])
  qed
  have tele: "fill_obs m c p logger (Some v) None e ! (650 + f * 12 + j) =
      fr_joints fr ! (isaaclab_to_mujoco ! j)"
    "fill_obs m c p logger (Some v) None e ! (770 + f * 12 + j) =
      (if p then fr_joint_velocities fr ! (isaaclab_to_mujoco ! j) else 0)" if "j < 12" for j
  proof -
    have "concat (map (\<lambda>f. gather kLowerBodyIdx (fr_joints (future_frame m c p f))) [0..<10])
        ! (f * 12 + j) = fr_joints fr ! (isaaclab_to_mujoco ! j)"
      by (subst blocks_nth) (use assms(5) that low in \<open>simp_all add: fr_at idx\<close>)
    then show "fill_obs m c p logger (Some v) None e ! (650 + f * 12 + j) =
        fr_joints fr ! (isaaclab_to_mujoco ! j)"
      using b12[OF that] assms(2) by (simp add: fill_obs_def obs_teleop_nth[OF assms(1,2,6)])
    have "concat (map (\<lambda>f. if p then gather kLowerBodyIdx
        (fr_joint_velocities (future_frame m c p f)) else replicate 12 0) [0..<10])
        ! (f * 12 + j) = (if p then fr_joint_velocities fr ! (isaaclab_to_mujoco ! j) else 0)"
      by (subst blocks_nth[where d = 12])
        (use assms(5) that low in \<open>simp_all add: fr_at_playing idx\<close>)
    then show "fill_obs m c p logger (Some v) None e ! (770 + f * 12 + j) =
        (if p then fr_joint_velocities fr ! (isaaclab_to_mujoco ! j) else 0)"
      using b12[OF that] assms(2) by (simp only: fill_obs_def Let_def option.case)
        (simp add: obs_teleop_nth[OF assms(1,2,6)])
  qed
  have "fill_obs m c p logger (Some v) None e ! (890 + i) = vr3_position v ! i" if "i < 9" for i
    using that assms(2) by (simp add: fill_obs_def obs_teleop_nth[OF assms(1,2,6)])
  moreover have "fill_obs m c p logger (Some v) None e ! (899 + i) = vr3_orientation v ! i"
    if "i < 12" for i
    using that assms(2) by (simp add: fill_obs_def obs_teleop_nth[OF assms(1,2,6)])
  ultimately show ?thesis using g1 tele by blast
qed

lemma encoder_sees_future_frames_witness:
  "list_all (\<lambda>j. fill_obs sample_motion 1 True (logger_init 10) None None encoder_new ! (4 + 9 * 29 + j)
      = fr_joints (frames sample_motion ! nat (min (1 + 5 * int 9) 2)) ! j) [0..<29]"
  using encoder_sees_future_frames[of sample_motion 1 9
      "\<lparr>vr3_position = replicate 9 0, vr3_orientation = replicate 12 0\<rparr>" True "logger_init 10"
      encoder_new] sample_motion_wf
  by (simp add: vr3_wf_def list_all_iff)

text \<open>
  At a heading reset the reference is aligned to the robot: right after the encoder has
  re-anchored (and while its offset is zero) the reference it was anchored on is seen straight
  ahead, at heading zero relative to the robot's own yaw, and upright exactly as before; this
  holds for the planner's motion and for the operator's body alike.
\<close>
theorem heading_reset_faces_reference:
  fixes logger :: state_logger
  assumes "reinitialize_heading e" "0 < timesteps m"
    and "ref = (case smpl of Some w \<Rightarrow> anchor_quat (w ! 0)
          | None \<Rightarrow> fr_quaternion (frame_at m (clamp cursor 0 (timesteps m - 1))))"
    and "unit_quat ref" "quat_rotate ref (1, 0, 0) = (x, y, z)" "x \<noteq> 0 \<or> y \<noteq> 0"
  defines "base \<equiv> base_quat (get_latest 1 logger ! 0)"
  shows "calc_heading (anchor_ref (update_heading_state m cursor logger smpl e) base ref) = 0
    \<and> snd (snd (quat_rotate (anchor_ref (update_heading_state m cursor logger smpl e) base ref) v))
        = snd (snd (quat_rotate ref v))"
proof -
  let ?e = "update_heading_state m cursor logger smpl e"
  have st: "init_base_quat ?e = base" "init_ref_root_rot ?e = ref" "delta_heading ?e = 0"
    using assms(1-3) by (simp_all add: update_heading_state_def base_def Let_def split: option.split)
  have yaw: "quat_conjugate (yaw_quat h) = yaw_quat (- h)" for h
    by (simp add: yaw_quat_def)
  have "anchor_ref ?e base ref = quat_mul (yaw_quat (- calc_heading base))
      (quat_mul (quat_mul (yaw_quat (calc_heading base)) (yaw_quat (- calc_heading ref))) ref)"
    by (simp add: anchor_ref_def compute_apply_delta_heading_def st yaw calc_heading_quat_def
        calc_heading_quat_inv_def)
  also have "\<dots> = quat_mul (yaw_quat (- calc_heading ref)) ref"
    by (simp add: yaw_quat_mul flip: quat_mul_assoc)
  also have "\<dots> = quat_mul (quat_mul (calc_heading_quat (1, 0, 0, 0)) (calc_heading_quat_inv ref)) ref"
    by (simp add: calc_heading_quat_def calc_heading_quat_inv_def yaw_quat_mul calc_heading_def
        atan2_def)
  finally have eq: "anchor_ref ?e base ref =
      quat_mul (quat_mul (calc_heading_quat (1, 0, 0, 0)) (calc_heading_quat_inv ref)) ref" .
  have "calc_heading (1, 0, 0, 0) = 0" by (simp add: calc_heading_def atan2_def)
  with heading_turned[OF assms(4-6), of "(1, 0, 0, 0)" v] show ?thesis unfolding eq by simp
qed

lemma heading_reset_faces_reference_witness:
  "calc_heading (anchor_ref (update_heading_state sample_motion 2 (logger_init 10) None encoder_new)
     (base_quat (get_latest 1 (logger_init 10) ! 0)) (1, 0, 0, 0)) = 0"
  by (rule heading_reset_faces_reference[where x = 1 and y = 0 and z = 0, THEN conjunct1])
    (simp_all add: encoder_new_def sample_motion_def resize_def motion_empty_def kCapacity_def
      resize_list_def frame_at_def frame_default_def eval_nat_numeral unit_quat_def quat_norm2_def)

section \<open>The decoder\<close>

definition entry_wf :: "logger_entry \<Rightarrow> bool" where
  "entry_wf e \<longleftrightarrow> length (body_q e) = 29 \<and> length (body_dq e) = 29 \<and>
     length (last_action_obs e) = 29"

definition history_wf :: "state_logger \<Rightarrow> bool" where
  "history_wf l \<longleftrightarrow> (\<forall>n. list_all entry_wf (get_latest n l))"

lemma entry_wf_zero [simp]: "entry_wf zero_entry"
  by (simp add: entry_wf_def zero_entry_def)

text \<open>A ring into which only sound entries were logged.\<close>

definition ring_wf :: "state_logger \<Rightarrow> bool" where
  "ring_wf l \<longleftrightarrow> logger_wf l \<and> list_all entry_wf (log_ring l)"

lemma ring_wf_log: "ring_wf l \<Longrightarrow> entry_wf e \<Longrightarrow> ring_wf (log_entry e l)"
  using logger_wf_log[of l e]
  by (auto simp: ring_wf_def log_entry_def Let_def list_all_iff dest!: set_update_subset_insert[THEN subsetD])

lemma ring_wf_init: "0 < c \<Longrightarrow> ring_wf (logger_init c)"
  using logger_wf_init[of c] by (simp add: ring_wf_def logger_init_def list_all_iff)

lemma ring_wf_history: "ring_wf l \<Longrightarrow> history_wf l"
  by (auto simp: history_wf_def ring_wf_def logger_wf_def get_latest_def Let_def list_all_iff)

lemma decoder_obs_nth:
  assumes "history_wf l" "length dst = 994"
  defines "hist \<equiv> get_latest 10 l"
  shows "length (decoder_obs l dst) = 994"
    and "k < 994 \<Longrightarrow> decoder_obs l dst ! k =
      (if 964 \<le> k then concat (map (\<lambda>f. vec3_list (gravity_in_body_frame (base_quat (hist ! f)))) [0..<10]) ! (k - 964)
       else if 674 \<le> k then concat (map (\<lambda>f. last_action_obs (hist ! f)) [0..<10]) ! (k - 674)
       else if 384 \<le> k then concat (map (\<lambda>f. body_dq (hist ! f)) [0..<10]) ! (k - 384)
       else if 94 \<le> k then concat (map (\<lambda>f. body_q (hist ! f)) [0..<10]) ! (k - 94)
       else if 64 \<le> k then concat (map (\<lambda>f. vec3_list (base_ang_vel (hist ! f))) [0..<10]) ! (k - 64)
       else dst ! k)"
proof -
  have wf: "entry_wf (hist ! f)" if "f < 10" for f
    using assms(1) that by (simp add: history_wf_def hist_def list_all_length)
  have lens: "length (concat (map (\<lambda>f. vec3_list (gravity_in_body_frame (base_quat (hist ! f)))) [0..<10])) = 30"
    "length (concat (map (\<lambda>f. vec3_list (base_ang_vel (hist ! f))) [0..<10])) = 30"
    "length (concat (map (\<lambda>f. last_action_obs (hist ! f)) [0..<10])) = 290"
    "length (concat (map (\<lambda>f. body_dq (hist ! f)) [0..<10])) = 290"
    "length (concat (map (\<lambda>f. body_q (hist ! f)) [0..<10])) = 290"
    using wf length_blocks[of 10 "\<lambda>f. vec3_list (gravity_in_body_frame (base_quat (hist ! f)))" 3]
      length_blocks[of 10 "\<lambda>f. vec3_list (base_ang_vel (hist ! f))" 3]
      length_blocks[of 10 "\<lambda>f. last_action_obs (hist ! f)" 29]
      length_blocks[of 10 "\<lambda>f. body_dq (hist ! f)" 29]
      length_blocks[of 10 "\<lambda>f. body_q (hist ! f)" 29]
    by (simp_all add: entry_wf_def)
  note d = decoder_obs_def Let_def decoder_offsets hist_def[symmetric]
  show "length (decoder_obs l dst) = 994"
    unfolding d by (simp add: lens assms(2))
  show "decoder_obs l dst ! k =
      (if 964 \<le> k then concat (map (\<lambda>f. vec3_list (gravity_in_body_frame (base_quat (hist ! f)))) [0..<10]) ! (k - 964)
       else if 674 \<le> k then concat (map (\<lambda>f. last_action_obs (hist ! f)) [0..<10]) ! (k - 674)
       else if 384 \<le> k then concat (map (\<lambda>f. body_dq (hist ! f)) [0..<10]) ! (k - 384)
       else if 94 \<le> k then concat (map (\<lambda>f. body_q (hist ! f)) [0..<10]) ! (k - 94)
       else if 64 \<le> k then concat (map (\<lambda>f. vec3_list (base_ang_vel (hist ! f))) [0..<10]) ! (k - 64)
       else dst ! k)" if "k < 994"
    using that unfolding d by (simp add: write_at_nth lens assms(2))
qed

definition decoder_wf :: "decoder \<Rightarrow> bool" where
  "decoder_wf d \<longleftrightarrow> length (dec_input d) = 994 \<and> length (last_action d) = 29"

lemma decoder_wf_new: "decoder_wf decoder_new"
  by (simp add: decoder_wf_def decoder_new_def kDecoderDim_def)

lemma decoder_step_wf:
  assumes "decoder_wf d" "history_wf l" "length token = 64"
  shows "decoder_wf (snd (decoder_step net token l d))"
  using assms decoder_obs_nth(1)[OF assms(2), of "write_at 0 token (dec_input d)"]
  by (simp add: decoder_wf_def decoder_step_def Let_def split: option.split)

lemma decoder_step_Some:
  assumes "decoder_step net token l d = (Some cmd, d')"
  obtains action where "net (decoder_obs l (write_at 0 token (dec_input d))) = Some action"
    "cmd = action_command action" "last_action d' = map (\<lambda>i. action ! i) [0..<29]"
  using assms by (auto simp: decoder_step_def Let_def split: option.splits)

text \<open>
  The policy sees the token and the last ten states: the first 64 entries are the token of
  this tick, and frame f of each history block is the f-th oldest of the last ten logged
  states (angular velocity, joint positions and velocities, previous action, gravity in the body
  frame), zero states standing in while fewer have been logged; nothing of the previous tick's
  input is left.
\<close>
theorem policy_sees_token_and_history:
  assumes "decoder_wf d" "length token = 64" "f < 10" "\<forall>e \<in> set es. entry_wf e"
  defines "l \<equiv> fold log_entry es (logger_init 100)"
    and "h \<equiv> (replicate (10 - length es) zero_entry @ last_n 10 es) ! f"
    and "obs \<equiv> decoder_obs (fold log_entry es (logger_init 100)) (write_at 0 token (dec_input d))"
  shows "(\<exists>cmd d'. decoder_step net token l d = (cmd, d') \<and> dec_input d' = obs) \<and> length obs = 994
    \<and> take 64 obs = token
    \<and> (\<forall>i < 3. obs ! (64 + f * 3 + i) = vec3_list (base_ang_vel h) ! i)
    \<and> (\<forall>j < 29. obs ! (94 + f * 29 + j) = body_q h ! j \<and> obs ! (384 + f * 29 + j) = body_dq h ! j
        \<and> obs ! (674 + f * 29 + j) = last_action_obs h ! j)
    \<and> (\<forall>i < 3. obs ! (964 + f * 3 + i) = vec3_list (gravity_in_body_frame (base_quat h)) ! i)"
proof -
  have ring: "ring_wf (fold log_entry es (logger_init 100))"
    using assms(4) ring_wf_init[of 100]
  proof (induction es rule: rev_induct)
    case (snoc e es)
    then show ?case by (simp add: ring_wf_log)
  qed simp
  then have hw: "history_wf l" by (simp add: l_def ring_wf_history)
  have wfl: "logger_wf l" using ring by (simp add: l_def ring_wf_def)
  have hist: "get_latest 10 l = replicate (10 - length es) zero_entry @ last_n 10 es"
  proof -
    have "logged l = last_n 100 es"
      using history.items_puts[OF logger_wf_init[of 100], of es]
      by (simp add: l_def logger_init_def[of 100]) (simp add: logged_def)
    moreover from this have "log_size l = min 100 (length es)" by (metis length_last_n length_logged)
    ultimately show ?thesis by (simp add: get_latest_logged[OF wfl])
  qed
  have h: "get_latest 10 l ! f = h" by (simp add: hist h_def)
  have dst: "length (write_at 0 token (dec_input d)) = 994"
    using assms(1,2) by (simp add: decoder_wf_def)
  have obs: "obs = decoder_obs l (write_at 0 token (dec_input d))" by (simp add: obs_def l_def)
  note nth = decoder_obs_nth(2)[OF hw dst, folded obs]
  have wf: "entry_wf (get_latest 10 l ! g)" if "g < 10" for g
    using hw that by (simp add: history_wf_def list_all_length)
  have b29: "f * 29 + j < 290" if "j < 29" for j using assms(3) that by linarith
  have b3: "f * 3 + i < 30" if "i < 3" for i using assms(3) that by linarith
  have v3: "concat (map (\<lambda>g. vec3_list (F (get_latest 10 l ! g))) [0..<10]) ! (f * 3 + i) =
      vec3_list (F h) ! i" if "i < 3" for F i
    by (subst blocks_nth) (use assms(3) that in \<open>simp_all add: h\<close>)
  have v29: "concat (map (\<lambda>g. F (get_latest 10 l ! g)) [0..<10]) ! (f * 29 + j) = F h ! j"
    if "j < 29" "\<And>e. entry_wf e \<Longrightarrow> length (F e) = 29" for F j
    by (subst blocks_nth[where d = 29]) (use assms(3) that wf in \<open>simp_all add: h\<close>)
  have A: "obs ! (64 + f * 3 + i) = vec3_list (base_ang_vel h) ! i"
    "obs ! (964 + f * 3 + i) = vec3_list (gravity_in_body_frame (base_quat h)) ! i" if "i < 3" for i
    using b3[OF that] v3[OF that, of base_ang_vel]
      v3[OF that, of "\<lambda>e. gravity_in_body_frame (base_quat e)"] by (simp_all add: nth)
  have B: "obs ! (94 + f * 29 + j) = body_q h ! j" "obs ! (384 + f * 29 + j) = body_dq h ! j"
    "obs ! (674 + f * 29 + j) = last_action_obs h ! j" if "j < 29" for j
    using b29[OF that] v29[OF that, of body_q] v29[OF that, of body_dq]
      v29[OF that, of last_action_obs] by (simp_all add: nth entry_wf_def)
  have "take 64 obs = token"
  proof (rule nth_equalityI)
    show "length (take 64 obs) = length token"
      using decoder_obs_nth(1)[OF hw dst] assms(2) by (simp add: obs)
    fix k assume "k < length (take 64 obs)"
    then show "take 64 obs ! k = token ! k"
      using assms(1,2) dst by (simp add: nth write_at_nth decoder_wf_def)
  qed
  then show ?thesis
    using A B decoder_obs_nth(1)[OF hw dst]
    by (auto simp: obs decoder_step_def Let_def split: option.split)
qed

lemma policy_sees_token_and_history_witness:
  "take 64 (decoder_obs (fold log_entry [zero_entry] (logger_init 100))
     (write_at 0 (replicate 64 (1/8)) (dec_input decoder_new))) = replicate 64 (1/8)"
  using policy_sees_token_and_history[of decoder_new "replicate 64 (1/8)" 9 "[zero_entry]" "\<lambda>_. None"]
  by (simp add: decoder_wf_new)

text \<open>
  The command of a decoded action: with the fixed positive gains and no feed-forward, and a
  target from which the action can be read back exactly (offset by the standing pose, scaled per
  motor, in IsaacLab order); the raw action is kept for the next observation. When inference
  fails there is no command and the remembered action stays.
\<close>
theorem action_command_roundtrip:
  assumes "decoder_step net token l d = (out, d')"
  shows "(out = None \<longrightarrow> last_action d' = last_action d)
    \<and> (\<forall>cmd. out = Some cmd \<longrightarrow>
        (\<exists>action. net (dec_input d') = Some action \<and> last_action d' = map (\<lambda>i. action ! i) [0..<29]
          \<and> (\<forall>j < 29. (q_target cmd ! (mujoco_to_isaaclab ! j)
                - g1_default_angles ! (mujoco_to_isaaclab ! j))
                / g1_action_scale ! (mujoco_to_isaaclab ! j) = action ! j))
        \<and> mc_kp cmd = g1_kps \<and> mc_kd cmd = g1_kds
        \<and> (\<forall>i < 29. 0 < mc_kp cmd ! i \<and> 0 < mc_kd cmd ! i \<and> dq_target cmd ! i = 0 \<and> tau_ff cmd ! i = 0))"
proof (intro conjI allI impI)
  assume "out = None"
  then show "last_action d' = last_action d"
    using assms by (auto simp: decoder_step_def Let_def split: option.splits)
next
  fix cmd assume "out = Some cmd"
  with assms have "decoder_step net token l d = (Some cmd, d')" by simp
  then obtain action where a: "net (decoder_obs l (write_at 0 token (dec_input d))) = Some action"
    "cmd = action_command action" "last_action d' = map (\<lambda>i. action ! i) [0..<29]"
    by (rule decoder_step_Some)
  have d': "dec_input d' = decoder_obs l (write_at 0 token (dec_input d))"
    using assms by (auto simp: decoder_step_def Let_def split: option.splits)
  have "(q_target cmd ! (mujoco_to_isaaclab ! j) - g1_default_angles ! (mujoco_to_isaaclab ! j))
      / g1_action_scale ! (mujoco_to_isaaclab ! j) = action ! j" if "j < 29" for j
  proof -
    have m: "mujoco_to_isaaclab ! j < 29" "isaaclab_to_mujoco ! (mujoco_to_isaaclab ! j) = j"
      using joints.bwd_fwd[OF that] by simp_all
    have "0 < g1_action_scale ! (mujoco_to_isaaclab ! j)"
      by (rule g1_action_scale_pos) (simp add: m)
    with m show ?thesis by (simp add: a(2) action_command_def)
  qed
  with a d' show "\<exists>action. net (dec_input d') = Some action \<and>
      last_action d' = map (\<lambda>i. action ! i) [0..<29] \<and>
      (\<forall>j < 29. (q_target cmd ! (mujoco_to_isaaclab ! j) - g1_default_angles ! (mujoco_to_isaaclab ! j))
        / g1_action_scale ! (mujoco_to_isaaclab ! j) = action ! j)"
    by auto
  show k: "mc_kp cmd = g1_kps" "mc_kd cmd = g1_kds"
    by (rule nth_equalityI; simp add: a(2) action_command_def)+
  fix i :: nat assume i: "i < 29"
  show "0 < mc_kp cmd ! i" "0 < mc_kd cmd ! i"
    using g1_kps_pos[of "g1_kps ! i"] g1_kds_pos[of "g1_kds ! i"] i by (simp_all add: k)
  show "dq_target cmd ! i = 0" "tau_ff cmd ! i = 0"
    using i by (simp_all add: a(2) action_command_def motor_command_zero_def)
qed

lemma action_command_roundtrip_witness:
  "list_all (\<lambda>j. (q_target (action_command (replicate 29 1)) ! (mujoco_to_isaaclab ! j)
      - g1_default_angles ! (mujoco_to_isaaclab ! j)) / g1_action_scale ! (mujoco_to_isaaclab ! j)
      = replicate 29 1 ! j) [0..<29]
   \<and> mc_kp (action_command (replicate 29 1)) = g1_kps"
proof -
  let ?net = "\<lambda>_. Some (replicate 29 1) :: real list option"
  have "decoder_step ?net (replicate 64 0) (logger_init 100) decoder_new =
      (Some (action_command (replicate 29 1)),
       snd (decoder_step ?net (replicate 64 0) (logger_init 100) decoder_new))"
    by (simp add: decoder_step_def Let_def)
  from action_command_roundtrip[OF this] show ?thesis by (simp add: list_all_iff del: nth_replicate)
qed

end
