(* ===== verification/Controller.thy ===== *)
theory Controller
  imports Planner Policy
begin

text \<open>
  The 50 Hz whole-body controller (\<open>include/control/whole_body_controller.hpp\<close>,
  \<open>src/control/whole_body_controller.cpp\<close>): the state machine INIT, WAIT_FOR_CONTROL, CONTROL
  and ESTOP, the LowState-loss policy, the playback of planner motions, the arbitration with its
  side effects and the CONTROL tick. A tick reads the other modules through \<open>ctl_in\<close>; what it
  asks of them is the list of effects it returns.
\<close>

section \<open>Constants and state\<close>

definition kMaxJointVel :: real where "kMaxJointVel = 35"
definition kStateStaleMs :: real where "kStateStaleMs = 500"
definition kStateGraceTicks :: int where "kStateGraceTicks = 25"
definition kBaseRampTicks :: int where "kBaseRampTicks = 50"
definition kInitTicks :: int where "kInitTicks = 150"
definition kBlendFrames :: int where "kBlendFrames = 8"

lemmas ctl_consts = kMaxJointVel_def kStateStaleMs_def kStateGraceTicks_def kBaseRampTicks_def
  kInitTicks_def kBlendFrames_def

datatype wbc_state = INIT | WAIT_FOR_CONTROL | CONTROL | ESTOP

record robot_state =
  imu_quaternion :: quat
  imu_gyroscope :: vec3
  motor_q :: "real list"
  motor_dq :: "real list"

record motion_token_sample =
  mt_token :: token
  mt_seq :: nat
  mt_stamp_ns :: int
  mt_arbiter_mode :: arb_mode
  mt_encoder_mode :: "8 word"

datatype ctl_effect = DisarmLocomotion | ResetCalibration | RequestReinit

record controller =
  c_state :: wbc_state
  c_init_ticks :: int
  c_missing_ticks :: int
  c_base_ramp_from :: motor_command
  c_reseed_ticket :: nat
  c_playback :: motion_seq
  c_cursor :: int
  c_playing :: bool
  c_plan_stamp :: time
  c_encoder :: encoder
  c_decoder :: decoder
  c_logger :: state_logger
  c_arbiter :: arbiter
  c_last_vr3 :: bool
  c_last_smpl :: bool
  c_ticket_issued :: bool
  c_ticket :: nat
  c_token_seq :: nat
  c_operator_start :: bool
  c_auto_start :: bool
  c_command_buf :: "motor_command data_buffer"
  c_token_buf :: "motion_token_sample data_buffer"

definition controller_new :: "bool \<Rightarrow> controller" where
  "controller_new auto = \<lparr>c_state = INIT, c_init_ticks = 0, c_missing_ticks = 0,
     c_base_ramp_from = motor_command_zero, c_reseed_ticket = 0, c_playback = motion_empty,
     c_cursor = 0, c_playing = False, c_plan_stamp = 0, c_encoder = encoder_new,
     c_decoder = decoder_new, c_logger = logger_init 100, c_arbiter = arbiter_init,
     c_last_vr3 = False, c_last_smpl = False, c_ticket_issued = False, c_ticket = 0,
     c_token_seq = 0, c_operator_start = False, c_auto_start = auto, c_command_buf = buf_empty,
     c_token_buf = buf_empty\<rparr>"

text \<open>
  The reads of one tick. \<open>ci_state\<close> is the buffer at the loss gate, \<open>ci_state_later\<close> at the
  later read of the same tick, which a watchdog may have cleared in between.
\<close>

record ctl_in =
  ci_now :: time
  ci_epoch_ns :: int
  ci_estop :: bool
  ci_state :: "robot_state timestamped"
  ci_state_later :: "robot_state option"
  ci_plan :: "motion_seq timestamped"
  ci_vla :: "vla_latent_action timestamped"
  ci_vla_later :: "vla_latent_action option"
  ci_calibrated :: bool
  ci_vr3 :: "vr3_point option"
  ci_smpl :: "smpl_pose list option"
  ci_reinit_requested :: nat
  ci_reinit_done :: nat

section \<open>Commands without the policy\<close>

definition put_command :: "time \<Rightarrow> motor_command \<Rightarrow> controller \<Rightarrow> controller" where
  "put_command now cmd c = c\<lparr>c_command_buf := set_data now cmd (c_command_buf c)\<rparr>"

definition start_control :: "controller \<Rightarrow> controller" where
  "start_control c = c\<lparr>c_operator_start := True\<rparr>"

definition check_safety :: "ctl_in \<Rightarrow> bool" where
  "check_safety i \<longleftrightarrow> has_data (ci_state i) \<and> get_age_ms (ci_now i) (ci_state i) \<le> kStateStaleMs"

definition pose_command :: "(nat \<Rightarrow> real) \<Rightarrow> motor_command" where
  "pose_command target = motor_command_zero
     \<lparr>q_target := map target [0..<29], mc_kp := map (\<lambda>i. g1_kps ! i) [0..<29],
      mc_kd := map (\<lambda>i. g1_kds ! i) [0..<29]\<rparr>"

definition base_hold_ratio :: "int \<Rightarrow> real" where
  "base_hold_ratio missing =
     clamp (real_of_int (missing - kStateGraceTicks) / real_of_int kBaseRampTicks) 0 1"

definition publish_base_hold :: "time \<Rightarrow> controller \<Rightarrow> controller" where
  "publish_base_hold now c =
     (let ratio = base_hold_ratio (c_missing_ticks c)
      in put_command now (pose_command (\<lambda>i.
           q_target (c_base_ramp_from c) ! i * (1 - ratio) + g1_default_angles ! i * ratio)) c)"

definition damping_command :: motor_command where
  "damping_command = motor_command_zero\<lparr>mc_kp := replicate 29 0, mc_kd := replicate 29 8\<rparr>"

definition publish_damping :: "time \<Rightarrow> controller \<Rightarrow> controller" where
  "publish_damping now c = put_command now damping_command c"

text \<open>\<open>stop\<close>: the buffer's last word is damping.\<close>

definition controller_stop :: "time \<Rightarrow> controller \<Rightarrow> controller" where
  "controller_stop now c = publish_damping now c"

definition state_entry :: "real list \<Rightarrow> robot_state \<Rightarrow> logger_entry" where
  "state_entry action st =
     \<lparr>base_quat = imu_quaternion st, base_ang_vel = imu_gyroscope st,
      body_q = map (\<lambda>i. let m = mujoco_to_isaaclab ! i in motor_q st ! m - g1_default_angles ! m) [0..<29],
      body_dq = map (\<lambda>i. motor_dq st ! (mujoco_to_isaaclab ! i)) [0..<29],
      last_action_obs = action\<rparr>"

definition gather_robot_state :: "ctl_in \<Rightarrow> controller \<Rightarrow> bool \<times> controller" where
  "gather_robot_state i c =
     (case ci_state_later i of
        None \<Rightarrow> (False, c)
      | Some st \<Rightarrow>
          (let e = state_entry (last_action (c_decoder c)) st
           in if list_ex (\<lambda>v. \<bar>v\<bar> > kMaxJointVel) (body_dq e) then (False, c)
              else (True, c\<lparr>c_logger := log_entry e (c_logger c)\<rparr>)))"

definition tick_init :: "ctl_in \<Rightarrow> controller \<Rightarrow> controller" where
  "tick_init i c =
     (case ci_state_later i of
        None \<Rightarrow> c
      | Some st \<Rightarrow>
          (let ratio = clamp (real_of_int (c_init_ticks c) / real_of_int kInitTicks) 0 1;
               c1 = put_command (ci_now i) (pose_command (\<lambda>k.
                      motor_q st ! k * (1 - ratio) + g1_default_angles ! k * ratio)) c;
               c2 = c1\<lparr>c_init_ticks := c_init_ticks c1 + 1\<rparr>
           in if c_init_ticks c2 \<ge> kInitTicks then c2\<lparr>c_state := WAIT_FOR_CONTROL\<rparr> else c2))"

section \<open>Playback\<close>

definition drop_playback :: "controller \<Rightarrow> controller" where
  "drop_playback c = c\<lparr>c_playback := motion_empty, c_cursor := 0, c_playing := False,
     c_plan_stamp := 0\<rparr>"

definition playback_snapshot :: "controller \<Rightarrow> (motion_seq \<times> int) option" where
  "playback_snapshot c =
     (if timesteps (c_playback c) = 0 then None else Some (c_playback c, c_cursor c))"

definition blend_frame :: "motion_frame \<Rightarrow> motion_frame \<Rightarrow> real \<Rightarrow> motion_frame" where
  "blend_frame a b w =
     \<lparr>fr_position = mix_list w (fr_position a) (fr_position b),
      fr_quaternion = quat_slerp (fr_quaternion a) (fr_quaternion b) w,
      fr_joints = mix_list w (fr_joints a) (fr_joints b),
      fr_joint_velocities = mix_list w (fr_joint_velocities a) (fr_joint_velocities b)\<rparr>"

definition blend_weight :: "int \<Rightarrow> int \<Rightarrow> real" where
  "blend_weight blend_start f = clamp (real_of_int (f - blend_start) / real_of_int kBlendFrames) 0 1"

definition blend_motions :: "motion_seq \<Rightarrow> int \<Rightarrow> motion_seq \<Rightarrow> int \<Rightarrow> motion_seq" where
  "blend_motions old cur gen new_len =
     (let fgen = gen_frame gen;
          blend_start = max 0 (fgen - cur)
      in \<lparr>frames = map (\<lambda>f.
            (let f_old = clamp (int f + cur) 0 (timesteps old - 1);
                 f_new = clamp (int f + cur - fgen) 0 (timesteps gen - 1)
             in blend_frame (frame_at old f_old) (frame_at gen f_new) (blend_weight blend_start (int f))))
            [0..<nat new_len],
          timesteps = new_len, gen_frame = 0\<rparr>)"

definition adopt_plan :: "motion_seq timestamped \<Rightarrow> controller \<Rightarrow> controller" where
  "adopt_plan plan c =
     (case ts_data plan of
        None \<Rightarrow> c
      | Some gen \<Rightarrow>
          if ts_time plan = c_plan_stamp c then c
          else let c1 = c\<lparr>c_plan_stamp := ts_time plan\<rparr>
               in if timesteps (c_playback c1) = 0 then
                    c1\<lparr>c_playback := gen, c_cursor := 0, c_playing := True,
                       c_encoder := request_heading_reinit (c_encoder c1)\<rparr>
                  else let new_len = gen_frame gen - c_cursor c1 + timesteps gen
                       in if new_len > 0
                          then c1\<lparr>c_playback := blend_motions (c_playback c1) (c_cursor c1) gen
                                                   (min new_len kCapacity),
                                  c_cursor := 0\<rparr>
                          else c1)"

definition advance_playback :: "motion_seq timestamped \<Rightarrow> controller \<Rightarrow> controller" where
  "advance_playback plan c =
     (let c1 = adopt_plan plan c
      in if c_playing c1 \<and> timesteps (c_playback c1) > 0
         then c1\<lparr>c_cursor := min (c_cursor c1 + 1) (timesteps (c_playback c1) - 1)\<rparr> else c1)"

section \<open>Arbitration\<close>

definition update_arbiter :: "ctl_in \<Rightarrow> controller \<Rightarrow> ctl_effect list \<times> controller" where
  "update_arbiter i c =
     (let vla_fresh = (has_data (ci_vla i) \<and> get_age_ms (ci_now i) (ci_vla i) \<le> kVlaTokenFreshMs);
          vla_alive = (has_data (ci_vla i) \<and> get_age_ms (ci_now i) (ci_vla i) \<le> kVlaTokenHoldMs);
          recovery_done = (c_ticket_issued c \<and> ci_reinit_done i \<ge> c_ticket c);
          cur = arb_mode (c_arbiter c);
          arb = step_mode vla_fresh vla_alive (ci_calibrated i) recovery_done (c_arbiter c);
          c1 = c\<lparr>c_arbiter := arb\<rparr>
      in if arb_mode arb = cur then ([], c1)
         else case arb_mode arb of
                KVla \<Rightarrow> ([ResetCalibration], c1)
              | KTeleop \<Rightarrow> ([], c1)
              | KRecovering \<Rightarrow> ([], c1\<lparr>c_ticket_issued := False\<rparr>)
              | KNormal \<Rightarrow>
                  (if cur = KRecovering then ([DisarmLocomotion], drop_playback c1) else ([], c1)))"

section \<open>The CONTROL tick\<close>

type_synonym networks = "network \<times> network"  \<comment> \<open>encoder, decoder\<close>

definition record_token :: "ctl_in \<Rightarrow> token \<Rightarrow> bool \<Rightarrow> controller \<Rightarrow> controller" where
  "record_token i token encoder_ran c =
     (let seq = c_token_seq c + 1;
          em = (if encoder_ran then last_mode (c_encoder c) else -1)
      in c\<lparr>c_token_seq := seq,
           c_token_buf := set_data (ci_now i)
             \<lparr>mt_token = token, mt_seq = seq, mt_stamp_ns = ci_epoch_ns i,
              mt_arbiter_mode = arb_mode (c_arbiter c),
              mt_encoder_mode = (if em < 0 then 255 else word_of_int em)\<rparr> (c_token_buf c)\<rparr>)"

text \<open>Decoding a token: the command is published and the token recorded only on success.\<close>

definition decode_and_publish :: "networks \<Rightarrow> ctl_in \<Rightarrow> token \<Rightarrow> bool \<Rightarrow> controller \<Rightarrow> bool \<times> controller" where
  "decode_and_publish nets i token encoder_ran c =
     (case decoder_step (snd nets) token (c_logger c) (c_decoder c) of
        (None, d) \<Rightarrow> (False, c\<lparr>c_decoder := d\<rparr>)
      | (Some cmd, d) \<Rightarrow>
          (True, record_token i token encoder_ran (put_command (ci_now i) cmd (c\<lparr>c_decoder := d\<rparr>))))"

definition tick_vla :: "networks \<Rightarrow> ctl_in \<Rightarrow> controller \<Rightarrow> controller option" where
  "tick_vla nets i c =
     (case ci_vla_later i of
        None \<Rightarrow> Some c
      | Some v \<Rightarrow>
          (case select_token None (Some (la_token v)) (c_arbiter c) of
             None \<Rightarrow> None
           | Some (token, arb) \<Rightarrow>
               Some (snd (decode_and_publish nets i token False (c\<lparr>c_arbiter := arb\<rparr>)))))"

definition tick_recovery ::
  "networks \<Rightarrow> ctl_in \<Rightarrow> controller \<Rightarrow> (ctl_effect list \<times> controller) option" where
  "tick_recovery nets i c =
     (case select_token None None (c_arbiter c) of
        None \<Rightarrow> None
      | Some (token, arb) \<Rightarrow>
          (let c1 = c\<lparr>c_arbiter := arb\<rparr>;
               issue = (recovery_blend_done arb \<and> \<not> c_ticket_issued c1);
               c2 = (if issue then c1\<lparr>c_ticket := ci_reinit_requested i + 1, c_ticket_issued := True\<rparr>
                     else c1)
           in Some (if issue then [RequestReinit] else [],
                    snd (decode_and_publish nets i token False c2))))"

text \<open>Engage and disengage edges of the two teleoperation targets.\<close>

definition vr3_edge :: "ctl_in \<Rightarrow> controller \<Rightarrow> controller" where
  "vr3_edge i c =
     (let present = (ci_vr3 i \<noteq> None)
      in if present \<noteq> c_last_vr3 c
         then c\<lparr>c_last_vr3 := present, c_arbiter := arm_handoff (c_arbiter c)\<rparr> else c)"

definition smpl_edge :: "ctl_in \<Rightarrow> controller \<Rightarrow> ctl_effect list \<times> controller" where
  "smpl_edge i c =
     (let present = (ci_smpl i \<noteq> None)
      in if present \<noteq> c_last_smpl c
         then ([DisarmLocomotion],
               c\<lparr>c_last_smpl := present, c_arbiter := arm_handoff (c_arbiter c),
                 c_encoder := request_heading_reinit (c_encoder c)\<rparr>)
         else ([], c))"

definition tick_tracking ::
  "networks \<Rightarrow> ctl_in \<Rightarrow> controller \<Rightarrow> (ctl_effect list \<times> controller) option" where
  "tick_tracking nets i c =
     (if timesteps (c_playback c) = 0 then Some ([], advance_playback (ci_plan i) c)
      else case smpl_edge i (vr3_edge i c) of (eff, c1) \<Rightarrow>
        (case encoder_step (fst nets) (c_playback c1) (c_cursor c1) (c_playing c1) (c_logger c1)
                (ci_vr3 i) (ci_smpl i) (c_encoder c1) of
           (None, enc) \<Rightarrow> Some (eff, c1\<lparr>c_encoder := enc\<rparr>)
         | (Some tok, enc) \<Rightarrow>
             (case select_token (Some tok) None (c_arbiter c1) of
                None \<Rightarrow> None
              | Some (token, arb) \<Rightarrow>
                  (case decode_and_publish nets i token True (c1\<lparr>c_encoder := enc, c_arbiter := arb\<rparr>) of
                     (False, c2) \<Rightarrow> Some (eff, c2)
                   | (True, c2) \<Rightarrow> Some (eff, advance_playback (ci_plan i) c2)))))"

definition tick_control ::
  "networks \<Rightarrow> ctl_in \<Rightarrow> controller \<Rightarrow> (ctl_effect list \<times> controller) option" where
  "tick_control nets i c0 =
     (case gather_robot_state i c0 of
        (False, c) \<Rightarrow> Some ([], c)
      | (True, c) \<Rightarrow>
          if c_reseed_ticket c \<noteq> 0 \<and> ci_reinit_done i < c_reseed_ticket c then Some ([], c)
          else case update_arbiter i (c\<lparr>c_reseed_ticket := 0\<rparr>) of (eff, c1) \<Rightarrow>
            (case arb_mode (c_arbiter c1) of
               KVla \<Rightarrow> map_option (Pair eff) (tick_vla nets i c1)
             | KRecovering \<Rightarrow> map_option (apfst ((@) eff)) (tick_recovery nets i c1)
             | _ \<Rightarrow> map_option (apfst ((@) eff)) (tick_tracking nets i c1)))"

section \<open>The loop\<close>

definition missing_tick :: "ctl_in \<Rightarrow> controller \<Rightarrow> controller" where
  "missing_tick i c =
     (let c1 = c\<lparr>c_missing_ticks := c_missing_ticks c + 1\<rparr>
      in if c_missing_ticks c1 > kStateGraceTicks then
           let c2 = (if c_missing_ticks c1 = kStateGraceTicks + 1 then
                       (case get_data (c_command_buf c1) of
                          None \<Rightarrow> c1
                        | Some cmd \<Rightarrow> c1\<lparr>c_base_ramp_from := cmd\<rparr>)
                     else c1)
           in publish_base_hold (ci_now i) c2
         else c1)"

text \<open>The state is back: after a long loss in CONTROL the origin is re-entered.\<close>

definition state_back :: "ctl_in \<Rightarrow> controller \<Rightarrow> ctl_effect list \<times> controller" where
  "state_back i c =
     (if c_missing_ticks c > 0 then
        (if c_missing_ticks c > kStateGraceTicks \<and> c_state c = CONTROL
         then ([DisarmLocomotion, RequestReinit],
               (drop_playback c)\<lparr>c_reseed_ticket := ci_reinit_requested i + 1,
                                 c_missing_ticks := 0\<rparr>)
         else ([], c\<lparr>c_missing_ticks := 0\<rparr>))
      else ([], c))"

definition ctl_tick ::
  "networks \<Rightarrow> ctl_in \<Rightarrow> controller \<Rightarrow> (ctl_effect list \<times> controller) option" where
  "ctl_tick nets i c =
     (if ci_estop i then Some ([], publish_damping (ci_now i) (c\<lparr>c_state := ESTOP\<rparr>))
      else if \<not> check_safety i then Some ([], missing_tick i c)
      else case state_back i c of (eff, c1) \<Rightarrow>
        (case c_state c1 of
           INIT \<Rightarrow> Some (eff, tick_init i c1)
         | WAIT_FOR_CONTROL \<Rightarrow>
             Some (eff, if c_operator_start c1 \<or> c_auto_start c1 then c1\<lparr>c_state := CONTROL\<rparr> else c1)
         | CONTROL \<Rightarrow> map_option (apfst ((@) eff))
             (tick_control nets
               (i\<lparr>ci_reinit_requested := ci_reinit_requested i + length (filter ((=) RequestReinit) eff)\<rparr>) c1)
         | ESTOP \<Rightarrow> Some (eff, c1)))"

fun ctl_run ::
  "networks \<Rightarrow> ctl_in list \<Rightarrow> controller \<Rightarrow> (ctl_effect list \<times> controller) option" where
  "ctl_run nets [] c = Some ([], c)"
| "ctl_run nets (i # is) c =
     (case ctl_tick nets i c of
        None \<Rightarrow> None
      | Some (eff, c') \<Rightarrow> map_option (apfst ((@) eff)) (ctl_run nets is c'))"

section \<open>What each step leaves alone\<close>

named_theorems ctl_frame \<open>fields a step of the controller does not touch\<close>

lemma put_command_frame [ctl_frame, simp]:
  "c_state (put_command n cmd c) = c_state c" "c_playback (put_command n cmd c) = c_playback c"
  "c_cursor (put_command n cmd c) = c_cursor c" "c_init_ticks (put_command n cmd c) = c_init_ticks c"
  "c_missing_ticks (put_command n cmd c) = c_missing_ticks c"
  "c_base_ramp_from (put_command n cmd c) = c_base_ramp_from c"
  "c_arbiter (put_command n cmd c) = c_arbiter c" "c_token_seq (put_command n cmd c) = c_token_seq c"
  "get_data (c_command_buf (put_command n cmd c)) = Some cmd"
  "c_token_buf (put_command n cmd c) = c_token_buf c"
  "c_auto_start (put_command n cmd c) = c_auto_start c"
  "c_operator_start (put_command n cmd c) = c_operator_start c"
  "c_encoder (put_command n cmd c) = c_encoder c"
  by (simp_all add: put_command_def)

lemma record_token_frame [ctl_frame, simp]:
  "c_state (record_token i t b c) = c_state c" "c_playback (record_token i t b c) = c_playback c"
  "c_cursor (record_token i t b c) = c_cursor c"
  "c_init_ticks (record_token i t b c) = c_init_ticks c"
  "c_missing_ticks (record_token i t b c) = c_missing_ticks c"
  "c_base_ramp_from (record_token i t b c) = c_base_ramp_from c"
  "c_arbiter (record_token i t b c) = c_arbiter c"
  "c_command_buf (record_token i t b c) = c_command_buf c"
  "c_token_seq (record_token i t b c) = c_token_seq c + 1"
  by (simp_all add: record_token_def Let_def)

lemma advance_playback_frame [ctl_frame, simp]:
  "c_state (advance_playback p c) = c_state c"
  "c_init_ticks (advance_playback p c) = c_init_ticks c"
  "c_missing_ticks (advance_playback p c) = c_missing_ticks c"
  "c_arbiter (advance_playback p c) = c_arbiter c"
  "c_command_buf (advance_playback p c) = c_command_buf c"
  "c_token_seq (advance_playback p c) = c_token_seq c"
  "c_token_buf (advance_playback p c) = c_token_buf c"
  "c_auto_start (advance_playback p c) = c_auto_start c"
  "c_operator_start (advance_playback p c) = c_operator_start c"
  by (simp_all add: advance_playback_def adopt_plan_def Let_def split: option.split)

lemma drop_playback_frame [ctl_frame, simp]:
  "c_state (drop_playback c) = c_state c" "c_init_ticks (drop_playback c) = c_init_ticks c"
  "c_arbiter (drop_playback c) = c_arbiter c" "c_command_buf (drop_playback c) = c_command_buf c"
  "c_token_seq (drop_playback c) = c_token_seq c" "c_token_buf (drop_playback c) = c_token_buf c"
  "c_missing_ticks (drop_playback c) = c_missing_ticks c"
  "c_playback (drop_playback c) = motion_empty" "c_cursor (drop_playback c) = 0"
  by (simp_all add: drop_playback_def)

lemma update_arbiter_frame [ctl_frame, simp]:
  "c_state (snd (update_arbiter i c)) = c_state c"
  "c_init_ticks (snd (update_arbiter i c)) = c_init_ticks c"
  "c_missing_ticks (snd (update_arbiter i c)) = c_missing_ticks c"
  "c_command_buf (snd (update_arbiter i c)) = c_command_buf c"
  "c_token_seq (snd (update_arbiter i c)) = c_token_seq c"
  "c_token_buf (snd (update_arbiter i c)) = c_token_buf c"
  by (simp_all add: update_arbiter_def Let_def split: arb_mode.split)

lemma gather_frame [ctl_frame, simp]:
  "c_state (snd (gather_robot_state i c)) = c_state c"
  "c_init_ticks (snd (gather_robot_state i c)) = c_init_ticks c"
  "c_missing_ticks (snd (gather_robot_state i c)) = c_missing_ticks c"
  "c_command_buf (snd (gather_robot_state i c)) = c_command_buf c"
  "c_token_seq (snd (gather_robot_state i c)) = c_token_seq c"
  "c_token_buf (snd (gather_robot_state i c)) = c_token_buf c"
  "c_arbiter (snd (gather_robot_state i c)) = c_arbiter c"
  "c_playback (snd (gather_robot_state i c)) = c_playback c"
  "c_cursor (snd (gather_robot_state i c)) = c_cursor c"
  by (simp_all add: gather_robot_state_def Let_def split: option.split)

lemma vr3_edge_frame [ctl_frame, simp]:
  "c_state (vr3_edge i c) = c_state c" "c_init_ticks (vr3_edge i c) = c_init_ticks c"
  "c_missing_ticks (vr3_edge i c) = c_missing_ticks c"
  "c_command_buf (vr3_edge i c) = c_command_buf c" "c_token_seq (vr3_edge i c) = c_token_seq c"
  "c_token_buf (vr3_edge i c) = c_token_buf c" "c_playback (vr3_edge i c) = c_playback c"
  "c_cursor (vr3_edge i c) = c_cursor c" "c_playing (vr3_edge i c) = c_playing c"
  by (simp_all add: vr3_edge_def Let_def)

lemma smpl_edge_frame [ctl_frame, simp]:
  "c_state (snd (smpl_edge i c)) = c_state c" "c_init_ticks (snd (smpl_edge i c)) = c_init_ticks c"
  "c_missing_ticks (snd (smpl_edge i c)) = c_missing_ticks c"
  "c_command_buf (snd (smpl_edge i c)) = c_command_buf c"
  "c_token_seq (snd (smpl_edge i c)) = c_token_seq c"
  "c_token_buf (snd (smpl_edge i c)) = c_token_buf c"
  "c_playback (snd (smpl_edge i c)) = c_playback c" "c_cursor (snd (smpl_edge i c)) = c_cursor c"
  by (simp_all add: smpl_edge_def Let_def)

text \<open>Decoding: either nothing but the decoder changes, or the policy's command is out.\<close>

lemma decode_cases:
  assumes "decode_and_publish nets i token enc_ran c = (ok, c')"
  obtains d where "\<not> ok" "c' = c\<lparr>c_decoder := d\<rparr>"
  | d action where "ok" "c' = record_token i token enc_ran
      (put_command (ci_now i) (action_command action) (c\<lparr>c_decoder := d\<rparr>))"
proof -
  obtain out d where s: "decoder_step (snd nets) token (c_logger c) (c_decoder c) = (out, d)"
    by fastforce
  show thesis
  proof (cases out)
    case None
    with assms s show thesis by (intro that(1)[of d]) (simp_all add: decode_and_publish_def)
  next
    case (Some cmd)
    then obtain action where "cmd = action_command action" using decoder_step_Some s by metis
    with Some assms s show thesis
      by (intro that(2)[of action d]) (simp_all add: decode_and_publish_def)
  qed
qed

text \<open>
  The fields every CONTROL tick keeps; its command is the old one or a policy command, and the
  token counter says which.
\<close>

definition control_keeps :: "controller \<Rightarrow> controller \<Rightarrow> bool" where
  "control_keeps c c' \<longleftrightarrow> c_state c' = c_state c \<and> c_init_ticks c' = c_init_ticks c \<and>
     c_missing_ticks c' = c_missing_ticks c \<and>
     (c_token_seq c' = c_token_seq c \<and> c_command_buf c' = c_command_buf c \<and>
        c_token_buf c' = c_token_buf c \<or>
      c_token_seq c' = c_token_seq c + 1 \<and>
        (\<exists>action. get_data (c_command_buf c') = Some (action_command action)) \<and>
        (\<exists>s. get_data (c_token_buf c') = Some s \<and> mt_seq s = c_token_seq c' \<and>
             mt_token s = held_token (c_arbiter c') \<and> mt_arbiter_mode s = arb_mode (c_arbiter c')))"

lemma control_keeps_refl: "control_keeps c c"
  by (simp add: control_keeps_def)

lemma decode_keeps:
  assumes "decode_and_publish nets i token enc_ran c = (ok, c')" "held_token (c_arbiter c) = token"
  shows "control_keeps c c'"
  using assms(1)
  by (rule decode_cases)
    (use assms(2) in \<open>auto simp: control_keeps_def record_token_def Let_def\<close>)

lemma control_keeps_trans_left:
  assumes "control_keeps c1 c'" "c_state c1 = c_state c" "c_init_ticks c1 = c_init_ticks c"
    "c_missing_ticks c1 = c_missing_ticks c" "c_command_buf c1 = c_command_buf c"
    "c_token_seq c1 = c_token_seq c" "c_token_buf c1 = c_token_buf c"
  shows "control_keeps c c'"
  using assms by (simp add: control_keeps_def)

lemma control_keeps_advance:
  "control_keeps c c' \<Longrightarrow> control_keeps c (advance_playback p c')"
  by (simp add: control_keeps_def)

lemma tick_vla_keeps: "tick_vla nets i c = Some c' \<Longrightarrow> control_keeps c c'"
proof -
  assume t: "tick_vla nets i c = Some c'"
  show ?thesis
  proof (cases "ci_vla_later i")
    case None
    with t show ?thesis by (simp add: tick_vla_def control_keeps_refl)
  next
    case (Some v)
    with t obtain token arb where s: "select_token None (Some (la_token v)) (c_arbiter c) = Some (token, arb)"
      and c': "c' = snd (decode_and_publish nets i token False (c\<lparr>c_arbiter := arb\<rparr>))"
      by (auto simp: tick_vla_def split: option.splits)
    obtain ok where d: "decode_and_publish nets i token False (c\<lparr>c_arbiter := arb\<rparr>) = (ok, c')"
      using c' by (metis prod.collapse)
    show ?thesis
      by (rule control_keeps_trans_left[OF decode_keeps[OF d]])
        (simp_all add: select_token_held[OF s])
  qed
qed

lemma tick_recovery_keeps: "tick_recovery nets i c = Some (eff, c') \<Longrightarrow> control_keeps c c'"
proof -
  assume t: "tick_recovery nets i c = Some (eff, c')"
  then obtain token arb where s: "select_token None None (c_arbiter c) = Some (token, arb)"
    by (auto simp: tick_recovery_def split: option.splits)
  let ?c1 = "c\<lparr>c_arbiter := arb\<rparr>"
  let ?c2 = "if recovery_blend_done arb \<and> \<not> c_ticket_issued ?c1
      then ?c1\<lparr>c_ticket := ci_reinit_requested i + 1, c_ticket_issued := True\<rparr> else ?c1"
  have c': "c' = snd (decode_and_publish nets i token False ?c2)"
    using t s by (simp add: tick_recovery_def Let_def split: if_splits)
  obtain ok where d: "decode_and_publish nets i token False ?c2 = (ok, c')"
    using c' by (metis prod.collapse)
  show ?thesis
    by (rule control_keeps_trans_left[OF decode_keeps[OF d]])
      (simp_all add: select_token_held[OF s])
qed

lemma tick_tracking_keeps: "tick_tracking nets i c = Some (eff, c') \<Longrightarrow> control_keeps c c'"
proof -
  assume t: "tick_tracking nets i c = Some (eff, c')"
  show ?thesis
  proof (cases "timesteps (c_playback c) = 0")
    case True
    with t show ?thesis by (auto simp: tick_tracking_def intro: control_keeps_advance control_keeps_refl)
  next
    case False
    obtain e1 c1 where e: "smpl_edge i (vr3_edge i c) = (e1, c1)" by fastforce
    have c1: "c_state c1 = c_state c" "c_init_ticks c1 = c_init_ticks c"
      "c_missing_ticks c1 = c_missing_ticks c" "c_command_buf c1 = c_command_buf c"
      "c_token_seq c1 = c_token_seq c" "c_token_buf c1 = c_token_buf c"
      using smpl_edge_frame[of i "vr3_edge i c"] e by simp_all
    obtain tok enc where n: "encoder_step (fst nets) (c_playback c1) (c_cursor c1) (c_playing c1)
        (c_logger c1) (ci_vr3 i) (ci_smpl i) (c_encoder c1) = (tok, enc)" by fastforce
    show ?thesis
    proof (cases tok)
      case None
      with t False e n c1 show ?thesis
        by (auto simp: tick_tracking_def control_keeps_def)
    next
      case (Some tk)
      with t False e n obtain token arb where s: "select_token (Some tk) None (c_arbiter c1) = Some (token, arb)"
        by (auto simp: tick_tracking_def split: option.splits)
      let ?c1 = "c1\<lparr>c_encoder := enc, c_arbiter := arb\<rparr>"
      obtain ok c2 where d: "decode_and_publish nets i token True ?c1 = (ok, c2)" by fastforce
      have k: "control_keeps c c2"
        by (rule control_keeps_trans_left[OF decode_keeps[OF d]])
          (simp_all add: select_token_held[OF s] c1)
      have "c' = (if ok then advance_playback (ci_plan i) c2 else c2)"
        using t False e n Some s d by (auto simp: tick_tracking_def split: bool.splits)
      with k control_keeps_advance[OF k] show ?thesis by simp
    qed
  qed
qed

lemma tick_control_keeps: "tick_control nets i c = Some (eff, c') \<Longrightarrow> control_keeps c c'"
proof -
  assume t: "tick_control nets i c = Some (eff, c')"
  obtain ok c0 where g: "gather_robot_state i c = (ok, c0)" by fastforce
  have c0: "c_state c0 = c_state c" "c_init_ticks c0 = c_init_ticks c"
    "c_missing_ticks c0 = c_missing_ticks c" "c_command_buf c0 = c_command_buf c"
    "c_token_seq c0 = c_token_seq c" "c_token_buf c0 = c_token_buf c"
    using gather_frame[of i c] g by simp_all
  show ?thesis
  proof (cases "ok \<and> \<not> (c_reseed_ticket c0 \<noteq> 0 \<and> ci_reinit_done i < c_reseed_ticket c0)")
    case False
    with t g c0 show ?thesis
      by (auto simp: tick_control_def control_keeps_def split: bool.splits if_splits)
  next
    case True
    obtain e1 c1 where u: "update_arbiter i (c0\<lparr>c_reseed_ticket := 0\<rparr>) = (e1, c1)" by fastforce
    have c1: "c_state c1 = c_state c" "c_init_ticks c1 = c_init_ticks c"
      "c_missing_ticks c1 = c_missing_ticks c" "c_command_buf c1 = c_command_buf c"
      "c_token_seq c1 = c_token_seq c" "c_token_buf c1 = c_token_buf c"
      using update_arbiter_frame[of i "c0\<lparr>c_reseed_ticket := 0\<rparr>"] u c0 by simp_all
    have "control_keeps c1 c'"
      using t g u True
      by (cases "arb_mode (c_arbiter c1)")
        (auto simp: tick_control_def apfst_def map_prod_def
          dest: tick_vla_keeps tick_recovery_keeps tick_tracking_keeps split: prod.splits)
    then show ?thesis by (rule control_keeps_trans_left) (simp_all add: c1)
  qed
qed

lemma pose_command_gains [simp]:
  "mc_kp (pose_command t) = g1_kps" "mc_kd (pose_command t) = g1_kds"
  by (rule nth_equalityI; simp add: pose_command_def)+

lemma pose_command_target: "k < 29 \<Longrightarrow> q_target (pose_command t) ! k = t k"
  by (simp add: pose_command_def)

lemma action_command_gains [simp]:
  "mc_kp (action_command a) = g1_kps" "mc_kd (action_command a) = g1_kds"
  by (rule nth_equalityI; simp add: action_command_def)+

section \<open>Damping only on the emergency stop\<close>

text \<open>The command in the buffer, if any, stiffens the joints with the policy gains.\<close>

definition stiff :: "controller \<Rightarrow> bool" where
  "stiff c \<longleftrightarrow> (\<forall>cmd. get_data (c_command_buf c) = Some cmd \<longrightarrow>
     mc_kp cmd = g1_kps \<and> mc_kd cmd = g1_kds)"

lemma stiff_tick_init: "stiff c \<Longrightarrow> stiff (tick_init i c)"
  by (auto simp: tick_init_def stiff_def Let_def split: option.split)

lemma stiff_missing: "stiff c \<Longrightarrow> stiff (missing_tick i c)"
  by (auto simp: missing_tick_def publish_base_hold_def stiff_def Let_def split: option.split)

lemma stiff_keeps: "control_keeps c c' \<Longrightarrow> stiff c \<Longrightarrow> stiff c'"
  by (auto simp: control_keeps_def stiff_def)

lemma state_back_frame:
  "c_state (snd (state_back i c)) = c_state c" "c_init_ticks (snd (state_back i c)) = c_init_ticks c"
  "c_command_buf (snd (state_back i c)) = c_command_buf c"
  "c_token_seq (snd (state_back i c)) = c_token_seq c"
  "c_missing_ticks (snd (state_back i c)) = (if 0 < c_missing_ticks c then 0 else c_missing_ticks c)"
  by (simp_all add: state_back_def)

text \<open>A tick, by the branch it takes.\<close>

lemma ctl_tick_cases:
  assumes "ctl_tick nets i c = Some (eff, c')"
  obtains (estop) "ci_estop i" "eff = []" "c' = publish_damping (ci_now i) (c\<lparr>c_state := ESTOP\<rparr>)"
  | (lost) "\<not> ci_estop i" "\<not> check_safety i" "eff = []" "c' = missing_tick i c"
  | (init) e c1 where "\<not> ci_estop i" "check_safety i" "state_back i c = (e, c1)" "c_state c = INIT"
      "c' = tick_init i c1"
  | (wait) e c1 where "\<not> ci_estop i" "check_safety i" "state_back i c = (e, c1)"
      "c_state c = WAIT_FOR_CONTROL"
      "c' = (if c_operator_start c1 \<or> c_auto_start c1 then c1\<lparr>c_state := CONTROL\<rparr> else c1)"
  | (control) e c1 j eff1 where "\<not> ci_estop i" "check_safety i" "state_back i c = (e, c1)"
      "c_state c = CONTROL" "tick_control nets j c1 = Some (eff1, c')" "eff = e @ eff1"
      "ci_plan j = ci_plan i" "ci_state_later j = ci_state_later i"
  | (stopped) e c1 where "\<not> ci_estop i" "check_safety i" "state_back i c = (e, c1)"
      "c_state c = ESTOP" "c' = c1"
proof -
  obtain e c1 where b: "state_back i c = (e, c1)" by fastforce
  have st: "c_state c1 = c_state c" using state_back_frame(1)[of i c] b by simp
  let ?j = "i\<lparr>ci_reinit_requested := ci_reinit_requested i + length (filter ((=) RequestReinit) e)\<rparr>"
  show thesis
  proof (cases "ci_estop i \<or> \<not> check_safety i")
    case True
    with assms show thesis
      by (cases "ci_estop i") (use estop lost in \<open>simp_all add: ctl_tick_def\<close>)
  next
    case ok: False
    show thesis
    proof (cases "c_state c")
      case INIT
      with ok assms b st show thesis by (intro init[OF _ _ b]) (auto simp: ctl_tick_def)
    next
      case WAIT_FOR_CONTROL
      with ok assms b st show thesis by (intro wait[OF _ _ b]) (auto simp: ctl_tick_def)
    next
      case CONTROL
      then obtain eff1 where t: "tick_control nets ?j c1 = Some (eff1, c')" "eff = e @ eff1"
        using ok assms b st by (auto simp: ctl_tick_def apfst_def map_prod_def split: prod.splits)
      show thesis by (rule control[OF _ _ b CONTROL t]) (use ok in auto)
    next
      case ESTOP
      with ok assms b st show thesis by (intro stopped[OF _ _ b]) (auto simp: ctl_tick_def)
    qed
  qed
qed

lemma stiff_tick:
  assumes "ctl_tick nets i c = Some (eff, c')" "\<not> ci_estop i" "stiff c"
  shows "stiff c'"
proof -
  have b: "stiff c1" if "state_back i c = (e, c1)" for e c1
    using assms(3) state_back_frame(3)[of i c] that by (simp add: stiff_def)
  from assms(1) show ?thesis
  proof (cases rule: ctl_tick_cases)
    case (init e c1)
    with b show ?thesis by (simp add: stiff_tick_init)
  next
    case (wait e c1)
    with b[of e c1] show ?thesis by (auto simp: stiff_def)
  next
    case (control e c1 j eff1)
    with b stiff_keeps[OF tick_control_keeps] show ?thesis by blast
  qed (use assms b stiff_missing in auto)
qed

lemma ctl_run_snoc_induct:
  assumes "ctl_run nets is c = Some (eff, c')" "P c"
    and "\<And>i c eff c'. i \<in> set is \<Longrightarrow> ctl_tick nets i c = Some (eff, c') \<Longrightarrow> P c \<Longrightarrow> P c'"
  shows "P c'"
  using assms
proof (induction "is" arbitrary: c eff)
  case (Cons i "is")
  obtain e1 c1 where t: "ctl_tick nets i c = Some (e1, c1)"
    using Cons.prems(1) by (auto split: option.splits)
  then obtain e2 where r: "ctl_run nets is c1 = Some (e2, c')"
    using Cons.prems(1) by (auto simp: apfst_def map_prod_def split: option.splits)
  have "P c1" using Cons.prems(2,3) t by auto
  then show ?case using Cons.IH[OF r] Cons.prems(3) by auto
qed simp


text \<open>Tick inputs for the witnesses: the state fresh, or lost.\<close>

definition standing :: robot_state where
  "standing = \<lparr>imu_quaternion = (1, 0, 0, 0), imu_gyroscope = (0, 0, 0),
     motor_q = replicate 29 (1/10), motor_dq = replicate 29 0\<rparr>"

definition good_in :: ctl_in where
  "good_in = \<lparr>ci_now = 0, ci_epoch_ns = 0, ci_estop = False,
     ci_state = \<lparr>ts_data = Some standing, ts_time = 0\<rparr>, ci_state_later = Some standing,
     ci_plan = \<lparr>ts_data = None, ts_time = 0\<rparr>, ci_vla = \<lparr>ts_data = None, ts_time = 0\<rparr>,
     ci_vla_later = None, ci_calibrated = False, ci_vr3 = None, ci_smpl = None,
     ci_reinit_requested = 0, ci_reinit_done = 0\<rparr>"

definition lost_in :: ctl_in where
  "lost_in = good_in\<lparr>ci_state := \<lparr>ts_data = None, ts_time = 0\<rparr>, ci_state_later := None\<rparr>"

lemma good_safe: "check_safety good_in" "\<not> check_safety lost_in"
  by (simp_all add: check_safety_def good_in_def lost_in_def has_data_def get_age_ms_def kStateStaleMs_def)


section \<open>Losing and regaining the robot state\<close>

definition missing_in :: "ctl_in \<Rightarrow> bool" where
  "missing_in i \<longleftrightarrow> \<not> ci_estop i \<and> \<not> check_safety i"

lemma ctl_tick_missing: "missing_in i \<Longrightarrow> ctl_tick nets i c = Some ([], missing_tick i c)"
  by (simp add: missing_in_def ctl_tick_def)

lemma ctl_run_missing:
  "list_all missing_in is \<Longrightarrow> ctl_run nets is c = Some ([], fold missing_tick is c)"
  by (induction "is" arbitrary: c) (simp_all add: ctl_tick_missing apfst_def map_prod_def)

text \<open>After \<open>n\<close> missed ticks: still the last command, or on the ramp from it.\<close>

definition holding :: "motor_command \<Rightarrow> nat \<Rightarrow> controller \<Rightarrow> bool" where
  "holding from n c \<longleftrightarrow> c_missing_ticks c = int n \<and>
     (if n \<le> 25 then get_data (c_command_buf c) = Some from
      else c_base_ramp_from c = from \<and>
           get_data (c_command_buf c) = Some (pose_command (\<lambda>k.
             q_target from ! k * (1 - base_hold_ratio (int n))
               + g1_default_angles ! k * base_hold_ratio (int n))))"

lemma holding_step: "holding from n c \<Longrightarrow> holding from (Suc n) (missing_tick i c)"
  by (auto simp: holding_def missing_tick_def publish_base_hold_def Let_def ctl_consts put_command_def
      add.commute)

lemma holding_fold:
  "holding from n c \<Longrightarrow> holding from (n + length is) (fold missing_tick is c)"
proof (induction "is" arbitrary: n c)
  case (Cons i "is")
  from Cons.IH[OF holding_step[OF Cons.prems, of i]] show ?case by simp
qed simp

text \<open>
  C24: A lost robot state is ridden out on the last command: for 25 ticks the published command
  does not change at all; from then on its target moves in 50 equal steps from the last command
  to the standing pose, which it reaches after 75 ticks and holds as long as the state is
  missing, never leaving the interval between the two.
\<close>
theorem lost_state_ramps_to_standing:
  assumes "list_all missing_in is" "c_missing_ticks c = 0" "get_data (c_command_buf c) = Some from"
    and "length (q_target from) = 29" "k < 29"
  shows "\<exists>c' cmd. ctl_run nets is c = Some ([], c') \<and> get_data (c_command_buf c') = Some cmd
    \<and> (length is \<le> 25 \<longrightarrow> cmd = from)
    \<and> (25 < length is \<longrightarrow> q_target cmd ! k = mix (min ((real (length is) - 25) / 50) 1)
        (q_target from ! k) (g1_default_angles ! k))
    \<and> (75 \<le> length is \<longrightarrow> q_target cmd = g1_default_angles)
    \<and> min (q_target from ! k) (g1_default_angles ! k) \<le> q_target cmd ! k
    \<and> q_target cmd ! k \<le> max (q_target from ! k) (g1_default_angles ! k)"
proof -
  let ?n = "length is" and ?c' = "fold missing_tick is c"
  have "holding from 0 c" using assms(2,3) by (simp add: holding_def)
  from holding_fold[OF this, of "is"] have h: "holding from ?n ?c'" by simp
  have ratio: "base_hold_ratio (int ?n) = min ((real ?n - 25) / 50) 1" if "25 < ?n"
    using that by (simp add: base_hold_ratio_def ctl_consts clamp_def min_def)
  define cmd where "cmd = (if ?n \<le> 25 then from else pose_command (\<lambda>k.
      q_target from ! k * (1 - base_hold_ratio (int ?n))
        + g1_default_angles ! k * base_hold_ratio (int ?n)))"
  have data: "get_data (c_command_buf ?c') = Some cmd"
    using h by (simp add: holding_def cmd_def split: if_splits)
  have tgt: "q_target cmd ! j = mix (base_hold_ratio (int ?n)) (q_target from ! j) (g1_default_angles ! j)"
    if "25 < ?n" "j < 29" for j
    using that by (simp add: cmd_def pose_command_target mix_def mult.commute)
  have r01: "0 \<le> base_hold_ratio (int ?n)" "base_hold_ratio (int ?n) \<le> 1"
    by (simp_all add: base_hold_ratio_def clamp_lower clamp_upper)
  have full: "q_target cmd = g1_default_angles" if "75 \<le> ?n"
  proof (rule nth_equalityI)
    have "base_hold_ratio (int ?n) = 1" using that by (subst ratio) (simp_all add: min_def)
    then show "q_target cmd ! j = g1_default_angles ! j" if "j < length (q_target cmd)" for j
      using tgt[of j] that \<open>75 \<le> ?n\<close> by (simp add: cmd_def pose_command_def)
  qed (use that in \<open>simp add: cmd_def pose_command_def\<close>)
  show ?thesis
    using ctl_run_missing[OF assms(1)] data full ratio tgt[OF _ assms(5)]
      mix_min_max[OF r01, of "q_target from ! k" "g1_default_angles ! k"]
    by (intro exI[of _ ?c'] exI[of _ cmd]) (auto simp: cmd_def)
qed

lemma lost_state_ramps_to_standing_witness:
  "\<exists>c' cmd. ctl_run (\<lambda>_. None, \<lambda>_. None) (replicate 80 lost_in)
      (put_command 0 damping_command (controller_new True)) = Some ([], c')
    \<and> get_data (c_command_buf c') = Some cmd \<and> q_target cmd = g1_default_angles"
proof -
  have "list_all missing_in (replicate 80 lost_in)"
    using good_safe by (simp add: list_all_iff missing_in_def) (simp add: lost_in_def good_in_def)
  from lost_state_ramps_to_standing[OF this, of "put_command 0 damping_command (controller_new True)"
      damping_command 0 "(\<lambda>_. None, \<lambda>_. None)"]
  show ?thesis by (auto simp: controller_new_def damping_command_def motor_command_zero_def)
qed



section \<open>The state machine\<close>

definition wbc_inv :: "controller \<Rightarrow> bool" where
  "wbc_inv c \<longleftrightarrow> 0 \<le> c_missing_ticks c \<and> 0 \<le> c_init_ticks c \<and> c_init_ticks c \<le> 150 \<and>
     (c_state c = INIT \<longrightarrow> c_init_ticks c < 150) \<and>
     (c_state c \<in> {WAIT_FOR_CONTROL, CONTROL} \<longrightarrow> c_init_ticks c = 150)"

lemma missing_tick_frame:
  "c_state (missing_tick i c) = c_state c" "c_init_ticks (missing_tick i c) = c_init_ticks c"
  "c_missing_ticks (missing_tick i c) = c_missing_ticks c + 1"
  "c_token_seq (missing_tick i c) = c_token_seq c"
  "c_playback (missing_tick i c) = c_playback c" "c_cursor (missing_tick i c) = c_cursor c"
  by (simp_all add: missing_tick_def publish_base_hold_def Let_def put_command_def split: option.split)

lemma wbc_inv_tick:
  assumes "ctl_tick nets i c = Some (eff, c')" "wbc_inv c"
  shows "wbc_inv c'"
proof -
  have b: "wbc_inv c1" "c_state c1 = c_state c" if "state_back i c = (e, c1)" for e c1
    using assms(2) state_back_frame[of i c] that by (auto simp: wbc_inv_def split: if_splits)
  from assms(1) show ?thesis
  proof (cases rule: ctl_tick_cases)
    case estop
    then show ?thesis using assms(2) by (simp add: wbc_inv_def publish_damping_def)
  next
    case lost
    then show ?thesis using assms(2) by (simp add: wbc_inv_def missing_tick_frame)
  next
    case (init e c1)
    with b[of e c1] show ?thesis
      by (auto simp: tick_init_def wbc_inv_def Let_def kInitTicks_def split: option.split)
  next
    case (wait e c1)
    with b[of e c1] show ?thesis by (auto simp: wbc_inv_def)
  next
    case (control e c1 j eff1)
    with b[of e c1] tick_control_keeps[OF control(5)] show ?thesis
      by (simp add: wbc_inv_def control_keeps_def)
  next
    case (stopped e c1)
    with b[of e c1] show ?thesis by simp
  qed
qed

text \<open>The edges of the state machine.\<close>

definition wbc_edge :: "wbc_state \<Rightarrow> wbc_state \<Rightarrow> bool" where
  "wbc_edge a b \<longleftrightarrow> a = b \<or> b = ESTOP \<or> (a, b) \<in> {(INIT, WAIT_FOR_CONTROL), (WAIT_FOR_CONTROL, CONTROL)}"



section \<open>Blending a new plan in\<close>

lemma length_blend_frame:
  "frame_wf a \<Longrightarrow> frame_wf b \<Longrightarrow> frame_wf (blend_frame a b w)"
  by (simp add: frame_wf_def blend_frame_def)

lemma clamp_index:
  fixes x :: int
  assumes "0 < n"
  shows "0 \<le> clamp x 0 (n - 1)" "clamp x 0 (n - 1) < n"
  using clamp_lower[of 0 "n - 1" x] clamp_upper[of 0 "n - 1" x] assms by simp_all

lemma blend_motions_wf:
  assumes "motion_wf old" "0 < timesteps old" "motion_wf gen" "0 < timesteps gen"
    and "0 \<le> n" "n \<le> kCapacity"
  shows "motion_wf (blend_motions old cur gen n)" "timesteps (blend_motions old cur gen n) = n"
  using assms clamp_index
  by (auto simp: blend_motions_def motion_wf_def Let_def list_all_length
      intro!: length_blend_frame frame_at_wf)

lemma blend_motions_frame:
  assumes "f < nat n"
  shows "frames (blend_motions old cur gen n) ! f =
    blend_frame (frame_at old (clamp (int f + cur) 0 (timesteps old - 1)))
      (frame_at gen (clamp (int f + cur - gen_frame gen) 0 (timesteps gen - 1)))
      (blend_weight (max 0 (gen_frame gen - cur)) (int f))"
  using assms by (simp add: blend_motions_def Let_def)

lemma blend_weight_range: "0 \<le> blend_weight b f \<and> blend_weight b f \<le> 1"
  by (simp add: blend_weight_def clamp_lower clamp_upper)



section \<open>Playback is always readable\<close>

definition playback_inv :: "controller \<Rightarrow> bool" where
  "playback_inv c \<longleftrightarrow> motion_wf (c_playback c) \<and> 0 \<le> c_cursor c \<and>
     (timesteps (c_playback c) = 0 \<and> c_cursor c = 0 \<or> c_cursor c < timesteps (c_playback c))"

definition plan_ok :: "motion_seq timestamped \<Rightarrow> bool" where
  "plan_ok p \<longleftrightarrow> (\<forall>m. ts_data p = Some m \<longrightarrow> motion_wf m \<and> 0 < timesteps m)"

lemma playback_inv_adopt:
  assumes "playback_inv c" "plan_ok p"
  shows "playback_inv (adopt_plan p c)"
proof (cases "ts_data p")
  case None
  with assms show ?thesis by (simp add: adopt_plan_def)
next
  case (Some gen)
  have gen: "motion_wf gen" "0 < timesteps gen" using assms(2) Some by (simp_all add: plan_ok_def)
  let ?n = "gen_frame gen - c_cursor c + timesteps gen"
  show ?thesis
  proof (cases "ts_time p \<noteq> c_plan_stamp c \<and> timesteps (c_playback c) \<noteq> 0 \<and> 0 < ?n")
    case True
    then have "0 < timesteps (c_playback c)" "motion_wf (c_playback c)"
      using assms(1) by (auto simp: playback_inv_def motion_wf_def)
    with blend_motions_wf[OF this(2,1) gen, of "min ?n kCapacity" "c_cursor c"] True Some show ?thesis
      by (simp add: adopt_plan_def playback_inv_def Let_def kCapacity_def)
  next
    case False
    with assms(1) Some gen show ?thesis
      by (auto simp: adopt_plan_def playback_inv_def Let_def)
  qed
qed

lemma playback_inv_advance:
  assumes "playback_inv c" "plan_ok p"
  shows "playback_inv (advance_playback p c)"
  using playback_inv_adopt[OF assms]
  by (auto simp: advance_playback_def playback_inv_def Let_def)

lemma playback_inv_same:
  "playback_inv c \<Longrightarrow> c_playback c' = c_playback c \<Longrightarrow> c_cursor c' = c_cursor c \<Longrightarrow> playback_inv c'"
  by (simp add: playback_inv_def)

lemma playback_inv_drop: "c_playback c' = motion_empty \<Longrightarrow> c_cursor c' = 0 \<Longrightarrow> playback_inv c'"
  by (simp add: playback_inv_def) (simp add: motion_empty_def)

lemma update_arbiter_playback:
  assumes "playback_inv c"
  shows "playback_inv (snd (update_arbiter i c))"
  using assms playback_inv_drop[of "drop_playback d" for d]
  by (auto simp: update_arbiter_def Let_def drop_playback_def playback_inv_drop
      intro: playback_inv_same split: arb_mode.split)

lemma decode_playback:
  "c_playback (snd (decode_and_publish nets i t b c)) = c_playback c"
  "c_cursor (snd (decode_and_publish nets i t b c)) = c_cursor c"
  by (simp_all add: decode_and_publish_def split: prod.split option.split)

lemma edge_modes [simp]:
  "arb_mode (arm_handoff a) = arb_mode a"
  "arb_mode (c_arbiter (vr3_edge i c)) = arb_mode (c_arbiter c)"
  "arb_mode (c_arbiter (snd (smpl_edge i c))) = arb_mode (c_arbiter c)"
  by (simp_all add: arm_handoff_def vr3_edge_def smpl_edge_def Let_def)

lemma tick_vla_total:
  assumes "playback_inv c" "arb_mode (c_arbiter c) = KVla"
  shows "\<exists>c'. tick_vla nets i c = Some c' \<and> playback_inv c'"
proof (cases "ci_vla_later i")
  case (Some v)
  then obtain r where "select_token None (Some (la_token v)) (c_arbiter c) = Some r"
    using select_token_total_vla[OF assms(2)] by blast
  with Some assms(1) show ?thesis
    by (cases r) (auto simp: tick_vla_def decode_playback intro: playback_inv_same)
qed (simp add: tick_vla_def assms)

lemma tick_recovery_total:
  assumes "playback_inv c" "arb_mode (c_arbiter c) = KRecovering"
  shows "\<exists>r. tick_recovery nets i c = Some r \<and> playback_inv (snd r)"
proof -
  obtain t a where "select_token None None (c_arbiter c) = Some (t, a)"
    using select_token_total_recovering[OF assms(2)] by force
  with assms(1) show ?thesis
    by (auto simp: tick_recovery_def Let_def decode_playback intro: playback_inv_same)
qed

lemma tick_tracking_total:
  assumes "playback_inv c" "plan_ok (ci_plan i)" "arb_mode (c_arbiter c) \<in> {KNormal, KTeleop}"
  shows "\<exists>r. tick_tracking nets i c = Some r \<and> playback_inv (snd r)"
proof (cases "timesteps (c_playback c) = 0")
  case True
  with assms show ?thesis by (simp add: tick_tracking_def playback_inv_advance)
next
  case False
  obtain e1 c1 where e: "smpl_edge i (vr3_edge i c) = (e1, c1)" by fastforce
  have c1: "playback_inv c1" "arb_mode (c_arbiter c1) \<in> {KNormal, KTeleop}"
    using assms smpl_edge_frame[of i "vr3_edge i c"] edge_modes(3)[of i "vr3_edge i c"] e
    by (auto intro: playback_inv_same)
  obtain tok enc where n: "encoder_step (fst nets) (c_playback c1) (c_cursor c1) (c_playing c1)
      (c_logger c1) (ci_vr3 i) (ci_smpl i) (c_encoder c1) = (tok, enc)" by fastforce
  show ?thesis
  proof (cases tok)
    case None
    with False e n c1 show ?thesis
      by (auto simp: tick_tracking_def intro: playback_inv_same)
  next
    case (Some tk)
    obtain t a where s: "select_token (Some tk) None (c_arbiter c1) = Some (t, a)"
      using select_token_total_encoder[OF c1(2)] by force
    obtain ok c2 where d: "decode_and_publish nets i t True (c1\<lparr>c_encoder := enc, c_arbiter := a\<rparr>)
        = (ok, c2)" by fastforce
    have "playback_inv c2"
      using decode_playback[of nets i t True "c1\<lparr>c_encoder := enc, c_arbiter := a\<rparr>"] d c1(1)
      by (auto intro: playback_inv_same)
    with False e n Some s d assms(2) show ?thesis
      by (cases ok) (simp_all add: tick_tracking_def playback_inv_advance)
  qed
qed

lemma tick_control_total:
  assumes "playback_inv c" "plan_ok (ci_plan i)"
  shows "\<exists>r. tick_control nets i c = Some r \<and> playback_inv (snd r)"
proof -
  obtain ok c0 where g: "gather_robot_state i c = (ok, c0)" by fastforce
  have c0: "playback_inv c0"
    using assms(1) gather_frame[of i c] g by (auto intro: playback_inv_same)
  show ?thesis
  proof (cases "ok \<and> \<not> (c_reseed_ticket c0 \<noteq> 0 \<and> ci_reinit_done i < c_reseed_ticket c0)")
    case False
    with g c0 show ?thesis by (auto simp: tick_control_def split: bool.split)
  next
    case True
    obtain e1 c1 where u: "update_arbiter i (c0\<lparr>c_reseed_ticket := 0\<rparr>) = (e1, c1)" by fastforce
    have c1: "playback_inv c1"
      using update_arbiter_playback[of "c0\<lparr>c_reseed_ticket := 0\<rparr>" i] u c0
      by (simp add: playback_inv_def)
    note facts = tick_vla_total[OF c1] tick_recovery_total[OF c1] tick_tracking_total[OF c1 assms(2)]
    show ?thesis
    proof (cases "arb_mode (c_arbiter c1)")
      case KVla
      with g u True facts(1)[OF KVla, of nets i] show ?thesis by (auto simp: tick_control_def)
    next
      case KRecovering
      with g u True facts(2)[OF KRecovering, of nets i] show ?thesis by (auto simp: tick_control_def)
    next
      case KNormal
      with g u True facts(3)[of nets] show ?thesis by (auto simp: tick_control_def)
    next
      case KTeleop
      with g u True facts(3)[of nets] show ?thesis by (auto simp: tick_control_def)
    qed
  qed
qed

lemma ctl_tick_total:
  assumes "playback_inv c" "plan_ok (ci_plan i)"
  shows "\<exists>r. ctl_tick nets i c = Some r \<and> playback_inv (snd r)"
proof -
  obtain e c1 where b: "state_back i c = (e, c1)" by fastforce
  have c1: "playback_inv c1"
    using assms(1) b by (auto simp: state_back_def split: if_splits
        intro: playback_inv_same playback_inv_drop)
  let ?j = "i\<lparr>ci_reinit_requested := ci_reinit_requested i + length (filter ((=) RequestReinit) e)\<rparr>"
  have tc: "\<exists>r. tick_control nets ?j c1 = Some r \<and> playback_inv (snd r)"
    by (rule tick_control_total[OF c1]) (simp add: assms(2))
  have ti: "playback_inv (tick_init i c1)"
    using c1 by (auto simp: tick_init_def Let_def intro: playback_inv_same split: option.split)
  have tm: "playback_inv (missing_tick i c)"
    using assms(1) by (rule playback_inv_same) (simp_all add: missing_tick_frame)
  have td: "playback_inv (publish_damping n (c\<lparr>c_state := s\<rparr>))" for n s
    using assms(1) by (rule playback_inv_same) (simp_all add: publish_damping_def)
  show ?thesis
    using b c1 tc ti tm td
    by (cases "c_state c1") (auto simp: ctl_tick_def intro: playback_inv_same)
qed

lemma ctl_run_total:
  "playback_inv c \<Longrightarrow> list_all (\<lambda>i. plan_ok (ci_plan i)) is \<Longrightarrow>
   \<exists>r. ctl_run nets is c = Some r \<and> playback_inv (snd r)"
proof (induction "is" arbitrary: c)
  case (Cons i "is")
  obtain e c1 where t: "ctl_tick nets i c = Some (e, c1)" "playback_inv c1"
    using ctl_tick_total[OF Cons.prems(1), of i nets] Cons.prems(2) by auto
  then show ?case using Cons.IH[OF t(2)] Cons.prems(2) by auto
qed simp

lemma playback_inv_new: "playback_inv (controller_new auto)"
  by (rule playback_inv_drop) (simp_all add: controller_new_def)



section \<open>Mode changes and the recording tap\<close>

text \<open>
  Every change of owner leaves nothing behind: a stream younger than 200 ms takes the
  robot only from the origin and always drops the teleoperation calibration; a stream older than
  500 ms always leads to the recovery with no reseed ticket standing; and the recovery ends only
  in the origin, when the ticket of this recovery is acknowledged, with the old playback gone,
  locomotion disarmed and the token hand-off armed. Without a change nothing else is touched.
\<close>
theorem owner_changes_leave_nothing:
  assumes "update_arbiter i c = (eff, c1)"
  defines "old \<equiv> arb_mode (c_arbiter c)" and "new \<equiv> arb_mode (c_arbiter c1)"
  shows "(new = KVla \<and> old \<noteq> KVla \<longrightarrow> old = KNormal \<and> eff = [ResetCalibration] \<and>
        has_data (ci_vla i) \<and> get_age_ms (ci_now i) (ci_vla i) \<le> 200)
    \<and> (old = KVla \<and> new \<noteq> KVla \<longrightarrow> new = KRecovering \<and> \<not> c_ticket_issued c1 \<and>
        \<not> (has_data (ci_vla i) \<and> get_age_ms (ci_now i) (ci_vla i) \<le> 500))
    \<and> (old = KRecovering \<and> new \<noteq> KRecovering \<longrightarrow> new = KNormal \<and> eff = [DisarmLocomotion] \<and>
        c_ticket_issued c \<and> c_ticket c \<le> ci_reinit_done i \<and> playback_snapshot c1 = None \<and>
        handoff_blend_ticks (c_arbiter c1) = 35)
    \<and> (new = old \<longrightarrow> eff = [] \<and> c1 = c)"
proof -
  let ?arb = "step_mode (has_data (ci_vla i) \<and> get_age_ms (ci_now i) (ci_vla i) \<le> kVlaTokenFreshMs)
      (has_data (ci_vla i) \<and> get_age_ms (ci_now i) (ci_vla i) \<le> kVlaTokenHoldMs) (ci_calibrated i)
      (c_ticket_issued c \<and> ci_reinit_done i \<ge> c_ticket c) (c_arbiter c)"
  have arb: "c_arbiter c1 = ?arb"
    using assms(1) by (auto simp: update_arbiter_def Let_def drop_playback_def
        split: if_splits arb_mode.splits)
  show ?thesis
    using assms(1) unfolding old_def new_def arb
    by (cases "arb_mode (c_arbiter c)")
      (auto simp: update_arbiter_def step_mode_def decide_def Let_def drop_playback_def
        playback_snapshot_def motion_empty_def kVlaTokenFreshMs_def kVlaTokenHoldMs_def
        kHandoffBlendTicks_def split: if_splits)
qed

lemma owner_changes_leave_nothing_witness:
  "let c = (controller_new True)\<lparr>c_arbiter := arbiter_init\<lparr>arb_mode := KRecovering\<rparr>,
       c_ticket_issued := True, c_ticket := 3, c_playback := sample_motion\<rparr>
   in playback_snapshot (snd (update_arbiter (good_in\<lparr>ci_reinit_done := 3\<rparr>) c)) = None"
  using owner_changes_leave_nothing[of "good_in\<lparr>ci_reinit_done := 3\<rparr>"
      "(controller_new True)\<lparr>c_arbiter := arbiter_init\<lparr>arb_mode := KRecovering\<rparr>,
       c_ticket_issued := True, c_ticket := 3, c_playback := sample_motion\<rparr>"
      "fst (update_arbiter (good_in\<lparr>ci_reinit_done := 3\<rparr>)
        ((controller_new True)\<lparr>c_arbiter := arbiter_init\<lparr>arb_mode := KRecovering\<rparr>,
         c_ticket_issued := True, c_ticket := 3, c_playback := sample_motion\<rparr>))"
      "snd (update_arbiter (good_in\<lparr>ci_reinit_done := 3\<rparr>)
        ((controller_new True)\<lparr>c_arbiter := arbiter_init\<lparr>arb_mode := KRecovering\<rparr>,
         c_ticket_issued := True, c_ticket := 3, c_playback := sample_motion\<rparr>))"]
  by (simp add: update_arbiter_def step_mode_def decide_def Let_def drop_playback_def
      playback_snapshot_def motion_empty_def)

text \<open>
  The recording tap is faithful and gap-free: a tick either publishes a token sample,
  numbered one after the last, holding the very token the arbiter decoded in its mode together
  with a policy command of the same tick, or leaves the token buffer and its number untouched;
  so the numbers of the published samples are consecutive over any run.
\<close>
theorem recorded_tokens_are_decoded:
  assumes "ctl_tick nets i c = Some (eff, c')"
  shows "c_token_seq c' = c_token_seq c \<and> c_token_buf c' = c_token_buf c
    \<or> c_token_seq c' = c_token_seq c + 1 \<and> c_state c = CONTROL \<and>
      (\<exists>action. get_data (c_command_buf c') = Some (action_command action)) \<and>
      (\<exists>s. get_data (c_token_buf c') = Some s \<and> mt_seq s = c_token_seq c' \<and>
         mt_token s = held_token (c_arbiter c') \<and> mt_arbiter_mode s = arb_mode (c_arbiter c'))"
  using assms
proof (cases rule: ctl_tick_cases)
  case (control e c1 j eff1)
  have "c_token_seq c1 = c_token_seq c" "c_token_buf c1 = c_token_buf c"
    using control(3) by (auto simp: state_back_def drop_playback_def split: if_splits)
  with tick_control_keeps[OF control(5)] control(4) show ?thesis by (auto simp: control_keeps_def)
next
  case (init e c1)
  then show ?thesis
    by (auto simp: state_back_def tick_init_def Let_def put_command_def drop_playback_def
        split: option.split if_splits)
next
  case (wait e c1)
  then show ?thesis by (auto simp: state_back_def drop_playback_def split: if_splits)
next
  case (stopped e c1)
  then show ?thesis by (auto simp: state_back_def drop_playback_def split: if_splits)
qed (auto simp: publish_damping_def put_command_def missing_tick_def publish_base_hold_def Let_def
    split: option.split)

lemma recorded_tokens_are_decoded_witness:
  "c_token_seq (snd (the (ctl_tick (\<lambda>_. None, \<lambda>_. None) lost_in (controller_new True)))) = 0"
proof -
  have "ctl_tick (\<lambda>_. None, \<lambda>_. None) lost_in (controller_new True) =
      Some ([], missing_tick lost_in (controller_new True))"
    by (rule ctl_tick_missing) (use good_safe in \<open>simp add: missing_in_def lost_in_def good_in_def\<close>)
  from recorded_tokens_are_decoded[OF this] this show ?thesis
    by (simp add: controller_new_def)
qed

end
