(* ===== verification/Hand_Command.thy ===== *)
theory Hand_Command
  imports Prelude
begin

text \<open>
  The hand command of \<open>include/unitree/hand_command.hpp\<close> (mapping from the two controller
  axes to the seven motors of a hand, the hold-to-squeeze timer) and the protection stage of
  \<open>include/unitree/hand_guard.hpp\<close> (stall torque bound, stall latch). Both are pure state
  machines: one call is one tick of the 100 Hz writer, modelled in \<open>Hand_Writer\<close>.
\<close>

section \<open>Commands, states and tables\<close>

record hand_command =
  hc_q :: "real list"
  hc_kp :: "real list"
  hc_kd :: "real list"
  hc_enabled :: bool

definition hand_command_default :: hand_command where
  "hand_command_default = \<lparr>hc_q = replicate 7 0, hc_kp = replicate 7 0, hc_kd = replicate 7 0,
     hc_enabled = True\<rparr>"

record hand_motor_state =
  hm_q :: real
  hm_dq :: real
  hm_tau :: real
  hm_temp_casing :: int
  hm_temp_winding :: int

record hand_state =
  hs_motors :: "hand_motor_state list"
  hs_power_a :: real
  hs_error :: "32 word"

definition hand_motor_zero :: hand_motor_state where
  "hand_motor_zero = \<lparr>hm_q = 0, hm_dq = 0, hm_tau = 0, hm_temp_casing = 0, hm_temp_winding = 0\<rparr>"

definition kHandMotors :: nat where "kHandMotors = 7"
definition kIndexBegin :: nat where "kIndexBegin = 3"
definition kMiddleBegin :: nat where "kMiddleBegin = 5"
definition kMotorEnd :: nat where "kMotorEnd = 7"

definition motor_on_trigger :: "nat \<Rightarrow> bool" where
  "motor_on_trigger i \<longleftrightarrow> kIndexBegin \<le> i \<and> i < kMiddleBegin"

definition kThumbOpenBend :: real where "kThumbOpenBend = 0.35"

definition kDex3LeftOpen :: "real list" where
  "kDex3LeftOpen = [0, - kThumbOpenBend, 0, 0, 0, 0, 0]"
definition kDex3LeftClose :: "real list" where
  "kDex3LeftClose = [0, 1.05, 1.75, -1, -1.5, -1, -1.5]"
definition kDex3RightOpen :: "real list" where
  "kDex3RightOpen = [0, kThumbOpenBend, 0, 0, 0, 0, 0]"
definition kDex3RightClose :: "real list" where
  "kDex3RightClose = [0, -1.05, -1.75, 1, 1.5, 1, 1.5]"
definition kDex3LeftFist :: "real list" where
  "kDex3LeftFist = [0, 1.05, 1.75, -1.57, -1.75, -1.57, -1.75]"
definition kDex3RightFist :: "real list" where
  "kDex3RightFist = [0, -1.05, -1.75, 1.57, 1.75, 1.57, 1.75]"

definition kDex3LeftMin :: "real list" where
  "kDex3LeftMin = [-1.05, -0.724, 0, -1.57, -1.75, -1.57, -1.75]"
definition kDex3LeftMax :: "real list" where
  "kDex3LeftMax = [1.05, 1.05, 1.75, 0, 0, 0, 0]"
definition kDex3RightMin :: "real list" where
  "kDex3RightMin = [-1.05, -1.05, -1.75, 0, 0, 0, 0]"
definition kDex3RightMax :: "real list" where
  "kDex3RightMax = [1.05, 0.742, 0, 1.57, 1.75, 1.57, 1.75]"

lemmas hand_tables = kDex3LeftOpen_def kDex3LeftClose_def kDex3LeftFist_def kDex3LeftMin_def
  kDex3LeftMax_def kDex3RightOpen_def kDex3RightClose_def kDex3RightFist_def kDex3RightMin_def
  kDex3RightMax_def kThumbOpenBend_def

lemmas hand_consts = kHandMotors_def kIndexBegin_def kMiddleBegin_def kMotorEnd_def

text \<open>The joint limits of one hand, as the sources select them.\<close>

definition hand_min :: "bool \<Rightarrow> real list" where
  "hand_min is_left = (if is_left then kDex3LeftMin else kDex3RightMin)"
definition hand_max :: "bool \<Rightarrow> real list" where
  "hand_max is_left = (if is_left then kDex3LeftMax else kDex3RightMax)"

lemma motor_cases: "i < 7 \<Longrightarrow> i \<in> {0, 1, 2, 3, 4, 5, 6}" for i :: nat
  by auto

lemma all_motors: "(\<And>i. i \<in> {0, 1, 2, 3, 4, 5, 6} \<Longrightarrow> P i) \<Longrightarrow> i < 7 \<Longrightarrow> P i" for i :: nat
  using motor_cases by blast

lemma hand_limits_ordered:
  assumes "i < 7"
  shows "hand_min l ! i \<le> hand_max l ! i"
  using motor_cases[OF assms]
  by (cases l) (auto simp: hand_min_def hand_max_def hand_tables)

section \<open>Hold to squeeze\<close>

definition kThreshold :: real where "kThreshold = 0.95"
definition kDwellS :: real where "kDwellS = 0.20"
definition kRampS :: real where "kRampS = 0.30"

text \<open>The timer's state is its \<open>held_s\<close>; an update returns the squeeze fraction.\<close>

definition squeeze_update :: "real \<Rightarrow> real \<Rightarrow> real \<Rightarrow> real \<times> real" where
  "squeeze_update axis dt_s held_s =
     (if axis < kThreshold then (0, 0)
      else let held = held_s + dt_s;
               s = (held - kDwellS) / kRampS
           in (if s < 0 then 0 else if s > 1 then 1 else s, held))"

definition squeeze_reset :: real where "squeeze_reset = 0"

primrec squeeze_run :: "real list \<Rightarrow> real \<Rightarrow> real \<Rightarrow> real" where
  "squeeze_run [] dt_s held_s = held_s"
| "squeeze_run (x # xs) dt_s held_s = squeeze_run xs dt_s (snd (squeeze_update x dt_s held_s))"

lemma squeeze_run_append:
  "squeeze_run (xs @ ys) dt h = squeeze_run ys dt (squeeze_run xs dt h)"
  by (induction xs arbitrary: h) simp_all

lemma squeeze_run_counts:
  "squeeze_run xs dt squeeze_reset = real (tail_run (\<lambda>x. kThreshold \<le> x) xs) * dt"
  by (induction xs rule: rev_induct)
     (auto simp: squeeze_run_append squeeze_update_def squeeze_reset_def Let_def algebra_simps)

lemma squeeze_unit: "0 \<le> fst (squeeze_update x dt h) \<and> fst (squeeze_update x dt h) \<le> 1"
  by (simp add: squeeze_update_def Let_def)

text \<open>
  The squeeze is a pure function of how long the axis has been held at its end: after any
  history of samples at a fixed period it is zero unless the last sample is at the end, stays
  zero through the dwell, and then ramps linearly to one with the length of the last
  uninterrupted hold; a single sample below the threshold drops it to zero at once.
\<close>
theorem squeeze_follows_hold:
  assumes "0 \<le> dt"
  shows "fst (squeeze_update x dt (squeeze_run xs dt squeeze_reset)) =
     (if x < kThreshold then 0
      else clamp ((real (tail_run (\<lambda>x. kThreshold \<le> x) (xs @ [x])) * dt - kDwellS) / kRampS) 0 1)"
  unfolding squeeze_run_counts
  by (auto simp: squeeze_update_def clamp_def Let_def algebra_simps)

lemma squeeze_follows_hold_witness:
  "fst (squeeze_update 1 (1/100) (squeeze_run (replicate 34 1) (1/100) squeeze_reset)) = 1 / 2
   \<and> fst (squeeze_update 0 (1/100) (squeeze_run (replicate 34 1) (1/100) squeeze_reset)) = 0"
  using squeeze_follows_hold[of "1/100" 1 "replicate 34 1"]
    squeeze_follows_hold[of "1/100" 0 "replicate 34 1"]
  by (simp add: kThreshold_def kDwellS_def kRampS_def tail_run_def)

section \<open>Axes to motors\<close>

definition axes_target :: "bool \<Rightarrow> real \<Rightarrow> real \<Rightarrow> nat \<Rightarrow> real" where
  "axes_target is_left t s i =
     (let open_q = (if is_left then kDex3LeftOpen else kDex3RightOpen);
          close_q = (if is_left then kDex3LeftClose else kDex3RightClose);
          fist_q = (if is_left then kDex3LeftFist else kDex3RightFist)
      in open_q ! i + t * (close_q ! i - open_q ! i) + s * (fist_q ! i - close_q ! i))"

definition hand_command_from_axes ::
    "real \<Rightarrow> real \<Rightarrow> real \<Rightarrow> real \<Rightarrow> bool \<Rightarrow> real \<Rightarrow> real \<Rightarrow> hand_command" where
  "hand_command_from_axes grip trigger squeeze_grip squeeze_trigger is_left kp kd =
     (let g = clamp grip 0 1; t = clamp trigger 0 1;
          sg = clamp squeeze_grip 0 1; st = clamp squeeze_trigger 0 1
      in \<lparr>hc_q = map (\<lambda>i. if motor_on_trigger i then axes_target is_left t st i
                          else axes_target is_left g sg i) [0..<kMotorEnd],
          hc_kp = replicate kMotorEnd kp, hc_kd = replicate kMotorEnd kd, hc_enabled = True\<rparr>)"

lemma axes_target_in_limits:
  assumes "i < 7" "0 \<le> t" "t \<le> 1" "0 \<le> s" "s \<le> 1"
  shows "hand_min l ! i \<le> axes_target l t s i \<and> axes_target l t s i \<le> hand_max l ! i"
  using motor_cases[OF assms(1)] assms(2-)
  by (cases l) (auto simp: hand_min_def hand_max_def hand_tables axes_target_def)

lemma axes_target_mirror:
  assumes "i < 7"
  shows "axes_target False t s i = - axes_target True t s i"
  using motor_cases[OF assms] by (auto simp: hand_tables axes_target_def)

lemma length_tables:
  "length kDex3LeftOpen = 7" "length kDex3LeftClose = 7" "length kDex3LeftFist = 7"
  "length kDex3RightOpen = 7" "length kDex3RightFist = 7"
  by (simp_all add: hand_tables)

definition in_hand_limits :: "bool \<Rightarrow> real list \<Rightarrow> bool" where
  "in_hand_limits is_left q \<longleftrightarrow>
     length q = 7 \<and> (\<forall>i<7. hand_min is_left ! i \<le> q ! i \<and> q ! i \<le> hand_max is_left ! i)"

lemma axes_in_limits: "in_hand_limits l (hc_q (hand_command_from_axes g t sg st l kp kd))"
  by (simp add: in_hand_limits_def hand_command_from_axes_def Let_def hand_consts
      axes_target_in_limits clamp_lower clamp_upper)

lemma hand_pose_points:
  "hc_q (hand_command_from_axes 0 0 0 0 True kp kd) = kDex3LeftOpen"
  "hc_q (hand_command_from_axes 0 0 0 0 False kp kd) = kDex3RightOpen"
  "hc_q (hand_command_from_axes 1 1 1 1 True kp kd) = kDex3LeftFist"
  "hc_q (hand_command_from_axes 1 1 1 1 False kp kd) = kDex3RightFist"
  "hc_q (hand_command_from_axes 1 1 0 0 True kp kd) = kDex3LeftClose"
  by (rule nth_equalityI; simp add: hand_command_from_axes_def hand_consts Let_def
      axes_target_def length_tables)+

text \<open>
  The two axes drive disjoint finger groups, the trigger the index finger and the grip thumb
  and middle finger, and both hands mirror each other: the right hand's target is the left
  hand's negated, for every pull of the axes. Grip alone leaves the index extended, nothing
  pulled opens the hand, and both fully squeezed give the fist.
\<close>
theorem axes_drive_finger_groups:
  "(\<forall>i<7. hc_q (hand_command_from_axes g t sg st l kp kd) ! i =
      (if i = 3 \<or> i = 4 then hc_q (hand_command_from_axes 0 t 0 st l kp kd) ! i
       else hc_q (hand_command_from_axes g 0 sg 0 l kp kd) ! i))
   \<and> hc_q (hand_command_from_axes g t sg st False kp kd) =
      map uminus (hc_q (hand_command_from_axes g t sg st True kp kd))
   \<and> hc_q (hand_command_from_axes 0 0 0 0 True kp kd) = kDex3LeftOpen
   \<and> hc_q (hand_command_from_axes 1 1 1 1 True kp kd) = kDex3LeftFist
   \<and> hc_q (hand_command_from_axes 1 1 0 0 True kp kd) = kDex3LeftClose"
proof -
  have groups: "hc_q (hand_command_from_axes g t sg st l kp kd) ! i =
      (if i = 3 \<or> i = 4 then hc_q (hand_command_from_axes 0 t 0 st l kp kd) ! i
       else hc_q (hand_command_from_axes g 0 sg 0 l kp kd) ! i)" if "i < 7" for i
    using motor_cases[OF that]
    by (auto simp: hand_command_from_axes_def hand_consts motor_on_trigger_def Let_def)
  have mirror: "hc_q (hand_command_from_axes g t sg st False kp kd) =
      map uminus (hc_q (hand_command_from_axes g t sg st True kp kd))"
    by (rule nth_equalityI)
       (simp_all add: hand_command_from_axes_def hand_consts Let_def axes_target_mirror)
  from groups mirror hand_pose_points show ?thesis by blast
qed

section \<open>HandGuard\<close>

record guard_params =
  gp_enabled :: bool
  gp_kp :: real
  gp_kd :: real
  gp_tau_max :: real
  gp_stall_err_th :: real
  gp_stall_vel_th :: real
  gp_stall_time_s :: real
  gp_stall_offset :: real
  gp_kp_hold :: real
  gp_temp_max_c :: int
  gp_state_stale_ms :: real

definition guard_params_default :: guard_params where
  "guard_params_default = \<lparr>gp_enabled = True, gp_kp = 1.5, gp_kd = 0.1, gp_tau_max = 0.6,
     gp_stall_err_th = 0.15, gp_stall_vel_th = 0.05, gp_stall_time_s = 0.3,
     gp_stall_offset = 0.25, gp_kp_hold = 1.5, gp_temp_max_c = 0, gp_state_stale_ms = 100\<rparr>"

record hand_guard =
  hg_is_left :: bool
  hg_p :: guard_params
  hg_stall_s :: "real list"
  hg_latched :: "bool list"

definition guard_reset :: "hand_guard \<Rightarrow> hand_guard" where
  "guard_reset g = g\<lparr>hg_stall_s := replicate kHandMotors 0,
     hg_latched := replicate kHandMotors False\<rparr>"

definition guard_new :: "bool \<Rightarrow> guard_params \<Rightarrow> hand_guard" where
  "guard_new is_left p = \<lparr>hg_is_left = is_left, hg_p = p,
     hg_stall_s = replicate kHandMotors 0, hg_latched = replicate kHandMotors False\<rparr>"

lemma guard_new_static [simp]: "hg_p (guard_new l p) = p" "hg_is_left (guard_new l p) = l"
  by (simp_all add: guard_new_def)

definition configure :: "bool \<Rightarrow> guard_params \<Rightarrow> hand_guard \<Rightarrow> hand_guard" where
  "configure is_left p g = guard_reset (g\<lparr>hg_is_left := is_left, hg_p := p\<rparr>)"

text \<open>The reach \<open>e_max = tau_max / max(kp, 1e-3)\<close>.\<close>

definition guard_e_max :: "guard_params \<Rightarrow> real" where
  "guard_e_max p = gp_tau_max p / max (gp_kp p) (1/1000)"

definition stall_cond :: "guard_params \<Rightarrow> real \<Rightarrow> hand_motor_state \<Rightarrow> bool" where
  "stall_cond p e m \<longleftrightarrow> \<bar>e\<bar> > gp_stall_err_th p \<and> \<bar>hm_dq m\<bar> < gp_stall_vel_th p"

definition guard_hot :: "guard_params \<Rightarrow> hand_motor_state \<Rightarrow> bool" where
  "guard_hot p m \<longleftrightarrow> gp_temp_max_c p > 0 \<and> hm_temp_casing m \<ge> gp_temp_max_c p"

text \<open>The stall detector of one motor: the timer and the latch after this tick.\<close>

definition guard_stall :: "guard_params \<Rightarrow> real \<Rightarrow> hand_motor_state \<Rightarrow> real \<Rightarrow> real \<Rightarrow> real" where
  "guard_stall p e m dt_s stall_s = (if stall_cond p e m then stall_s + dt_s else 0)"

definition guard_latch :: "guard_params \<Rightarrow> real \<Rightarrow> hand_motor_state \<Rightarrow> real \<Rightarrow> bool \<Rightarrow> bool" where
  "guard_latch p e m stall_s latched =
     (let l1 = (if \<not> latched \<and> (guard_hot p m \<or> stall_s \<ge> gp_stall_time_s p) then True else latched)
      in if l1 \<and> \<not> guard_hot p m \<and> \<bar>e\<bar> \<le> gp_stall_err_th p then False else l1)"

definition guard_target :: "bool \<Rightarrow> guard_params \<Rightarrow> real \<Rightarrow> real \<Rightarrow> bool \<Rightarrow> nat \<Rightarrow> real" where
  "guard_target is_left p e q_meas latched i =
     clamp (if latched then q_meas + gp_stall_offset p * sgn e
            else q_meas + clamp e (- guard_e_max p) (guard_e_max p))
           (hand_min is_left ! i) (hand_max is_left ! i)"

definition guard_apply ::
    "hand_command \<Rightarrow> hand_state option \<Rightarrow> real \<Rightarrow> hand_guard \<Rightarrow> hand_command \<times> hand_guard" where
  "guard_apply desired meas dt_s g =
     (case meas of
        None \<Rightarrow> (desired, guard_reset g)
      | Some st \<Rightarrow>
          if \<not> gp_enabled (hg_p g) \<or> \<not> hc_enabled desired then (desired, guard_reset g)
          else
            (let p = hg_p g;
                 m = (\<lambda>i. hs_motors st ! i);
                 e = (\<lambda>i. hc_q desired ! i - hm_q (m i));
                 stall = map (\<lambda>i. guard_stall p (e i) (m i) dt_s (hg_stall_s g ! i)) [0..<kHandMotors];
                 latch = map (\<lambda>i. guard_latch p (e i) (m i) (stall ! i) (hg_latched g ! i)) [0..<kHandMotors]
             in (desired\<lparr>hc_q := map (\<lambda>i. guard_target (hg_is_left g) p (e i) (hm_q (m i)) (latch ! i) i)
                                  [0..<kHandMotors],
                         hc_kp := map (\<lambda>i. if latch ! i then gp_kp_hold p else gp_kp p) [0..<kHandMotors],
                         hc_kd := replicate kHandMotors (gp_kd p)\<rparr>,
                 g\<lparr>hg_stall_s := stall, hg_latched := latch\<rparr>)))"

text \<open>Whether the stage is closed: it acts on this input instead of passing it through.\<close>

definition guard_acts :: "guard_params \<Rightarrow> hand_command \<Rightarrow> hand_state option \<Rightarrow> bool" where
  "guard_acts p desired meas \<longleftrightarrow> gp_enabled p \<and> hc_enabled desired \<and> meas \<noteq> None"

primrec guard_run :: "(hand_command \<times> hand_state option) list \<Rightarrow> real \<Rightarrow> hand_guard \<Rightarrow> hand_guard" where
  "guard_run [] dt_s g = g"
| "guard_run (x # xs) dt_s g = guard_run xs dt_s (snd (guard_apply (fst x) (snd x) dt_s g))"

lemma guard_run_append: "guard_run (xs @ ys) dt g = guard_run ys dt (guard_run xs dt g)"
  by (induction xs arbitrary: g) simp_all

lemma guard_apply_static [simp]:
  "hg_p (snd (guard_apply d m dt g)) = hg_p g"
  "hg_is_left (snd (guard_apply d m dt g)) = hg_is_left g"
  by (simp_all add: guard_apply_def guard_reset_def Let_def split: option.split)

lemma guard_run_static [simp]:
  "hg_p (guard_run xs dt g) = hg_p g" "hg_is_left (guard_run xs dt g) = hg_is_left g"
  by (induction xs arbitrary: g) simp_all

text \<open>What one motor of the acting stage publishes.\<close>

lemma guard_apply_motor:
  fixes dt :: real
  assumes "guard_acts (hg_p g) d (Some st)" "i < 7"
  defines "p \<equiv> hg_p g" and "e \<equiv> hc_q d ! i - hm_q (hs_motors st ! i)"
  defines "l \<equiv> hg_latched (snd (guard_apply d (Some st) dt g)) ! i"
  shows "hc_q (fst (guard_apply d (Some st) dt g)) ! i =
           guard_target (hg_is_left g) p e (hm_q (hs_motors st ! i)) l i"
    and "hc_kp (fst (guard_apply d (Some st) dt g)) ! i = (if l then gp_kp_hold p else gp_kp p)"
    and "hc_kd (fst (guard_apply d (Some st) dt g)) ! i = gp_kd p"
  using assms by (simp_all add: guard_apply_def guard_acts_def Let_def hand_consts)

subsection \<open>The stall torque bound\<close>

lemma clamp_toward:
  fixes x q :: real
  assumes "lo \<le> q" "q \<le> hi"
  shows "\<bar>clamp x lo hi - q\<bar> \<le> \<bar>x - q\<bar>" and "0 \<le> (clamp x lo hi - q) * (x - q)"
  using assms by (auto simp: clamp_def zero_le_mult_iff)

lemma clamp_abs: "0 \<le> b \<Longrightarrow> \<bar>clamp x (- b) b\<bar> \<le> b" for x b :: real
  by (auto simp: clamp_def)

definition guard_params_ok :: "guard_params \<Rightarrow> bool" where
  "guard_params_ok p \<longleftrightarrow> 1/1000 \<le> gp_kp p \<and> 0 \<le> gp_tau_max p \<and> 0 \<le> gp_kp_hold p \<and> 0 \<le> gp_stall_offset p"

lemma guard_e_max_nonneg: "guard_params_ok p \<Longrightarrow> 0 \<le> guard_e_max p"
  by (simp add: guard_params_ok_def guard_e_max_def)

lemma kp_e_max: "guard_params_ok p \<Longrightarrow> gp_kp p * guard_e_max p = gp_tau_max p"
  by (simp add: guard_params_ok_def guard_e_max_def max_def)

lemma guard_target_toward:
  assumes "guard_params_ok p" "hand_min l ! i \<le> q" "q \<le> hand_max l ! i"
  shows "\<bar>guard_target l p e q latched i - q\<bar> \<le> (if latched then gp_stall_offset p else guard_e_max p)"
    and "0 \<le> (guard_target l p e q latched i - q) * e"
proof -
  define x where "x = (if latched then q + gp_stall_offset p * sgn e
      else q + clamp e (- guard_e_max p) (guard_e_max p))"
  have t: "guard_target l p e q latched i = clamp x (hand_min l ! i) (hand_max l ! i)"
    by (simp add: guard_target_def x_def)
  have off: "0 \<le> gp_stall_offset p" using assms(1) by (simp add: guard_params_ok_def)
  have reach: "0 \<le> guard_e_max p" by (rule guard_e_max_nonneg[OF assms(1)])
  have "\<bar>x - q\<bar> \<le> (if latched then gp_stall_offset p else guard_e_max p)"
    using off clamp_abs[OF reach] by (auto simp: x_def abs_mult sgn_if)
  with clamp_toward(1)[OF assms(2,3), of x]
  show "\<bar>guard_target l p e q latched i - q\<bar> \<le> (if latched then gp_stall_offset p else guard_e_max p)"
    by (simp add: t)
  have "(0 < e \<longrightarrow> 0 \<le> x - q) \<and> (e < 0 \<longrightarrow> x - q \<le> 0)"
    using off reach by (auto simp: x_def clamp_def)
  moreover have "(0 \<le> x - q \<longrightarrow> 0 \<le> clamp x (hand_min l ! i) (hand_max l ! i) - q) \<and>
      (x - q \<le> 0 \<longrightarrow> clamp x (hand_min l ! i) (hand_max l ! i) - q \<le> 0)"
    using assms(2,3) by (auto simp: clamp_def)
  ultimately show "0 \<le> (guard_target l p e q latched i - q) * e"
    unfolding t by (metis less_eq_real_def linorder_neqE_linordered_idom mult_eq_0_iff
        zero_le_mult_iff order_refl)
qed

lemma guard_target_in_limits:
  "i < 7 \<Longrightarrow> hand_min l ! i \<le> guard_target l p e q b i \<and> guard_target l p e q b i \<le> hand_max l ! i"
  by (simp add: guard_target_def clamp_lower clamp_upper hand_limits_ordered)

text \<open>
  C14: The stage bounds the stall torque: for every motor whose measured position lies within the
  joint limits, whatever target is asked for and whatever happened before, the torque the
  firmware computes from the published target and gain against a blocked finger is at most
  tau_max, and at most kp_hold times the contact offset while the motor is latched; the target
  lies within the joint limits and never on the other side of the finger than asked.
\<close>
theorem guard_bounds_stall_torque:
  fixes dt :: real
  assumes "guard_acts (hg_p g) desired (Some st)" "guard_params_ok (hg_p g)" "i < 7"
    and "hand_min (hg_is_left g) ! i \<le> hm_q (hs_motors st ! i)"
    and "hm_q (hs_motors st ! i) \<le> hand_max (hg_is_left g) ! i"
  defines "out \<equiv> fst (guard_apply desired (Some st) dt g)"
    and "g' \<equiv> snd (guard_apply desired (Some st) dt g)"
  shows "\<bar>hc_kp out ! i * (hc_q out ! i - hm_q (hs_motors st ! i))\<bar>
      \<le> (if hg_latched g' ! i then gp_kp_hold (hg_p g) * gp_stall_offset (hg_p g)
          else gp_tau_max (hg_p g))
    \<and> hand_min (hg_is_left g) ! i \<le> hc_q out ! i \<and> hc_q out ! i \<le> hand_max (hg_is_left g) ! i
    \<and> 0 \<le> (hc_q out ! i - hm_q (hs_motors st ! i)) * (hc_q desired ! i - hm_q (hs_motors st ! i))"
proof -
  let ?p = "hg_p g" and ?q = "hm_q (hs_motors st ! i)" and ?l = "hg_latched g' ! i"
  let ?e = "hc_q desired ! i - ?q"
  note motor = guard_apply_motor[OF assms(1,3), where dt = dt, folded out_def g'_def]
  note toward = guard_target_toward[OF assms(2,4,5), of ?e ?l]
  have kp: "0 \<le> gp_kp ?p" "0 \<le> gp_kp_hold ?p"
    using assms(2) by (auto simp: guard_params_ok_def)
  have "\<bar>hc_kp out ! i * (hc_q out ! i - ?q)\<bar>
      \<le> (if ?l then gp_kp_hold ?p * gp_stall_offset ?p else gp_kp ?p * guard_e_max ?p)"
    using toward(1) kp unfolding motor by (auto simp: abs_mult intro: mult_left_mono)
  then show ?thesis
    using toward(2) guard_target_in_limits[OF assms(3)] kp_e_max[OF assms(2)]
    unfolding motor by auto
qed

text \<open>The witness: a finger blocked half a radian short of its target.\<close>

definition sample_hand :: "real \<Rightarrow> hand_state" where
  "sample_hand q = \<lparr>hs_motors = replicate 7 (hand_motor_zero\<lparr>hm_q := q\<rparr>), hs_power_a = 0, hs_error = 0\<rparr>"

lemma guard_bounds_stall_torque_witness:
  "hc_q (fst (guard_apply (hand_command_default\<lparr>hc_q := replicate 7 1\<rparr>) (Some (sample_hand 0.5)) 0.01
        (guard_new True guard_params_default))) ! 1 = 0.9
   \<and> \<bar>hc_kp (fst (guard_apply (hand_command_default\<lparr>hc_q := replicate 7 1\<rparr>) (Some (sample_hand 0.5)) 0.01
        (guard_new True guard_params_default))) ! 1 *
      (hc_q (fst (guard_apply (hand_command_default\<lparr>hc_q := replicate 7 1\<rparr>) (Some (sample_hand 0.5)) 0.01
        (guard_new True guard_params_default))) ! 1 - 0.5)\<bar> \<le> 0.6"
proof -
  let ?g = "guard_new True guard_params_default"
    and ?d = "hand_command_default\<lparr>hc_q := replicate 7 1\<rparr>" and ?st = "sample_hand 0.5"
  have acts: "guard_acts (hg_p ?g) ?d (Some ?st)" "guard_params_ok (hg_p ?g)"
    by (simp_all add: guard_acts_def guard_params_ok_def guard_new_def guard_params_default_def
        hand_command_default_def)
  have limits: "hand_min (hg_is_left ?g) ! 1 \<le> hm_q (hs_motors ?st ! 1)"
    "hm_q (hs_motors ?st ! 1) \<le> hand_max (hg_is_left ?g) ! 1"
    by (simp_all add: guard_new_def hand_min_def hand_max_def hand_tables sample_hand_def)
  have latch: "\<not> hg_latched (snd (guard_apply ?d (Some ?st) 0.01 ?g)) ! 1"
    by (simp add: guard_apply_def Let_def hand_consts guard_new_def guard_params_default_def
        hand_command_default_def sample_hand_def guard_latch_def guard_hot_def guard_stall_def
        stall_cond_def hand_motor_zero_def)
  have "hc_q (fst (guard_apply ?d (Some ?st) 0.01 ?g)) ! 1 = 0.9"
    using guard_apply_motor(1)[OF acts(1), of 1 "0.01"] latch
    by (simp add: guard_target_def guard_e_max_def clamp_def hand_tables guard_new_def
        guard_params_default_def hand_command_default_def sample_hand_def hand_motor_zero_def
        hand_min_def hand_max_def)
  with guard_bounds_stall_torque[OF acts _ limits, of "0.01"] latch show ?thesis
    by (simp add: sample_hand_def hand_motor_zero_def guard_new_def guard_params_default_def)
qed

text \<open>
  Outside the limits the final clamp moves the target away from the finger: a finger measured
  0.5 rad beyond its stop is pulled back with more than the configured torque.
\<close>
lemma guard_bound_needs_limits:
  "1.5 * \<bar>guard_target True guard_params_default 0 (-0.5) False 2 - (-0.5)\<bar> > 0.6"
  by (simp add: guard_target_def guard_e_max_def guard_params_default_def clamp_def hand_min_def
      hand_max_def hand_tables)

subsection \<open>The stall latch\<close>

text \<open>One tick of the history seen by motor \<open>i\<close>: stalled, and still to be held.\<close>

definition motor_error :: "nat \<Rightarrow> hand_command \<times> hand_state option \<Rightarrow> real" where
  "motor_error i x = (case snd x of None \<Rightarrow> 0 | Some st \<Rightarrow> hc_q (fst x) ! i - hm_q (hs_motors st ! i))"

definition stalled :: "guard_params \<Rightarrow> nat \<Rightarrow> hand_command \<times> hand_state option \<Rightarrow> bool" where
  "stalled p i x \<longleftrightarrow> guard_acts p (fst x) (snd x) \<and>
     (case snd x of None \<Rightarrow> False | Some st \<Rightarrow> stall_cond p (motor_error i x) (hs_motors st ! i))"

definition too_hot :: "guard_params \<Rightarrow> nat \<Rightarrow> hand_command \<times> hand_state option \<Rightarrow> bool" where
  "too_hot p i x \<longleftrightarrow> (case snd x of None \<Rightarrow> False | Some st \<Rightarrow> guard_hot p (hs_motors st ! i))"

definition still_pressed :: "guard_params \<Rightarrow> nat \<Rightarrow> hand_command \<times> hand_state option \<Rightarrow> bool" where
  "still_pressed p i x \<longleftrightarrow> guard_acts p (fst x) (snd x) \<and>
     (too_hot p i x \<or> gp_stall_err_th p < \<bar>motor_error i x\<bar>)"

text \<open>The latch as a predicate of the history: triggered once, and pressed ever since.\<close>

definition stall_trigger ::
    "guard_params \<Rightarrow> real \<Rightarrow> nat \<Rightarrow> (hand_command \<times> hand_state option) list \<Rightarrow> bool" where
  "stall_trigger p dt i xs \<longleftrightarrow>
     too_hot p i (last xs) \<or> gp_stall_time_s p \<le> real (tail_run (stalled p i) xs) * dt"

text \<open>One tick of the code, in the same words.\<close>

lemma guard_apply_detector:
  assumes "i < 7"
  shows "hg_stall_s (snd (guard_apply (fst x) (snd x) dt g)) ! i =
      (if stalled (hg_p g) i x then hg_stall_s g ! i + dt else 0)"
    and "hg_latched (snd (guard_apply (fst x) (snd x) dt g)) ! i \<longleftrightarrow>
      still_pressed (hg_p g) i x \<and> (hg_latched g ! i \<or> too_hot (hg_p g) i x \<or>
        gp_stall_time_s (hg_p g) \<le> hg_stall_s (snd (guard_apply (fst x) (snd x) dt g)) ! i)"
  using assms
  by (auto simp: guard_apply_def guard_reset_def Let_def hand_consts guard_stall_def guard_latch_def
      stalled_def still_pressed_def too_hot_def motor_error_def guard_acts_def split: option.split)

lemma guard_run_fold: "guard_run xs dt g = fold (\<lambda>x g. snd (guard_apply (fst x) (snd x) dt g)) xs g"
  by (induction xs arbitrary: g) simp_all

lemma guard_run_timer:
  assumes "i < 7"
  shows "hg_stall_s (guard_run xs dt (guard_new l p)) ! i = real (tail_run (stalled p i) xs) * dt"
proof (induction xs rule: rev_induct)
  case Nil
  show ?case using assms by (simp add: guard_new_def hand_consts)
next
  case (snoc x xs)
  then show ?case
    by (simp add: guard_run_append guard_apply_detector[OF assms] algebra_simps)
qed

interpretation stall: latch "\<lambda>x g. snd (guard_apply (fst x) (snd x) dt g)" "guard_new l p"
    "\<lambda>g. i < 7 \<and> hg_latched g ! i" "stall_trigger p dt i" "\<lambda>x. i < 7 \<and> still_pressed p i x"
    for l :: bool and p :: guard_params and dt :: real and i :: nat
proof
  show "\<not> (i < 7 \<and> hg_latched (guard_new l p) ! i)"
    by (simp add: guard_new_def hand_consts)
  show "(i < 7 \<and> hg_latched (snd (guard_apply (fst x) (snd x) dt
        (fold (\<lambda>x g. snd (guard_apply (fst x) (snd x) dt g)) xs (guard_new l p)))) ! i) \<longleftrightarrow>
      (i < 7 \<and> still_pressed p i x) \<and>
      (i < 7 \<and> hg_latched (fold (\<lambda>x g. snd (guard_apply (fst x) (snd x) dt g)) xs (guard_new l p)) ! i
        \<or> stall_trigger p dt i (xs @ [x]))" for x xs
    unfolding guard_run_fold[symmetric] stall_trigger_def
    by (auto simp: guard_apply_detector guard_run_timer algebra_simps)
qed

text \<open>
  The stall latch does what the header says, for every motor and every history of ticks from a
  configured stage: a motor is latched exactly when at some earlier tick it had been stalled
  without interruption for the stall time, or was found too hot, and at every tick since its
  measurement was fresh and it was still pressed (the target further away than the error
  threshold, or still hot).
\<close>
theorem stall_latch_tracks_history:
  assumes "i < 7"
  shows "hg_latched (guard_run xs dt (configure l p g)) ! i \<longleftrightarrow>
    held_since (stall_trigger p dt i) (still_pressed p i) xs"
proof -
  have "configure l p g = (guard_new l p)\<lparr>hg_stall_s := replicate 7 0\<rparr>"
    by (cases g) (simp add: configure_def guard_reset_def guard_new_def hand_consts)
  also have "\<dots> = guard_new l p" by (simp add: guard_new_def hand_consts)
  finally show ?thesis
    using stall.on_iff[of i dt xs l p] assms by (simp add: guard_run_fold)
qed

text \<open>The witness: thirty blocked ticks of 10 ms latch the motor, twenty-nine do not.\<close>

definition blocked_tick :: "hand_command \<times> hand_state option" where
  "blocked_tick = (hand_command_default\<lparr>hc_q := replicate 7 1\<rparr>, Some (sample_hand 0.5))"

lemma blocked_tick_facts:
  "stalled guard_params_default 1 blocked_tick" "\<not> too_hot guard_params_default 1 blocked_tick"
  "still_pressed guard_params_default 1 blocked_tick"
  by (simp_all add: stalled_def too_hot_def still_pressed_def blocked_tick_def guard_acts_def
      guard_params_default_def hand_command_default_def sample_hand_def hand_motor_zero_def
      motor_error_def stall_cond_def guard_hot_def)

lemma blocked_hold:
  "held_since (stall_trigger guard_params_default 0.01 1) (still_pressed guard_params_default 1)
     (replicate n blocked_tick) \<longleftrightarrow> 30 \<le> n"
proof (induction n)
  case (Suc n)
  have "replicate (Suc n) blocked_tick = replicate n blocked_tick @ [blocked_tick]"
    by (simp add: replicate_append_same)
  moreover have "tail_run (stalled guard_params_default 1) (replicate n blocked_tick) = n"
    using blocked_tick_facts by (simp add: tail_run_def)
  moreover have "gp_stall_time_s guard_params_default = 0.3"
    by (simp add: guard_params_default_def)
  ultimately show ?case
    using Suc blocked_tick_facts
    by (auto simp: held_since_snoc stall_trigger_def simp del: replicate_Suc)
qed simp

lemma stall_latch_tracks_history_witness:
  "hg_latched (guard_run (replicate 30 blocked_tick) 0.01
      (configure True guard_params_default (guard_new True guard_params_default))) ! 1
   \<and> \<not> hg_latched (guard_run (replicate 29 blocked_tick) 0.01
      (configure True guard_params_default (guard_new True guard_params_default))) ! 1"
  by (simp add: stall_latch_tracks_history blocked_hold[simplified])

end
