(* ===== verification/Hand_Writer.thy ===== *)
theory Hand_Writer
  imports Hand_Command Input_Handler
begin

text \<open>
  The 100 Hz hand loop of \<open>src/unitree/hand_command_writer.cpp\<close> (source priority, guard,
  message layout) and the feedback intake of \<open>src/unitree/hand_state_reader.cpp\<close>. The two
  DDS writers are the list of message pairs written; a loop tick takes what the other singletons
  offer at that tick as its input.
\<close>

unbundle bit_operations_syntax

section \<open>Feedback intake\<close>

text \<open>The wire message: a vector of motor states of any length, fixed arrays inside.\<close>

record wire_hand_motor =
  wm_q :: real
  wm_dq :: real
  wm_tau_est :: real
  wm_temperature :: "int list"

record wire_hand_state =
  wh_motor_state :: "wire_hand_motor list"
  wh_power_a :: real
  wh_error :: "32 word list"

definition convert_motor :: "wire_hand_motor \<Rightarrow> hand_motor_state" where
  "convert_motor m = \<lparr>hm_q = wm_q m, hm_dq = wm_dq m, hm_tau = wm_tau_est m,
     hm_temp_casing = wm_temperature m ! 0, hm_temp_winding = wm_temperature m ! 1\<rparr>"

definition hand_convert :: "wire_hand_state \<Rightarrow> hand_state" where
  "hand_convert src =
     (let n = min kHandMotors (length (wh_motor_state src))
      in \<lparr>hs_motors = map (\<lambda>i. if i < n then convert_motor (wh_motor_state src ! i)
                               else hand_motor_zero) [0..<kHandMotors],
          hs_power_a = wh_power_a src, hs_error = wh_error src ! 0\<rparr>)"

record hand_reader =
  hr_subscribed :: bool
  hr_left_buf :: "hand_state data_buffer"
  hr_right_buf :: "hand_state data_buffer"

definition hand_reader_new :: hand_reader where
  "hand_reader_new = \<lparr>hr_subscribed = False, hr_left_buf = buf_empty, hr_right_buf = buf_empty\<rparr>"

text \<open>Subscribing succeeds or throws; the flag is its outcome.\<close>

definition hand_reader_start :: "bool \<Rightarrow> hand_reader \<Rightarrow> bool \<times> hand_reader" where
  "hand_reader_start subscribed r = (if subscribed then (True, r\<lparr>hr_subscribed := True\<rparr>) else (False, r))"

definition hand_reader_stop :: "hand_reader \<Rightarrow> hand_reader" where
  "hand_reader_stop r = r\<lparr>hr_subscribed := False, hr_left_buf := clear_buf (hr_left_buf r),
     hr_right_buf := clear_buf (hr_right_buf r)\<rparr>"

definition on_left_update :: "time \<Rightarrow> wire_hand_state \<Rightarrow> hand_reader \<Rightarrow> hand_reader" where
  "on_left_update now msg r = r\<lparr>hr_left_buf := set_data now (hand_convert msg) (hr_left_buf r)\<rparr>"

definition on_right_update :: "time \<Rightarrow> wire_hand_state \<Rightarrow> hand_reader \<Rightarrow> hand_reader" where
  "on_right_update now msg r = r\<lparr>hr_right_buf := set_data now (hand_convert msg) (hr_right_buf r)\<rparr>"

section \<open>Commands and messages\<close>

definition kPublishPeriod :: time where "kPublishPeriod = 10000000"
definition kMotorCount :: nat where "kMotorCount = 7"
definition kHandKp :: real where "kHandKp = 1.5"
definition kHandKd :: real where "kHandKd = 0.1"
definition kFistReleaseDelay :: time where "kFistReleaseDelay = 500000000"

lemmas writer_consts = kMotorCount_def kHandKp_def kHandKd_def

definition ris_mode :: "8 word \<Rightarrow> bool \<Rightarrow> 8 word" where
  "ris_mode id_byte enable =
     (id_byte AND 0x0F) OR push_bit 4 ((if enable then 0x01 else 0x00) AND 0x07)
       OR push_bit 7 ((if enable then 0x00 else 0x01) AND 0x01)"

definition from_grip_and_trigger :: "real \<Rightarrow> real \<Rightarrow> real \<Rightarrow> real \<Rightarrow> bool \<Rightarrow> hand_command" where
  "from_grip_and_trigger grip trigger squeeze_grip squeeze_trigger is_left =
     hand_command_from_axes grip trigger squeeze_grip squeeze_trigger is_left kHandKp kHandKd"

definition from_vla_joints :: "real list \<Rightarrow> bool \<Rightarrow> hand_command" where
  "from_vla_joints q is_left =
     \<lparr>hc_q = map (\<lambda>i. clamp (q ! i) (hand_min is_left ! i) (hand_max is_left ! i)) [0..<kMotorCount],
      hc_kp = replicate kMotorCount kHandKp, hc_kd = replicate kMotorCount kHandKd,
      hc_enabled = True\<rparr>"

definition stop_command :: hand_command where
  "stop_command = \<lparr>hc_q = replicate kMotorCount 0, hc_kp = replicate kMotorCount 0,
     hc_kd = replicate kMotorCount 0, hc_enabled = False\<rparr>"

record hand_motor_cmd =
  mm_mode :: "8 word"
  mm_q :: real
  mm_dq :: real
  mm_tau :: real
  mm_kp :: real
  mm_kd :: real

type_synonym hand_msg = "hand_motor_cmd list"

definition fill_msg :: "hand_command \<Rightarrow> hand_msg" where
  "fill_msg cmd = map (\<lambda>i. \<lparr>mm_mode = ris_mode (word_of_nat i) (hc_enabled cmd), mm_q = hc_q cmd ! i,
     mm_dq = 0, mm_tau = 0, mm_kp = hc_kp cmd ! i, mm_kd = hc_kd cmd ! i\<rparr>) [0..<kMotorCount]"

section \<open>The writer\<close>

record hand_writer =
  hw_pubs :: bool  \<comment> \<open>the two publishers exist\<close>
  hw_left_guard :: hand_guard
  hw_right_guard :: hand_guard
  hw_squeeze_l_grip :: real
  hw_squeeze_l_trig :: real
  hw_squeeze_r_grip :: real
  hw_squeeze_r_trig :: real
  hw_was_calibrated :: bool
  hw_calibrated_at :: time
  hw_last_cmd_buf :: "(hand_command \<times> hand_command) data_buffer"
  hw_written :: "(hand_msg \<times> hand_msg) list"

definition hand_writer_new :: hand_writer where
  "hand_writer_new = \<lparr>hw_pubs = False, hw_left_guard = guard_new True guard_params_default,
     hw_right_guard = guard_new True guard_params_default,
     hw_squeeze_l_grip = squeeze_reset, hw_squeeze_l_trig = squeeze_reset,
     hw_squeeze_r_grip = squeeze_reset, hw_squeeze_r_trig = squeeze_reset,
     hw_was_calibrated = False, hw_calibrated_at = 0, hw_last_cmd_buf = buf_empty, hw_written = []\<rparr>"

text \<open>\<open>start\<close> configures the guards, makes the publishers and enters the loop, whose two locals start fresh.\<close>

definition hand_writer_start :: "guard_params \<Rightarrow> hand_writer \<Rightarrow> hand_writer" where
  "hand_writer_start p w = w\<lparr>hw_left_guard := configure True p (hw_left_guard w),
     hw_right_guard := configure False p (hw_right_guard w), hw_pubs := True,
     hw_was_calibrated := False, hw_calibrated_at := 0\<rparr>"

definition hand_publish :: "time \<Rightarrow> hand_command \<Rightarrow> hand_command \<Rightarrow> hand_writer \<Rightarrow> hand_writer" where
  "hand_publish now left right w = w\<lparr>hw_written := hw_written w @ [(fill_msg left, fill_msg right)],
     hw_last_cmd_buf := set_data now (left, right) (hw_last_cmd_buf w)\<rparr>"

text \<open>The stop burst: five pairs, one period apart.\<close>

definition send_stop :: "time \<Rightarrow> hand_writer \<Rightarrow> hand_writer" where
  "send_stop now w =
     (if \<not> hw_pubs w then w
      else fold (\<lambda>n. hand_publish (now + int n * kPublishPeriod) stop_command stop_command) [0..<5] w)"

definition hand_writer_stop :: "time \<Rightarrow> hand_writer \<Rightarrow> hand_writer" where
  "hand_writer_stop now w = send_stop now w"

text \<open>What one tick reads.\<close>

record hand_in =
  hi_t0 :: time
  hi_calibrated :: bool
  hi_mode :: arb_mode
  hi_estop :: bool
  hi_vla :: "vla_latent_action timestamped"
  hi_ctrl :: "pico_controller option"
  hi_left_state :: "hand_state timestamped"
  hi_right_state :: "hand_state timestamped"
  hi_left_now :: time
  hi_right_now :: time
  hi_pub_time :: time

definition reset_squeezes :: "hand_writer \<Rightarrow> hand_writer" where
  "reset_squeezes w = w\<lparr>hw_squeeze_l_grip := squeeze_reset, hw_squeeze_l_trig := squeeze_reset,
     hw_squeeze_r_grip := squeeze_reset, hw_squeeze_r_trig := squeeze_reset\<rparr>"

text \<open>The calibration edge and whether the fist is held.\<close>

definition calib_step :: "hand_in \<Rightarrow> hand_writer \<Rightarrow> hand_writer" where
  "calib_step i w = w\<lparr>hw_calibrated_at :=
       (if hi_calibrated i \<and> \<not> hw_was_calibrated w then hi_t0 i else hw_calibrated_at w),
     hw_was_calibrated := hi_calibrated i\<rparr>"

definition hold_fist :: "hand_in \<Rightarrow> hand_writer \<Rightarrow> bool" where
  "hold_fist i w \<longleftrightarrow> \<not> hi_calibrated i \<or> hi_t0 i - hw_calibrated_at w < kFistReleaseDelay"

text \<open>The token stream's action while it owns the robot, of whatever age.\<close>

definition vla_hands :: "hand_in \<Rightarrow> vla_latent_action option" where
  "vla_hands i = (if hi_mode i = KVla \<or> hi_mode i = KRecovering then ts_data (hi_vla i) else None)"

definition period_s :: real where "period_s = real_of_int kPublishPeriod / 10 ^ 9"

text \<open>The selection of the two targets, highest priority first.\<close>

definition hand_select :: "hand_in \<Rightarrow> hand_writer \<Rightarrow> (hand_command \<times> hand_command) \<times> hand_writer" where
  "hand_select i w =
     (if hi_estop i then ((stop_command, stop_command), reset_squeezes w)
      else case vla_hands i of
        Some a \<Rightarrow> ((from_vla_joints (la_left_hand a) True, from_vla_joints (la_right_hand a) False),
                   reset_squeezes w)
      | None \<Rightarrow>
         if hold_fist i w then
           ((from_grip_and_trigger 1 1 1 1 True, from_grip_and_trigger 1 1 1 1 False), reset_squeezes w)
         else (case hi_ctrl i of
          Some c \<Rightarrow>
            (let (slg, lg) = squeeze_update (left_grip c) period_s (hw_squeeze_l_grip w);
                 (slt, lt) = squeeze_update (left_trigger c) period_s (hw_squeeze_l_trig w);
                 (srg, rg) = squeeze_update (right_grip c) period_s (hw_squeeze_r_grip w);
                 (srt, rt) = squeeze_update (right_trigger c) period_s (hw_squeeze_r_trig w)
             in ((from_grip_and_trigger (left_grip c) (left_trigger c) slg slt True,
                  from_grip_and_trigger (right_grip c) (right_trigger c) srg srt False),
                 w\<lparr>hw_squeeze_l_grip := lg, hw_squeeze_l_trig := lt,
                   hw_squeeze_r_grip := rg, hw_squeeze_r_trig := rt\<rparr>))
        | None \<Rightarrow>
            ((from_grip_and_trigger 0 0 0 0 True, from_grip_and_trigger 0 0 0 0 False),
             reset_squeezes w)))"

definition fresh_state :: "real \<Rightarrow> time \<Rightarrow> hand_state timestamped \<Rightarrow> hand_state option" where
  "fresh_state stale now t = (if has_data t \<and> get_age_ms now t < stale then ts_data t else None)"

text \<open>The feedback stage; both hands use the left guard's staleness limit.\<close>

definition feedback_stage ::
    "hand_in \<Rightarrow> hand_command \<Rightarrow> hand_command \<Rightarrow> hand_writer \<Rightarrow> (hand_command \<times> hand_command) \<times> hand_writer" where
  "feedback_stage i left right w =
     (if hc_enabled left \<or> hc_enabled right then
        (let stale = gp_state_stale_ms (hg_p (hw_left_guard w));
             lm = fresh_state stale (hi_left_now i) (hi_left_state i);
             rm = fresh_state stale (hi_right_now i) (hi_right_state i);
             (l, lg) = guard_apply left lm period_s (hw_left_guard w);
             (r, rg) = guard_apply right rm period_s (hw_right_guard w)
         in ((l, r), w\<lparr>hw_left_guard := lg, hw_right_guard := rg\<rparr>))
      else ((left, right), w))"

definition hand_tick :: "hand_in \<Rightarrow> hand_writer \<Rightarrow> hand_writer" where
  "hand_tick i w =
     (let w1 = calib_step i w;
          ((left, right), w2) = hand_select i w1;
          ((left', right'), w3) = feedback_stage i left right w2
      in hand_publish (hi_pub_time i) left' right' w3)"

primrec hand_run :: "hand_in list \<Rightarrow> hand_writer \<Rightarrow> hand_writer" where
  "hand_run [] w = w"
| "hand_run (i # is) w = hand_run is (hand_tick i w)"

lemma hand_run_append: "hand_run (is @ js) w = hand_run js (hand_run is w)"
  by (induction "is" arbitrary: w) simp_all

section \<open>Every published target lies within the joint limits\<close>

lemma vla_in_limits: "in_hand_limits l (hc_q (from_vla_joints q l))"
  by (simp add: in_hand_limits_def from_vla_joints_def writer_consts clamp_lower clamp_upper
      hand_limits_ordered)

lemma grip_in_limits: "in_hand_limits l (hc_q (from_grip_and_trigger g t sg st l))"
  by (simp add: from_grip_and_trigger_def axes_in_limits)

lemma stop_in_limits: "in_hand_limits l (hc_q stop_command)"
proof -
  have "hand_min l ! i \<le> 0 \<and> 0 \<le> hand_max l ! i" if "i < 7" for i
    using motor_cases[OF that] by (cases l) (auto simp: hand_min_def hand_max_def hand_tables)
  then show ?thesis by (simp add: in_hand_limits_def stop_command_def writer_consts)
qed

lemma guard_keeps_limits:
  assumes "in_hand_limits (hg_is_left g) (hc_q d)"
  shows "in_hand_limits (hg_is_left g) (hc_q (fst (guard_apply d m dt g)))"
  using assms
  by (auto simp: guard_apply_def Let_def in_hand_limits_def hand_consts guard_target_in_limits
      split: option.split)

lemma select_in_limits:
  "in_hand_limits True (hc_q (fst (fst (hand_select i w))))
   \<and> in_hand_limits False (hc_q (snd (fst (hand_select i w))))"
  by (simp add: hand_select_def vla_in_limits grip_in_limits stop_in_limits
      split: option.split prod.split)

definition sides_ok :: "hand_writer \<Rightarrow> bool" where
  "sides_ok w \<longleftrightarrow> hg_is_left (hw_left_guard w) \<and> \<not> hg_is_left (hw_right_guard w)"

lemma hand_select_guards [simp]:
  "hw_left_guard (snd (hand_select i w)) = hw_left_guard w"
  "hw_right_guard (snd (hand_select i w)) = hw_right_guard w"
  "hw_written (snd (hand_select i w)) = hw_written w"
  by (simp_all add: hand_select_def reset_squeezes_def split: option.split prod.split)

lemma feedback_in_limits:
  assumes "sides_ok w" "in_hand_limits True (hc_q l)" "in_hand_limits False (hc_q r)"
  shows "in_hand_limits True (hc_q (fst (fst (feedback_stage i l r w))))
    \<and> in_hand_limits False (hc_q (snd (fst (feedback_stage i l r w))))
    \<and> sides_ok (snd (feedback_stage i l r w))
    \<and> hw_written (snd (feedback_stage i l r w)) = hw_written w"
  using assms guard_keeps_limits[of "hw_left_guard w" l] guard_keeps_limits[of "hw_right_guard w" r]
    guard_apply_static(2)[of l _ period_s "hw_left_guard w"]
    guard_apply_static(2)[of r _ period_s "hw_right_guard w"]
  by (auto simp: feedback_stage_def sides_ok_def Let_def case_prod_unfold)

definition msg_in_limits :: "bool \<Rightarrow> hand_msg \<Rightarrow> bool" where
  "msg_in_limits l m \<longleftrightarrow> in_hand_limits l (map mm_q m)"

lemma fill_msg_limits: "in_hand_limits l (hc_q c) \<Longrightarrow> msg_in_limits l (fill_msg c)"
  by (simp add: msg_in_limits_def in_hand_limits_def fill_msg_def writer_consts)

lemma calib_step_keeps [simp]:
  "hw_left_guard (calib_step i w) = hw_left_guard w" "hw_right_guard (calib_step i w) = hw_right_guard w"
  "hw_written (calib_step i w) = hw_written w"
  by (simp_all add: calib_step_def)

text \<open>The tick as the chain of its stages.\<close>

definition tick_pair :: "hand_in \<Rightarrow> hand_writer \<Rightarrow> (hand_command \<times> hand_command) \<times> hand_writer" where
  "tick_pair i w = (let s = hand_select i (calib_step i w)
     in feedback_stage i (fst (fst s)) (snd (fst s)) (snd s))"

lemma hand_tick_pair:
  "hand_tick i w = hand_publish (hi_pub_time i) (fst (fst (tick_pair i w))) (snd (fst (tick_pair i w)))
     (snd (tick_pair i w))"
  by (simp add: hand_tick_def tick_pair_def Let_def split: prod.split)

lemma tick_pair_limits:
  assumes "sides_ok w"
  shows "in_hand_limits True (hc_q (fst (fst (tick_pair i w))))
    \<and> in_hand_limits False (hc_q (snd (fst (tick_pair i w))))
    \<and> sides_ok (snd (tick_pair i w)) \<and> hw_written (snd (tick_pair i w)) = hw_written w"
proof -
  have "sides_ok (snd (hand_select i (calib_step i w)))"
    using assms by (simp add: sides_ok_def)
  from feedback_in_limits[OF this] select_in_limits show ?thesis
    by (simp add: tick_pair_def Let_def)
qed

definition pair_in_limits :: "hand_msg \<times> hand_msg \<Rightarrow> bool" where
  "pair_in_limits x \<longleftrightarrow> msg_in_limits True (fst x) \<and> msg_in_limits False (snd x)"

definition writer_ok :: "hand_writer \<Rightarrow> bool" where
  "writer_ok w \<longleftrightarrow> sides_ok w \<and> list_all pair_in_limits (hw_written w)"

lemma hand_tick_ok: "writer_ok w \<Longrightarrow> writer_ok (hand_tick i w)"
  using tick_pair_limits[of w i]
  by (simp add: writer_ok_def hand_tick_pair hand_publish_def sides_ok_def pair_in_limits_def
      fill_msg_limits)

lemma hand_run_ok: "writer_ok w \<Longrightarrow> writer_ok (hand_run is w)"
  by (induction "is" arbitrary: w) (simp_all add: hand_tick_ok)

lemma stop_publish_ok: "writer_ok w \<Longrightarrow> writer_ok (hand_publish now stop_command stop_command w)"
  by (simp add: writer_ok_def hand_publish_def sides_ok_def pair_in_limits_def fill_msg_limits
      stop_in_limits)

lemma send_stop_ok: "writer_ok w \<Longrightarrow> writer_ok (send_stop now w)"
  by (simp add: send_stop_def stop_publish_ok upt_rec)


section \<open>The emergency stop\<close>

text \<open>The mode byte: id, status and timeout bit, decoded the way the hand reads it.\<close>

lemma ris_mode_fields:
  assumes "i < 7"
  shows "ris_mode (word_of_nat i) en AND 0x0F = word_of_nat i"
    and "drop_bit 4 (ris_mode (word_of_nat i) en) AND 0x07 = (if en then 1 else 0)"
    and "bit (ris_mode (word_of_nat i) en) 7 \<longleftrightarrow> \<not> en"
  using motor_cases[OF assms] by (cases en; auto simp: ris_mode_def)+

text \<open>A message that stops a hand: the timeout bit set and no gain on any motor.\<close>

definition stop_msg :: "hand_msg \<Rightarrow> bool" where
  "stop_msg m \<longleftrightarrow> length m = 7 \<and> list_all (\<lambda>c. bit (mm_mode c) 7 \<and> mm_kp c = 0 \<and> mm_kd c = 0 \<and> mm_tau c = 0) m"

definition drive_msg :: "hand_msg \<Rightarrow> bool" where
  "drive_msg m \<longleftrightarrow> length m = 7 \<and> list_all (\<lambda>c. \<not> bit (mm_mode c) 7 \<and> 0 < mm_kp c \<and> 0 < mm_kd c) m"

lemma fill_stop: "stop_msg (fill_msg stop_command)"
  by (auto simp: stop_msg_def fill_msg_def stop_command_def writer_consts list_all_iff ris_mode_fields)

definition drives :: "hand_command \<Rightarrow> bool" where
  "drives c \<longleftrightarrow> hc_enabled c \<and> (\<forall>i<7. 0 < hc_kp c ! i \<and> 0 < hc_kd c ! i)"

lemma fill_drives: "drives c \<Longrightarrow> drive_msg (fill_msg c)"
  by (auto simp: drive_msg_def fill_msg_def drives_def writer_consts list_all_iff ris_mode_fields)

definition gains_positive :: "guard_params \<Rightarrow> bool" where
  "gains_positive p \<longleftrightarrow> 0 < gp_kp p \<and> 0 < gp_kd p \<and> 0 < gp_kp_hold p"

lemma guard_drives:
  assumes "drives d" "gains_positive (hg_p g)"
  shows "drives (fst (guard_apply d m dt g))"
  using assms
  by (auto simp: drives_def guard_apply_def gains_positive_def Let_def hand_consts split: option.split)

lemma select_drives:
  assumes "\<not> hi_estop i"
  shows "drives (fst (fst (hand_select i w))) \<and> drives (snd (fst (hand_select i w)))"
  using assms
  by (auto simp: hand_select_def drives_def from_vla_joints_def from_grip_and_trigger_def
      hand_command_from_axes_def writer_consts hand_consts Let_def split: option.split prod.split)

definition writer_params :: "guard_params \<Rightarrow> hand_writer \<Rightarrow> bool" where
  "writer_params p w \<longleftrightarrow> hg_p (hw_left_guard w) = p \<and> hg_p (hw_right_guard w) = p"

lemma feedback_params:
  "writer_params p (snd (feedback_stage i l r w)) = writer_params p w"
  using guard_apply_static(1)[of l _ period_s "hw_left_guard w"]
    guard_apply_static(1)[of r _ period_s "hw_right_guard w"]
  by (auto simp: feedback_stage_def writer_params_def Let_def case_prod_unfold)

lemma feedback_written: "hw_written (snd (feedback_stage i l r w)) = hw_written w"
  by (simp add: feedback_stage_def Let_def split: prod.split)

lemma feedback_drives:
  assumes "drives l" "drives r" "writer_params p w" "gains_positive p"
  shows "drives (fst (fst (feedback_stage i l r w)))" "drives (snd (fst (feedback_stage i l r w)))"
  using guard_drives[OF assms(1), of "hw_left_guard w"] guard_drives[OF assms(2), of "hw_right_guard w"]
    assms
  by (auto simp: feedback_stage_def writer_params_def Let_def case_prod_unfold)

lemma run_params: "writer_params p (hand_run ins (hand_writer_start p hand_writer_new))"
proof (induction ins rule: rev_induct)
  case Nil
  show ?case by (simp add: writer_params_def hand_writer_start_def configure_def guard_reset_def)
next
  case (snoc x xs)
  then have "writer_params p (snd (hand_select x (calib_step x (hand_run xs
      (hand_writer_start p hand_writer_new)))))"
    by (simp add: writer_params_def)
  then show ?case
    by (simp add: hand_run_append hand_tick_pair hand_publish_def tick_pair_def Let_def)
       (simp add: writer_params_def feedback_params[unfolded writer_params_def])
qed

text \<open>
  The emergency stop reaches the hands at the very next tick, and only it stops them: in any
  run, the message pair of a tick with the stop latched has the timeout bit set and zero gains
  on all fourteen motors, whatever else is offered, and clears the squeeze timers; without the
  stop every motor is driven with positive gains and the bit clear.
\<close>
theorem estop_stops_hands:
  fixes ins :: "hand_in list"
  assumes "gains_positive p"
  defines "w \<equiv> hand_run ins (hand_writer_start p hand_writer_new)"
  shows "hw_written (hand_tick i w) \<noteq> [] \<and> butlast (hw_written (hand_tick i w)) = hw_written w
    \<and> (if hi_estop i
       then stop_msg (fst (last (hw_written (hand_tick i w))))
          \<and> stop_msg (snd (last (hw_written (hand_tick i w))))
          \<and> hw_squeeze_l_grip (hand_tick i w) = 0 \<and> hw_squeeze_l_trig (hand_tick i w) = 0
          \<and> hw_squeeze_r_grip (hand_tick i w) = 0 \<and> hw_squeeze_r_trig (hand_tick i w) = 0
       else drive_msg (fst (last (hw_written (hand_tick i w))))
          \<and> drive_msg (snd (last (hw_written (hand_tick i w)))))"
proof -
  have params: "writer_params p w" unfolding w_def by (rule run_params)
  show ?thesis
  proof (cases "hi_estop i")
    case True
    then have "tick_pair i w = ((stop_command, stop_command), reset_squeezes (calib_step i w))"
      by (simp add: tick_pair_def hand_select_def Let_def feedback_stage_def)
         (simp add: stop_command_def)
    with True show ?thesis
      by (simp add: hand_tick_pair hand_publish_def fill_stop reset_squeezes_def squeeze_reset_def)
  next
    case False
    then have "drives (fst (fst (tick_pair i w))) \<and> drives (snd (fst (tick_pair i w)))"
      using select_drives[OF False] params assms(1)
      by (auto simp: tick_pair_def Let_def writer_params_def intro!: feedback_drives)
    with False show ?thesis
      by (simp add: hand_tick_pair hand_publish_def fill_drives feedback_written tick_pair_def Let_def)
  qed
qed

text \<open>The witness: an axis fully pulled and a latched stop.\<close>

definition sample_hand_in :: hand_in where
  "sample_hand_in = \<lparr>hi_t0 = 0, hi_calibrated = True, hi_mode = KNormal, hi_estop = False,
     hi_vla = get_data_with_time buf_empty, hi_ctrl = None,
     hi_left_state = get_data_with_time buf_empty, hi_right_state = get_data_with_time buf_empty,
     hi_left_now = 0, hi_right_now = 0, hi_pub_time = 0\<rparr>"

lemma estop_stops_hands_witness:
  "stop_msg (fst (last (hw_written (hand_tick (sample_hand_in\<lparr>hi_estop := True\<rparr>)
      (hand_run [sample_hand_in] (hand_writer_start guard_params_default hand_writer_new))))))
   \<and> drive_msg (fst (last (hw_written (hand_tick sample_hand_in
      (hand_run [sample_hand_in] (hand_writer_start guard_params_default hand_writer_new))))))"
proof -
  have p: "gains_positive guard_params_default"
    by (simp add: gains_positive_def guard_params_default_def)
  show ?thesis
    using estop_stops_hands[OF p, of "sample_hand_in\<lparr>hi_estop := True\<rparr>" "[sample_hand_in]"]
      estop_stops_hands[OF p, of sample_hand_in "[sample_hand_in]"]
    by (simp add: sample_hand_in_def)
qed

section \<open>The fist before calibration\<close>

text \<open>The calibration edge after a history, and how long ago it was.\<close>

definition calib_inv :: "hand_in list \<Rightarrow> hand_writer \<Rightarrow> bool" where
  "calib_inv xs w \<longleftrightarrow> (hw_was_calibrated w \<longleftrightarrow> 0 < tail_run hi_calibrated xs)
     \<and> (0 < tail_run hi_calibrated xs \<longrightarrow>
          hw_calibrated_at w = hi_t0 (xs ! (length xs - tail_run hi_calibrated xs)))"

lemma tail_run_le: "tail_run P xs \<le> length xs"
  by (induction xs rule: rev_induct) auto

lemma calib_step_inv:
  assumes "calib_inv xs w"
  shows "calib_inv (xs @ [i]) (calib_step i w)"
proof -
  have "(xs @ [i]) ! (length xs - tail_run hi_calibrated xs) = xs ! (length xs - tail_run hi_calibrated xs)"
    if "0 < tail_run hi_calibrated xs"
    using that tail_run_le[of hi_calibrated xs] by (simp add: nth_append)
  then show ?thesis
    using assms by (auto simp: calib_inv_def calib_step_def)
qed

lemma hand_tick_calib:
  "hw_was_calibrated (hand_tick i w) = hw_was_calibrated (calib_step i w)
   \<and> hw_calibrated_at (hand_tick i w) = hw_calibrated_at (calib_step i w)"
  by (simp add: hand_tick_pair hand_publish_def tick_pair_def feedback_stage_def hand_select_def
      reset_squeezes_def Let_def case_prod_unfold split: option.split)

lemma hand_run_calib: "calib_inv xs (hand_run xs (hand_writer_start p hand_writer_new))"
proof (induction xs rule: rev_induct)
  case Nil
  show ?case by (simp add: calib_inv_def hand_writer_start_def)
next
  case (snoc x xs)
  from calib_step_inv[OF this, of x] show ?case
    by (simp add: calib_inv_def hand_run_append hand_tick_calib)
qed

definition settled :: "hand_in list \<Rightarrow> bool" where
  "settled xs \<longleftrightarrow> (\<exists>pre mid. xs = pre @ mid \<and> mid \<noteq> [] \<and> list_all hi_calibrated mid \<and>
     kFistReleaseDelay \<le> hi_t0 (last mid) - hi_t0 (hd mid))"

lemma tail_run_split:
  assumes "xs = pre @ mid" "list_all P mid"
  shows "length mid \<le> tail_run P xs"
  using assms tail_run_ge by blast

lemma settled_iff:
  assumes "sorted (map hi_t0 xs)"
  shows "settled xs \<longleftrightarrow> 0 < tail_run hi_calibrated xs \<and>
    kFistReleaseDelay \<le> hi_t0 (last xs) - hi_t0 (xs ! (length xs - tail_run hi_calibrated xs))"
proof
  let ?n = "tail_run hi_calibrated xs"
  assume "settled xs"
  then obtain pre mid where split: "xs = pre @ mid" "mid \<noteq> []" "list_all hi_calibrated mid"
    and d: "kFistReleaseDelay \<le> hi_t0 (last mid) - hi_t0 (hd mid)"
    by (auto simp: settled_def)
  note len = tail_run_split[OF split(1,3)]
  have at_pre: "length xs - ?n \<le> length pre" "length pre < length xs"
    using len split(1,2) by simp_all
  have "hi_t0 (xs ! (length xs - ?n)) \<le> hi_t0 (xs ! length pre)"
    using sorted_nth_mono[OF assms at_pre(1)] at_pre by simp
  moreover have "hd mid = xs ! length pre" using split(1,2) by (simp add: hd_conv_nth nth_append)
  moreover have "0 < ?n" using len split(2) by (cases mid) auto
  ultimately show "0 < ?n \<and> kFistReleaseDelay \<le> hi_t0 (last xs) - hi_t0 (xs ! (length xs - ?n))"
    using d split by simp
next
  let ?n = "tail_run hi_calibrated xs"
  assume r: "0 < ?n \<and> kFistReleaseDelay \<le> hi_t0 (last xs) - hi_t0 (xs ! (length xs - ?n))"
  obtain pre mid where split: "xs = pre @ mid" "length mid = ?n" "list_all hi_calibrated mid"
    using tail_run_ge[of ?n hi_calibrated xs] by blast
  moreover from this r have "mid \<noteq> []" by auto
  ultimately have "hd mid = xs ! (length xs - ?n)" "last mid = last xs" "mid \<noteq> []"
    by (auto simp: hd_conv_nth nth_append)
  with split r show "settled xs" unfolding settled_def by metis
qed

text \<open>
  The hands stay closed until teleoperation has settled: in any run with a steady clock, at a
  tick without the stop and without the token stream owning the hands, both hands are asked for
  the full fist unless calibration has held without interruption for half a second; from then
  on the axes drive them, and a lost VR link opens them.
\<close>
theorem fist_until_calibration_settles:
  assumes "sorted (map hi_t0 (ins @ [i]))" "\<not> hi_estop i" "vla_hands i = None"
    and "w = hand_run ins (hand_writer_start p hand_writer_new)"
    and "cmds = fst (hand_select i (calib_step i w))"
  shows "if \<not> settled (ins @ [i])
    then hc_q (fst cmds) = kDex3LeftFist \<and> hc_q (snd cmds) = kDex3RightFist
    else (case hi_ctrl i of
        None \<Rightarrow> hc_q (fst cmds) = kDex3LeftOpen \<and> hc_q (snd cmds) = kDex3RightOpen
      | Some c \<Rightarrow> \<exists>slg slt srg srt.
          fst cmds = from_grip_and_trigger (left_grip c) (left_trigger c) slg slt True
          \<and> snd cmds = from_grip_and_trigger (right_grip c) (right_trigger c) srg srt False)"
proof -
  have fist: "hold_fist i (calib_step i w) \<longleftrightarrow> \<not> settled (ins @ [i])"
    using calib_step_inv[OF hand_run_calib[of ins p], of i] settled_iff[OF assms(1)]
    by (auto simp: hold_fist_def calib_inv_def assms(4))
  have poses: "hc_q (from_grip_and_trigger 1 1 1 1 True) = kDex3LeftFist"
    "hc_q (from_grip_and_trigger 1 1 1 1 False) = kDex3RightFist"
    "hc_q (from_grip_and_trigger 0 0 0 0 True) = kDex3LeftOpen"
    "hc_q (from_grip_and_trigger 0 0 0 0 False) = kDex3RightOpen"
    by (simp_all add: from_grip_and_trigger_def hand_pose_points)
  show ?thesis
    using assms(2,3) unfolding assms(5)
    by (auto simp: hand_select_def fist poses case_prod_unfold Let_def split: option.split)
qed

text \<open>The witness: calibration engages at 0, the fist opens at 500 ms and not at 490 ms.\<close>

lemma fist_until_calibration_settles_witness:
  "hc_q (fst (fst (hand_select (sample_hand_in\<lparr>hi_t0 := 490000000\<rparr>)
      (calib_step (sample_hand_in\<lparr>hi_t0 := 490000000\<rparr>)
        (hand_run [sample_hand_in] (hand_writer_start guard_params_default hand_writer_new))))))
      = kDex3LeftFist
   \<and> hc_q (fst (fst (hand_select (sample_hand_in\<lparr>hi_t0 := 500000000\<rparr>)
      (calib_step (sample_hand_in\<lparr>hi_t0 := 500000000\<rparr>)
        (hand_run [sample_hand_in] (hand_writer_start guard_params_default hand_writer_new))))))
      = kDex3LeftOpen"
proof -
  have s: "sorted (map hi_t0 ([sample_hand_in] @ [sample_hand_in\<lparr>hi_t0 := t\<rparr>]))"
    and v: "\<not> hi_estop (sample_hand_in\<lparr>hi_t0 := t\<rparr>)" "vla_hands (sample_hand_in\<lparr>hi_t0 := t\<rparr>) = None"
    if "0 \<le> t" for t
    using that by (simp_all add: sample_hand_in_def vla_hands_def)
  have settled: "settled ([sample_hand_in] @ [sample_hand_in\<lparr>hi_t0 := t\<rparr>]) \<longleftrightarrow> 500000000 \<le> t" if "0 \<le> t" for t
    unfolding settled_iff[OF s[OF that]]
    by (simp add: tail_run_def sample_hand_in_def kFistReleaseDelay_def)
  note claim = fist_until_calibration_settles[OF s v refl refl]
  show ?thesis
    using claim[of 490000000 guard_params_default] claim[of 500000000 guard_params_default]
      settled[of 490000000] settled[of 500000000]
    by (simp add: sample_hand_in_def)
qed

section \<open>Short feedback packets\<close>

text \<open>
  A feedback packet of any length becomes a full hand: the motors it carries are taken over in
  order, motors it lacks read as zero, surplus ones are ignored, and the same holds of what the
  writer later reads from the buffer under the receive time.
\<close>
theorem hand_state_any_packet:
  "length (hs_motors (hand_convert src)) = 7
   \<and> (\<forall>i<7. hs_motors (hand_convert src) ! i =
        (if i < length (wh_motor_state src) then convert_motor (wh_motor_state src ! i) else hand_motor_zero))
   \<and> get_data_with_time (hr_left_buf (on_left_update now src r)) =
        \<lparr>ts_data = Some (hand_convert src), ts_time = now\<rparr>
   \<and> hr_right_buf (on_left_update now src r) = hr_right_buf r
   \<and> get_data_with_time (hr_right_buf (on_right_update now src r)) =
        \<lparr>ts_data = Some (hand_convert src), ts_time = now\<rparr>
   \<and> hr_left_buf (on_right_update now src r) = hr_left_buf r"
  by (auto simp: hand_convert_def Let_def hand_consts on_left_update_def on_right_update_def)

lemma hand_state_any_packet_witness:
  "hs_motors (hand_convert \<lparr>wh_motor_state = [\<lparr>wm_q = 1, wm_dq = 2, wm_tau_est = 3, wm_temperature = [40, 50]\<rparr>],
       wh_power_a = 0, wh_error = [0]\<rparr>) ! 0 = \<lparr>hm_q = 1, hm_dq = 2, hm_tau = 3, hm_temp_casing = 40, hm_temp_winding = 50\<rparr>
   \<and> hs_motors (hand_convert \<lparr>wh_motor_state = [\<lparr>wm_q = 1, wm_dq = 2, wm_tau_est = 3, wm_temperature = [40, 50]\<rparr>],
       wh_power_a = 0, wh_error = [0]\<rparr>) ! 6 = hand_motor_zero"
  using hand_state_any_packet[of "\<lparr>wh_motor_state = [\<lparr>wm_q = 1, wm_dq = 2, wm_tau_est = 3,
      wm_temperature = [40, 50]\<rparr>], wh_power_a = 0, wh_error = [0]\<rparr>" 0 hand_reader_new]
  by (simp add: convert_motor_def)

end
