(* ===== verification/Unitree_Link.thy ===== *)
theory Unitree_Link
  imports Policy
begin

text \<open>
  The link to the robot body: the message checksum of \<open>include/unitree/crc32.hpp\<close>, the state
  intake with its watchdog (\<open>src/unitree/unitree_state_reader.cpp\<close>) and the 500 Hz command
  writer (\<open>src/unitree/unitree_command_writer.cpp\<close>). The memory layout of the SDK's message
  structs is not part of the repository: it is the parameter \<open>layout\<close>, the 32-bit words of a
  message before its checksum word.
\<close>

unbundle bit_operations_syntax

section \<open>The checksum\<close>

definition crc_poly :: "32 word" where "crc_poly = 0x04c11db7"

text \<open>One round of the inner loop; \<open>xbit\<close> selects the data bit.\<close>

definition crc_round :: "32 word \<Rightarrow> 32 word \<Rightarrow> 32 word \<Rightarrow> 32 word" where
  "crc_round data xbit crc =
     (let c = (if crc AND 0x80000000 \<noteq> 0 then push_bit 1 crc XOR crc_poly else push_bit 1 crc)
      in if data AND xbit \<noteq> 0 then c XOR crc_poly else c)"

text \<open>The inner loop from round \<open>n\<close> on, \<open>xbit\<close> shifted right after every round.\<close>

fun crc_rounds :: "nat \<Rightarrow> 32 word \<Rightarrow> 32 word \<Rightarrow> 32 word \<Rightarrow> 32 word" where
  "crc_rounds 0 data xbit crc = crc"
| "crc_rounds (Suc n) data xbit crc = crc_rounds n data (drop_bit 1 xbit) (crc_round data xbit crc)"

definition crc_word :: "32 word \<Rightarrow> 32 word \<Rightarrow> 32 word" where
  "crc_word data crc = crc_rounds 32 data (push_bit 31 1) crc"

definition crc32_core :: "32 word list \<Rightarrow> 32 word" where
  "crc32_core ws = fold crc_word ws 0xFFFFFFFF"

subsection \<open>The checksum as polynomial arithmetic\<close>

text \<open>Multiplication by \<open>x\<close> modulo the polynomial.\<close>

definition crc_shift :: "32 word \<Rightarrow> 32 word" where
  "crc_shift c = push_bit 1 c XOR (if bit c 31 then crc_poly else 0)"

lemma msb_test: "c AND 0x80000000 \<noteq> 0 \<longleftrightarrow> bit c 31" for c :: "32 word"
proof -
  have "(0x80000000 :: 32 word) = push_bit 31 1" by simp
  then show ?thesis by (simp only: and_exp_eq_0_iff_not_bit push_bit_of_1 not_not)
qed

lemma crc_round_shift:
  assumes "n < 32" "data AND xbit \<noteq> 0 \<longleftrightarrow> bit data (31 - n)"
  shows "crc_round data xbit c XOR push_bit (Suc n) data = crc_shift (c XOR push_bit n data)"
proof -
  have top: "bit (c XOR push_bit n data) 31 \<longleftrightarrow> bit c 31 \<noteq> bit data (31 - n)"
    using assms(1) by (simp add: bit_xor_iff bit_push_bit_iff)
  have push: "push_bit 1 (c XOR push_bit n data) = push_bit 1 c XOR push_bit (Suc n) data"
    by (simp add: push_bit_xor push_bit_push_bit add.commute)
  show ?thesis
    unfolding crc_shift_def top push
    by (auto simp: crc_round_def msb_test assms(2) Let_def xor.left_commute xor.commute xor.assoc)
qed

lemma xbit_at:
  assumes "n < 32"
  shows "drop_bit n (push_bit 31 (1 :: 32 word)) = push_bit (31 - n) 1"
proof (rule bit_word_eqI)
  fix k
  assume k: "k < LENGTH(32)"
  have "bit (drop_bit n (push_bit 31 (1 :: 32 word))) k \<longleftrightarrow> 31 \<le> n + k \<and> n + k < 32 \<and> n + k - 31 = 0"
    by (simp only: bit_drop_bit_eq comp_apply bit_push_bit_iff bit_1_iff possible_bit_word) simp
  moreover have "bit (push_bit (31 - n) (1 :: 32 word)) k \<longleftrightarrow> 31 - n \<le> k \<and> k < 32 \<and> k - (31 - n) = 0"
    by (simp only: bit_push_bit_iff bit_1_iff possible_bit_word) simp
  ultimately show "bit (drop_bit n (push_bit 31 (1 :: 32 word))) k \<longleftrightarrow> bit (push_bit (31 - n) (1 :: 32 word)) k"
    using assms k by auto
qed

lemma crc_rounds_shift:
  "k \<le> 32 \<Longrightarrow> crc_rounds k data (drop_bit (32 - k) (push_bit 31 1)) c
     = (crc_shift ^^ k) (c XOR push_bit (32 - k) data)"
proof (induction k arbitrary: c)
  case 0
  have "push_bit 32 data = 0" by (intro bit_word_eqI) (simp add: bit_push_bit_iff)
  then show ?case by simp
next
  case (Suc k)
  let ?n = "32 - Suc k"
  let ?x = "drop_bit ?n (push_bit 31 (1 :: 32 word))"
  have n: "?n < 32" "Suc ?n = 32 - k" using Suc.prems by simp_all
  have "data AND ?x \<noteq> 0 \<longleftrightarrow> bit data (31 - ?n)"
    unfolding xbit_at[OF n(1)] by (simp only: push_bit_of_1 and_exp_eq_0_iff_not_bit not_not)
  from crc_round_shift[OF n(1) this]
  have step: "crc_round data ?x c XOR push_bit (32 - k) data = crc_shift (c XOR push_bit ?n data)"
    unfolding n(2) .
  have "drop_bit 1 ?x = drop_bit (32 - k) (push_bit 31 1)"
    unfolding drop_bit_drop_bit using n(2) by simp
  then have "crc_rounds (Suc k) data ?x c
      = crc_rounds k data (drop_bit (32 - k) (push_bit 31 1)) (crc_round data ?x c)"
    by simp
  also have "\<dots> = (crc_shift ^^ k) (crc_shift (c XOR push_bit ?n data))"
    using Suc.IH Suc.prems step by simp
  finally show ?case by (simp only: funpow_Suc_right comp_apply)
qed

lemma crc_word_shift: "crc_word data c = (crc_shift ^^ 32) (c XOR data)"
  using crc_rounds_shift[of 32 data c] by (simp add: crc_word_def)

lemma crc_shift_inj: "crc_shift a = crc_shift b \<Longrightarrow> a = b"
proof -
  assume eq: "crc_shift a = crc_shift b"
  have low: "bit (crc_shift c) 0 \<longleftrightarrow> bit c 31" for c
    by (simp only: crc_shift_def bit_xor_iff bit_push_bit_iff) (simp add: crc_poly_def)
  from eq have top: "bit a 31 \<longleftrightarrow> bit b 31" using low by metis
  have cancel: "x XOR p = y XOR p \<Longrightarrow> x = y" for x y p :: "32 word"
    by (metis xor.assoc xor.comm_neutral xor_self_eq)
  have push: "push_bit 1 a = push_bit 1 b"
    by (rule cancel[OF eq[unfolded crc_shift_def top]])
  show "a = b"
  proof (rule bit_word_eqI)
    fix n assume "n < LENGTH(32)"
    then have n: "n < 31 \<or> n = 31" by auto
    have up: "bit (push_bit 1 c) (Suc n) \<longleftrightarrow> bit c n" if "n < 31" for c :: "32 word"
      using that by (simp only: bit_push_bit_iff possible_bit_word) simp
    from n up[of a] up[of b] push top show "bit a n \<longleftrightarrow> bit b n" by metis
  qed
qed

lemma crc_shifts_inj: "(crc_shift ^^ k) a = (crc_shift ^^ k) b \<longleftrightarrow> a = b"
  by (induction k) (auto dest: crc_shift_inj)

lemma crc_word_inj: "crc_word d a = crc_word d b \<longleftrightarrow> a = b"
  and crc_word_data_inj: "crc_word d c = crc_word e c \<longleftrightarrow> d = e"
proof -
  have "a XOR d = b XOR d \<longleftrightarrow> a = b" "c XOR d = c XOR e \<longleftrightarrow> d = e"
    by (metis xor.assoc xor.comm_neutral xor_self_eq, metis xor.assoc xor.left_neutral xor_self_eq)
  then show "crc_word d a = crc_word d b \<longleftrightarrow> a = b" "crc_word d c = crc_word e c \<longleftrightarrow> d = e"
    by (simp_all add: crc_word_shift crc_shifts_inj)
qed

lemma crc_fold_inj: "fold crc_word ws a = fold crc_word ws b \<longleftrightarrow> a = b"
  by (induction ws arbitrary: a b) (simp_all add: crc_word_inj)

lemma crc_one_word:
  "d \<noteq> e \<Longrightarrow> crc32_core (xs @ d # ys) \<noteq> crc32_core (xs @ e # ys)"
  by (simp add: crc32_core_def crc_fold_inj crc_word_data_inj)

text \<open>
  C20: The bit loop computes the polynomial checksum: folding a word multiplies the register, with
  the word added, by x to the 32 modulo the polynomial; that multiplication is a bijection, so
  equal prefixes and suffixes never hide a difference in one word, whatever bits of the word are
  hit, and the checksum of two messages that differ in exactly one word differs.
\<close>
theorem crc_detects_word_errors:
  "crc_word data c = (crc_shift ^^ 32) (c XOR data)
   \<and> inj crc_shift
   \<and> (crc32_core (xs @ d # ys) = crc32_core (xs @ e # ys)) = (d = e)"
proof -
  have "inj crc_shift" using crc_shift_inj by (rule injI)
  then show ?thesis using crc_word_shift crc_one_word by metis
qed

lemma crc_detects_word_errors_witness:
  "crc32_core [1, 2, 3] \<noteq> crc32_core [1, 2 XOR 0x80000000, 3]"
  using crc_detects_word_errors[of 0 0 "[1]" 2 "[3]" "2 XOR 0x80000000"] by simp

section \<open>Robot state intake\<close>

record motor_state =
  ms_q :: real
  ms_dq :: real
  ms_tau :: real
  ms_temp_casing :: int
  ms_temp_winding :: int
  ms_error :: "32 word"

record imu =
  im_quaternion :: quat
  im_gyroscope :: vec3
  im_accelerometer :: vec3

record unitree_state =
  us_motors :: "motor_state list"
  us_imu_pelvis :: imu
  us_tick :: "32 word"
  us_mode_machine :: "8 word"

text \<open>The SDK messages, as far as their fields are read.\<close>

record wire_motor =
  wo_q :: real
  wo_dq :: real
  wo_tau_est :: real
  wo_temperature :: "int list"
  wo_motorstate :: "32 word"

record wire_imu =
  wi_quaternion :: "real list"
  wi_gyroscope :: "real list"
  wi_accelerometer :: "real list"

record low_state =
  ls_tick :: "32 word"
  ls_mode_machine :: "8 word"
  ls_imu_state :: wire_imu
  ls_motor_state :: "wire_motor list"
  ls_crc :: "32 word"

definition kNumMotors :: nat where "kNumMotors = 29"

definition convert_imu :: "wire_imu \<Rightarrow> imu" where
  "convert_imu src =
     (let q = wi_quaternion src; g = wi_gyroscope src; a = wi_accelerometer src
      in \<lparr>im_quaternion = (q ! 0, q ! 1, q ! 2, q ! 3), im_gyroscope = (g ! 0, g ! 1, g ! 2),
          im_accelerometer = (a ! 0, a ! 1, a ! 2)\<rparr>)"

definition convert_state :: "low_state \<Rightarrow> unitree_state" where
  "convert_state src =
     \<lparr>us_motors = map (\<lambda>i. let m = ls_motor_state src ! i
        in \<lparr>ms_q = wo_q m, ms_dq = wo_dq m, ms_tau = wo_tau_est m,
            ms_temp_casing = wo_temperature m ! 0, ms_temp_winding = wo_temperature m ! 1,
            ms_error = wo_motorstate m\<rparr>) [0..<kNumMotors],
      us_imu_pelvis = convert_imu (ls_imu_state src), us_tick = ls_tick src,
      us_mode_machine = ls_mode_machine src\<rparr>"

record state_reader =
  sr_running :: bool
  sr_state_buf :: "unitree_state data_buffer"
  sr_imu_buf :: "imu data_buffer"

definition state_reader_new :: state_reader where
  "state_reader_new = \<lparr>sr_running = False, sr_state_buf = buf_empty, sr_imu_buf = buf_empty\<rparr>"

text \<open>\<open>dds_ok\<close>: the channel factory and the two subscriptions did not throw.\<close>

definition state_reader_start :: "bool \<Rightarrow> state_reader \<Rightarrow> bool \<times> state_reader" where
  "state_reader_start dds_ok r = (if dds_ok then (True, r\<lparr>sr_running := True\<rparr>) else (False, r))"

text \<open>Stopping joins the watchdog and drops the subscriptions; the buffers keep their last data.\<close>

definition state_reader_stop :: "state_reader \<Rightarrow> state_reader" where
  "state_reader_stop r = r\<lparr>sr_running := False\<rparr>"

definition on_lowstate_update ::
    "(low_state \<Rightarrow> 32 word list) \<Rightarrow> time \<Rightarrow> low_state \<Rightarrow> state_reader \<Rightarrow> state_reader" where
  "on_lowstate_update layout now msg r =
     (if crc32_core (layout msg) \<noteq> ls_crc msg then r
      else r\<lparr>sr_state_buf := set_data now (convert_state msg) (sr_state_buf r)\<rparr>)"

definition on_imu_torso_update :: "time \<Rightarrow> wire_imu \<Rightarrow> state_reader \<Rightarrow> state_reader" where
  "on_imu_torso_update now msg r = r\<lparr>sr_imu_buf := set_data now (convert_imu msg) (sr_imu_buf r)\<rparr>"

definition kWatchdogStaleMs :: real where "kWatchdogStaleMs = 60"

definition drop_stale :: "time \<Rightarrow> 'a data_buffer \<Rightarrow> 'a data_buffer" where
  "drop_stale now b =
     (let d = get_data_with_time b
      in if has_data d \<and> get_age_ms now d > kWatchdogStaleMs then clear_buf b else b)"

text \<open>One pass of the watchdog, with the clock at each of its two age tests.\<close>

definition state_watchdog_pass :: "time \<Rightarrow> time \<Rightarrow> state_reader \<Rightarrow> state_reader" where
  "state_watchdog_pass now1 now2 r = r\<lparr>sr_state_buf := drop_stale now1 (sr_state_buf r),
     sr_imu_buf := drop_stale now2 (sr_imu_buf r)\<rparr>"

text \<open>What reaches the state buffer, in order: packets and watchdog passes, each at its time.\<close>

datatype link_event = Packet time low_state | TorsoImu time wire_imu | Watchdog time time

fun link_step :: "(low_state \<Rightarrow> 32 word list) \<Rightarrow> link_event \<Rightarrow> state_reader \<Rightarrow> state_reader" where
  "link_step layout (Packet t m) r = on_lowstate_update layout t m r"
| "link_step layout (TorsoImu t m) r = on_imu_torso_update t m r"
| "link_step layout (Watchdog t1 t2) r = state_watchdog_pass t1 t2 r"

definition link_run :: "(low_state \<Rightarrow> 32 word list) \<Rightarrow> link_event list \<Rightarrow> state_reader \<Rightarrow> state_reader" where
  "link_run layout es r = fold (link_step layout) es r"

lemma link_run_append: "link_run layout (es @ fs) r = link_run layout fs (link_run layout es r)"
  by (simp add: link_run_def)

text \<open>
  No corrupted packet reaches the policy: for every packet that was sent with a valid checksum
  and arrives with any corruption confined to one 32-bit word of its body, or with its checksum
  field changed, the intake leaves its state exactly as it was; an intact packet becomes the
  current state under its receive time.
\<close>
theorem corrupted_packets_dropped:
  assumes "crc32_core (layout sent) = ls_crc sent"
    and "layout sent = xs @ d # ys"
  shows "(layout got = xs @ e # ys \<and> ls_crc got = ls_crc sent \<and> d \<noteq> e \<longrightarrow>
            on_lowstate_update layout now got r = r)
    \<and> (layout got = layout sent \<and> ls_crc got \<noteq> ls_crc sent \<longrightarrow> on_lowstate_update layout now got r = r)
    \<and> get_data_with_time (sr_state_buf (on_lowstate_update layout now sent r)) =
        \<lparr>ts_data = Some (convert_state sent), ts_time = now\<rparr>"
  using assms crc_one_word[of d e xs ys] by (auto simp: on_lowstate_update_def)

text \<open>The witness: a layout of two words.\<close>

definition sample_layout :: "low_state \<Rightarrow> 32 word list" where
  "sample_layout m = [ls_tick m, word_of_nat (length (ls_motor_state m))]"

definition sample_low :: low_state where
  "sample_low = \<lparr>ls_tick = 7, ls_mode_machine = 5,
     ls_imu_state = \<lparr>wi_quaternion = [1, 0, 0, 0], wi_gyroscope = [0, 0, 0], wi_accelerometer = [0, 0, 0]\<rparr>,
     ls_motor_state = [], ls_crc = crc32_core [7, 0]\<rparr>"

lemma corrupted_packets_dropped_witness:
  "on_lowstate_update sample_layout 0 (sample_low\<lparr>ls_tick := 6\<rparr>) state_reader_new = state_reader_new
   \<and> get_data (sr_state_buf (on_lowstate_update sample_layout 0 sample_low state_reader_new))
       = Some (convert_state sample_low)"
proof -
  have ok: "crc32_core (sample_layout sample_low) = ls_crc sample_low"
    "sample_layout sample_low = [] @ 7 # [0]"
    by (simp_all add: sample_layout_def sample_low_def)
  have bad: "sample_layout (sample_low\<lparr>ls_tick := 6\<rparr>) = [] @ 6 # [0]"
    by (simp add: sample_layout_def sample_low_def)
  have "ls_crc (sample_low\<lparr>ls_tick := 6\<rparr>) = ls_crc sample_low" by simp
  with corrupted_packets_dropped[where xs = "[]" and d = 7 and ys = "[0]" and e = 6
      and got = "sample_low\<lparr>ls_tick := 6\<rparr>" and now = 0 and r = state_reader_new and sent = sample_low and layout = sample_layout, OF ok] bad
  show ?thesis by (simp flip: ts_data_get)
qed

text \<open>When data is in a buffer that is written and swept by such events, it is recent.\<close>

lemma drop_stale_fresh:
  "get_data (drop_stale now b) = Some x \<Longrightarrow>
     get_data b = Some x \<and> drop_stale now b = b \<and> get_age_ms now (get_data_with_time b) \<le> kWatchdogStaleMs"
  by (auto simp: drop_stale_def Let_def split: if_splits)

lemma drop_stale_keeps:
  "get_data b = Some x \<Longrightarrow> get_age_ms now (get_data_with_time b) \<le> kWatchdogStaleMs \<Longrightarrow>
     drop_stale now b = b"
  by (simp add: drop_stale_def Let_def)

definition state_event :: "link_event \<Rightarrow> bool" where
  "state_event e = (case e of Packet _ _ \<Rightarrow> True | _ \<Rightarrow> False)"

lemma link_run_quiet:
  assumes "\<not> list_ex state_event es" "get_data (sr_state_buf (link_run layout es r)) = Some st"
  shows "sr_state_buf (link_run layout es r) = sr_state_buf r"
  using assms
proof (induction es rule: rev_induct)
  case Nil
  show ?case by (simp add: link_run_def)
next
  case (snoc e es)
  from snoc.prems(1) have quiet: "\<not> list_ex state_event es" by simp
  show ?case
  proof (cases e)
    case (Packet t m)
    with snoc.prems(1) show ?thesis by (simp add: state_event_def)
  next
    case (TorsoImu t m)
    with snoc.prems(2) snoc.IH[OF quiet] show ?thesis
      by (simp add: link_run_append link_run_def on_imu_torso_update_def)
  next
    case (Watchdog t1 t2)
    with snoc.prems(2) have "get_data (drop_stale t1 (sr_state_buf (link_run layout es r))) = Some st"
      by (simp add: link_run_append link_run_def state_watchdog_pass_def)
    from drop_stale_fresh[OF this] snoc.IH[OF quiet] Watchdog show ?thesis
      by (simp add: link_run_append link_run_def state_watchdog_pass_def)
  qed
qed

text \<open>
  C23: A silent link is noticed: if after the last packet a watchdog pass runs more than 60 ms (at
  microsecond resolution) later, the state buffer is empty, whatever else happened on the link,
  so every consumer that keys off the buffer sees the loss; and a pass within 60 ms of the
  packet keeps the state with its receive time.
\<close>
theorem silent_link_clears_state:
  assumes "\<not> list_ex state_event es"
    and "get_data_with_time (sr_state_buf r) = \<lparr>ts_data = Some st, ts_time = t\<rparr>"
    and "now = t + d" "0 \<le> d"
  shows "(60001000 \<le> d \<longrightarrow>
      get_data (sr_state_buf (link_run layout (es @ [Watchdog now now2]) r)) = None)
    \<and> (d \<le> 60000000 \<and> es = [] \<longrightarrow>
      get_data_with_time (sr_state_buf (link_run layout [Watchdog now now2] r))
        = \<lparr>ts_data = Some st, ts_time = t\<rparr>)"
proof -
  have some: "get_data (sr_state_buf r) = Some st"
    using assms(2) by (metis timestamped.select_convs(1) ts_data_get)
  have age: "get_age_ms now (get_data_with_time (sr_state_buf r)) = real_of_int (d div 1000) / 1000"
    using assms(3,4) by (simp add: get_age_ms_def assms(2) has_data_def)
  have "get_data (sr_state_buf (link_run layout (es @ [Watchdog now now2]) r)) = None" if "60001000 \<le> d"
  proof (rule ccontr)
    assume "get_data (sr_state_buf (link_run layout (es @ [Watchdog now now2]) r)) \<noteq> None"
    then obtain x where "get_data (drop_stale now (sr_state_buf (link_run layout es r))) = Some x"
      by (auto simp: link_run_append link_run_def state_watchdog_pass_def)
    note kept = drop_stale_fresh[OF this]
    have same: "sr_state_buf (link_run layout es r) = sr_state_buf r"
      using link_run_quiet[OF assms(1)] kept by blast
    from kept have "get_age_ms now (get_data_with_time (sr_state_buf r)) \<le> 60"
      unfolding same by (simp add: kWatchdogStaleMs_def)
    with that age show False by simp
  qed
  moreover have "drop_stale now (sr_state_buf r) = sr_state_buf r" if "d \<le> 60000000"
    using that age assms(4) by (intro drop_stale_keeps[OF some]) (simp add: kWatchdogStaleMs_def)
  ultimately show ?thesis
    using assms(2) by (simp add: link_run_def state_watchdog_pass_def)
qed

lemma silent_link_clears_state_witness:
  "get_data (sr_state_buf (link_run sample_layout ([] @ [Watchdog 70000000 70000000])
      (on_lowstate_update sample_layout 0 sample_low state_reader_new))) = None
   \<and> get_data_with_time (sr_state_buf (link_run sample_layout [Watchdog 50000000 50000000]
      (on_lowstate_update sample_layout 0 sample_low state_reader_new)))
      = \<lparr>ts_data = Some (convert_state sample_low), ts_time = 0\<rparr>"
proof -
  have data: "get_data_with_time (sr_state_buf (on_lowstate_update sample_layout 0 sample_low state_reader_new))
      = \<lparr>ts_data = Some (convert_state sample_low), ts_time = 0\<rparr>"
    by (simp add: on_lowstate_update_def sample_layout_def sample_low_def)
  show ?thesis
    using silent_link_clears_state[of "[]", OF _ data, where d = 70000000 and now = 70000000
        and layout = sample_layout and ?now2.0 = 70000000]
      silent_link_clears_state[of "[]", OF _ data, where d = 50000000 and now = 50000000
        and layout = sample_layout and ?now2.0 = 50000000]
    by simp
qed

end
