(* ===== verification/Command_Writer.thy ===== *)
theory Command_Writer
  imports Unitree_Link
begin

text \<open>
  The 500 Hz command writer of \<open>src/unitree/unitree_command_writer.cpp\<close>: taking the command
  topic over from the built-in motion service, packing and signing a command, the loop with its
  jitter log, and the damping burst at the end. The motion-switcher client is outside the
  repository: its answers are the parameter \<open>check\<close>, the code and service name of its
  \<open>k\<close>-th \<open>CheckMode\<close>.
\<close>

section \<open>Taking over the command topic\<close>

text \<open>The retry loop: release, wait, check again; it returns also the number of releases asked for.\<close>

fun release_loop :: "(nat \<Rightarrow> int \<times> string) \<Rightarrow> nat \<Rightarrow> nat \<Rightarrow> bool \<times> nat" where
  "release_loop check k 0 = (False, k)"
| "release_loop check k (Suc left) =
     (if fst (check (k + 1)) = 0 \<and> snd (check (k + 1)) = [] then (True, k + 1)
      else release_loop check (k + 1) left)"

definition ensure_exclusive_lowcmd :: "(nat \<Rightarrow> int \<times> string) \<Rightarrow> bool \<times> nat" where
  "ensure_exclusive_lowcmd check =
     (if fst (check 0) \<noteq> 0 then (True, 0)
      else if snd (check 0) = [] then (True, 0)
      else release_loop check 0 5)"

section \<open>The writer\<close>

record low_motor_cmd =
  lm_mode :: "8 word"
  lm_q :: real
  lm_dq :: real
  lm_kp :: real
  lm_kd :: real
  lm_tau :: real

text \<open>The command message: the 29 body motors the writer fills in, and the words around them.\<close>

record low_cmd =
  lc_mode_pr :: "8 word"
  lc_mode_machine :: "8 word"
  lc_motor_cmd :: "low_motor_cmd list"
  lc_crc :: "32 word"

definition kModePR :: "8 word" where "kModePR = 0"
definition kCmdPeriod :: time where "kCmdPeriod = 2000000"

record command_writer =
  cw_publisher :: bool
  cw_sent :: "low_cmd list"
  cw_last_tick :: time
  cw_max_gap_us :: int
  cw_ticks :: int
  cw_jitter_log :: "int list"

definition command_writer_new :: command_writer where
  "command_writer_new = \<lparr>cw_publisher = False, cw_sent = [], cw_last_tick = 0, cw_max_gap_us = 0,
     cw_ticks = 0, cw_jitter_log = []\<rparr>"

text \<open>The message for a command: enabled motors, the robot's own mode code echoed, signed last.\<close>

definition low_cmd_body :: "unitree_state option \<Rightarrow> motor_command \<Rightarrow> low_cmd" where
  "low_cmd_body st cmd =
     \<lparr>lc_mode_pr = kModePR,
      lc_mode_machine = (case st of Some s \<Rightarrow> us_mode_machine s | None \<Rightarrow> 0),
      lc_motor_cmd = map (\<lambda>i. \<lparr>lm_mode = 1, lm_q = q_target cmd ! i, lm_dq = dq_target cmd ! i,
         lm_kp = mc_kp cmd ! i, lm_kd = mc_kd cmd ! i, lm_tau = tau_ff cmd ! i\<rparr>) [0..<29],
      lc_crc = 0\<rparr>"

definition low_cmd_of :: "(low_cmd \<Rightarrow> 32 word list) \<Rightarrow> unitree_state option \<Rightarrow> motor_command \<Rightarrow> low_cmd" where
  "low_cmd_of layout st cmd =
     (let msg = low_cmd_body st cmd in msg\<lparr>lc_crc := crc32_core (layout msg)\<rparr>)"

definition cmd_publish ::
    "(low_cmd \<Rightarrow> 32 word list) \<Rightarrow> unitree_state option \<Rightarrow> motor_command \<Rightarrow> command_writer \<Rightarrow> command_writer" where
  "cmd_publish layout st cmd w = w\<lparr>cw_sent := cw_sent w @ [low_cmd_of layout st cmd]\<rparr>"

text \<open>\<open>source_given\<close>: the command source is not null; \<open>now\<close>: the clock as the loop is entered.\<close>

definition cmd_writer_start ::
    "bool \<Rightarrow> (nat \<Rightarrow> int \<times> string) \<Rightarrow> time \<Rightarrow> command_writer \<Rightarrow> bool \<times> command_writer" where
  "cmd_writer_start source_given check now w =
     (if \<not> source_given then (False, w)
      else if \<not> fst (ensure_exclusive_lowcmd check) then (False, w)
      else (True, w\<lparr>cw_publisher := True, cw_last_tick := now, cw_max_gap_us := 0, cw_ticks := 0\<rparr>))"

definition cmd_damping :: motor_command where
  "cmd_damping = motor_command_zero\<lparr>mc_kp := replicate 29 0, mc_kd := replicate 29 8\<rparr>"

text \<open>The burst of five, each reading the state buffer anew: \<open>sts\<close> is what it finds.\<close>

definition send_damping ::
    "(low_cmd \<Rightarrow> 32 word list) \<Rightarrow> (nat \<Rightarrow> unitree_state option) \<Rightarrow> command_writer \<Rightarrow> command_writer" where
  "send_damping layout sts w =
     (if \<not> cw_publisher w then w
      else fold (\<lambda>n. cmd_publish layout (sts n) cmd_damping) [0..<5] w)"

definition cmd_writer_stop ::
    "(low_cmd \<Rightarrow> 32 word list) \<Rightarrow> (nat \<Rightarrow> unitree_state option) \<Rightarrow> command_writer \<Rightarrow> command_writer" where
  "cmd_writer_stop layout sts w = send_damping layout sts w"

text \<open>The jitter bookkeeping of one iteration, then the command, if there is one.\<close>

definition jitter_step :: "time \<Rightarrow> command_writer \<Rightarrow> command_writer" where
  "jitter_step t0 w =
     (let gap = (t0 - cw_last_tick w) sdiv 1000;
          m = max (cw_max_gap_us w) gap;
          n = cw_ticks w + 1;
          w1 = w\<lparr>cw_last_tick := t0\<rparr>
      in if n \<ge> 500 then
           w1\<lparr>cw_jitter_log := cw_jitter_log w1 @ (if m > 6000 then [m] else []),
              cw_ticks := 0, cw_max_gap_us := 0\<rparr>
         else w1\<lparr>cw_ticks := n, cw_max_gap_us := m\<rparr>)"

record cmd_in =
  cm_t0 :: time
  cm_cmd :: "motor_command option"
  cm_state :: "unitree_state option"

definition cmd_tick :: "(low_cmd \<Rightarrow> 32 word list) \<Rightarrow> cmd_in \<Rightarrow> command_writer \<Rightarrow> command_writer" where
  "cmd_tick layout i w =
     (let w1 = jitter_step (cm_t0 i) w
      in case cm_cmd i of None \<Rightarrow> w1 | Some cmd \<Rightarrow> cmd_publish layout (cm_state i) cmd w1)"

definition cmd_run :: "(low_cmd \<Rightarrow> 32 word list) \<Rightarrow> cmd_in list \<Rightarrow> command_writer \<Rightarrow> command_writer" where
  "cmd_run layout ins w = fold (cmd_tick layout) ins w"

lemma cmd_run_snoc: "cmd_run layout (ins @ [i]) w = cmd_tick layout i (cmd_run layout ins w)"
  by (simp add: cmd_run_def)

section \<open>What is sent\<close>

lemma jitter_keeps [simp]:
  "cw_sent (jitter_step t w) = cw_sent w" "cw_publisher (jitter_step t w) = cw_publisher w"
  by (simp_all add: jitter_step_def Let_def)

lemma cmd_tick_sent:
  "cw_sent (cmd_tick layout i w) = cw_sent w @
     (case cm_cmd i of None \<Rightarrow> [] | Some cmd \<Rightarrow> [low_cmd_of layout (cm_state i) cmd])"
  by (simp add: cmd_tick_def cmd_publish_def Let_def split: option.split)

lemma cmd_run_sent:
  "cw_sent (cmd_run layout ins w) = cw_sent w @
     map (\<lambda>i. low_cmd_of layout (cm_state i) (the (cm_cmd i))) (filter (\<lambda>i. cm_cmd i \<noteq> None) ins)"
proof (induction ins rule: rev_induct)
  case Nil
  show ?case by (simp add: cmd_run_def)
next
  case (snoc i ins)
  then show ?case by (cases "cm_cmd i") (simp_all add: cmd_run_snoc cmd_tick_sent)
qed

lemma cmd_run_publisher: "cw_publisher (cmd_run layout ins w) = cw_publisher w"
  by (induction ins rule: rev_induct)
     (simp_all add: cmd_run_def cmd_tick_def cmd_publish_def Let_def split: option.split)

lemma send_damping_sent:
  "cw_sent (send_damping layout sts w) = cw_sent w @
     (if cw_publisher w then map (\<lambda>n. low_cmd_of layout (sts n) cmd_damping) [0..<5] else [])"
  by (simp add: send_damping_def cmd_publish_def upt_rec)

text \<open>The layout covers the whole message but its checksum word.\<close>

definition layout_skips_crc :: "(low_cmd \<Rightarrow> 32 word list) \<Rightarrow> bool" where
  "layout_skips_crc layout \<longleftrightarrow> (\<forall>m c. layout (m\<lparr>lc_crc := c\<rparr>) = layout m)"

definition damps :: "low_cmd \<Rightarrow> bool" where
  "damps m \<longleftrightarrow> length (lc_motor_cmd m) = 29 \<and>
     list_all (\<lambda>c. lm_kp c = 0 \<and> lm_kd c = 8 \<and> lm_dq c = 0 \<and> lm_tau c = 0) (lc_motor_cmd m)"

definition carries :: "cmd_in \<Rightarrow> low_cmd \<Rightarrow> bool" where
  "carries i m \<longleftrightarrow> (case cm_cmd i of None \<Rightarrow> False | Some cmd \<Rightarrow>
     lc_motor_cmd m = map (\<lambda>j. \<lparr>lm_mode = 1, lm_q = q_target cmd ! j, lm_dq = dq_target cmd ! j,
       lm_kp = mc_kp cmd ! j, lm_kd = mc_kd cmd ! j, lm_tau = tau_ff cmd ! j\<rparr>) [0..<29]
     \<and> lc_mode_machine m = (case cm_state i of Some s \<Rightarrow> us_mode_machine s | None \<Rightarrow> 0))"

lemma low_cmd_of_signed:
  "layout_skips_crc layout \<Longrightarrow> crc32_core (layout (low_cmd_of layout st cmd)) = lc_crc (low_cmd_of layout st cmd)"
  by (simp add: low_cmd_of_def layout_skips_crc_def Let_def)

lemma low_cmd_of_carries: "cm_cmd i = Some cmd \<Longrightarrow> carries i (low_cmd_of layout (cm_state i) cmd)"
  by (simp add: low_cmd_of_def low_cmd_body_def carries_def Let_def)

lemma low_cmd_of_damps: "damps (low_cmd_of layout st cmd_damping)"
  by (simp add: damps_def low_cmd_of_def low_cmd_body_def cmd_damping_def motor_command_zero_def Let_def list_all_iff)

text \<open>
  C18: What the robot receives: in any session, the messages written are exactly one per loop tick
  that found a command, in order, carrying that command's 29 joints unchanged and the robot's
  own mode code, followed by five messages at the stop that damp every joint; every one of them
  passes the checksum test the receiving side applies.
\<close>
theorem session_writes_signed_commands:
  assumes "layout_skips_crc layout" "cmd_writer_start True check now command_writer_new = (True, w0)"
  shows "\<exists>body stop. cw_sent (cmd_writer_stop layout sts (cmd_run layout ins w0)) = body @ stop
    \<and> list_all2 carries (filter (\<lambda>i. cm_cmd i \<noteq> None) ins) body
    \<and> length stop = 5 \<and> list_all damps stop
    \<and> list_all (\<lambda>m. crc32_core (layout m) = lc_crc m) (body @ stop)"
proof -
  let ?c = "filter (\<lambda>i. cm_cmd i \<noteq> None) ins"
  let ?body = "map (\<lambda>i. low_cmd_of layout (cm_state i) (the (cm_cmd i))) ?c"
  let ?stop = "map (\<lambda>n. low_cmd_of layout (sts n) cmd_damping) [0..<5]"
  have w0: "cw_publisher w0" "cw_sent w0 = []"
    using assms(2) by (auto simp: cmd_writer_start_def command_writer_new_def split: if_splits)
  have "cw_sent (cmd_writer_stop layout sts (cmd_run layout ins w0)) = ?body @ ?stop"
    by (simp only: cmd_writer_stop_def send_damping_sent cmd_run_sent cmd_run_publisher w0
        append_Nil if_True)
  moreover have "list_all2 carries ?c ?body"
    by (induction ins) (auto simp: low_cmd_of_carries)
  moreover have "list_all damps ?stop" by (simp add: list_all_iff low_cmd_of_damps)
  moreover have "list_all (\<lambda>m. crc32_core (layout m) = lc_crc m) (?body @ ?stop)"
    using low_cmd_of_signed[OF assms(1)] by (auto simp: list_all_iff)
  moreover have "length ?stop = 5" by simp
  ultimately show ?thesis by blast
qed

text \<open>The witness: a layout of the mode codes and one tick that holds a command.\<close>

definition sample_cmd_layout :: "low_cmd \<Rightarrow> 32 word list" where
  "sample_cmd_layout m = [ucast (lc_mode_pr m), ucast (lc_mode_machine m)]"

lemma session_writes_signed_commands_witness:
  "\<exists>m stop. cw_sent (cmd_writer_stop sample_cmd_layout (\<lambda>_. None) (cmd_run sample_cmd_layout
      [\<lparr>cm_t0 = 1, cm_cmd = None, cm_state = None\<rparr>, \<lparr>cm_t0 = 2, cm_cmd = Some cmd_damping, cm_state = None\<rparr>]
      (snd (cmd_writer_start True (\<lambda>_. (3, ''ai'')) 0 command_writer_new)))) = m # stop
    \<and> lc_mode_machine m = 0 \<and> length stop = 5 \<and> list_all damps stop"
proof -
  have start: "cmd_writer_start True (\<lambda>_. (3, ''ai'')) 0 command_writer_new
      = (True, snd (cmd_writer_start True (\<lambda>_. (3, ''ai'')) 0 command_writer_new))"
    by (simp add: cmd_writer_start_def ensure_exclusive_lowcmd_def)
  have skip: "layout_skips_crc sample_cmd_layout"
    by (simp add: layout_skips_crc_def sample_cmd_layout_def)
  from session_writes_signed_commands[OF skip start, where sts = "\<lambda>_. None"
      and ins = "[\<lparr>cm_t0 = 1, cm_cmd = None, cm_state = None\<rparr>, \<lparr>cm_t0 = 2, cm_cmd = Some cmd_damping, cm_state = None\<rparr>]"]
  show ?thesis by (auto simp: list_all2_Cons1 carries_def)
qed

section \<open>Nobody else commands the robot\<close>

lemma release_loop_iff:
  "fst (release_loop check k n) \<longleftrightarrow> (\<exists>j \<in> {Suc k..k + n}. check j = (0, []))"
proof (induction n arbitrary: k)
  case (Suc n)
  have "{Suc k..k + Suc n} = insert (Suc k) {Suc (Suc k)..Suc k + n}" by auto
  with Suc.IH[of "Suc k"] show ?case by (cases "check (Suc k)") auto
qed simp

text \<open>
  The writer never publishes beside the built-in motion service: it starts exactly when it has a
  command source and the service cannot be reached, is already released, or is reported released
  after one of at most five requests; when it does not start, nothing is ever written, not even
  by the stop.
\<close>
theorem writer_starts_only_alone:
  "(fst (cmd_writer_start src check now command_writer_new) \<longleftrightarrow>
      src \<and> (fst (check 0) \<noteq> 0 \<or> snd (check 0) = [] \<or> (\<exists>j. 1 \<le> j \<and> j \<le> 5 \<and> check j = (0, []))))
   \<and> (fst (cmd_writer_start src check now command_writer_new) \<or>
      cw_sent (cmd_writer_stop layout sts (snd (cmd_writer_start src check now command_writer_new))) = [])
   \<and> snd (ensure_exclusive_lowcmd check) \<le> 5"
proof -
  have releases: "snd (release_loop check k n) \<le> k + n" for k n
  proof (induction n arbitrary: k)
    case (Suc n)
    from Suc.IH[of "Suc k"] show ?case by simp
  qed simp
  have "fst (ensure_exclusive_lowcmd check) \<longleftrightarrow>
      fst (check 0) \<noteq> 0 \<or> snd (check 0) = [] \<or> (\<exists>j. 1 \<le> j \<and> j \<le> 5 \<and> check j = (0, []))"
    by (auto simp: ensure_exclusive_lowcmd_def release_loop_iff Bex_def)
  moreover have "snd (ensure_exclusive_lowcmd check) \<le> 5"
    using releases[of 0 5] by (simp add: ensure_exclusive_lowcmd_def)
  ultimately show ?thesis
    by (auto simp: cmd_writer_start_def cmd_writer_stop_def send_damping_def command_writer_new_def)
qed

lemma writer_starts_only_alone_witness:
  "fst (cmd_writer_start True (\<lambda>k. if k = 3 then (0, []) else (0, ''ai'')) 0 command_writer_new)
   \<and> \<not> fst (cmd_writer_start True (\<lambda>k. (0, ''ai'')) 0 command_writer_new)"
proof -
  have "\<exists>j :: nat. 1 \<le> j \<and> j \<le> 5 \<and> (if j = 3 then (0, []) else (0 :: int, ''ai'')) = (0, [])"
    by (rule exI[of _ 3]) simp
  then show ?thesis
    using writer_starts_only_alone[of True "\<lambda>k. if k = 3 then (0, []) else (0, ''ai'')" 0]
      writer_starts_only_alone[of True "\<lambda>k. (0, ''ai'')" 0]
    by auto
qed

section \<open>The jitter log\<close>

definition gap_us :: "time \<Rightarrow> time \<Rightarrow> int" where
  "gap_us earlier later = (later - earlier) sdiv 1000"

definition jitter_run :: "time list \<Rightarrow> command_writer \<Rightarrow> command_writer" where
  "jitter_run ts w = fold jitter_step ts w"

fun worst_gap :: "time \<Rightarrow> time list \<Rightarrow> int" where
  "worst_gap p [] = 0"
| "worst_gap p (t # ts) = max (gap_us p t) (worst_gap t ts)"

lemma worst_gap_nonneg: "0 \<le> worst_gap p ts"
  by (induction ts arbitrary: p) (simp_all add: le_max_iff_disj)

lemma worst_gap_snoc: "worst_gap p (ts @ [t]) = max (worst_gap p ts) (max 0 (gap_us (last (p # ts)) t))"
  by (induction ts arbitrary: p) (auto simp: max.assoc max.commute max.left_commute)

lemma worst_gap_last: "worst_gap p (ts @ [t]) = max (worst_gap p ts) (gap_us (last (p # ts)) t)"
  using worst_gap_nonneg[of p ts] by (simp add: worst_gap_snoc max_def)

lemma jitter_window:
  assumes "cw_ticks w = 0" "cw_max_gap_us w = 0" "length ts < 500"
  shows "cw_ticks (jitter_run ts w) = int (length ts)
    \<and> cw_max_gap_us (jitter_run ts w) = worst_gap (cw_last_tick w) ts
    \<and> cw_last_tick (jitter_run ts w) = last (cw_last_tick w # ts)
    \<and> cw_jitter_log (jitter_run ts w) = cw_jitter_log w"
  using assms(3)
proof (induction ts rule: rev_induct)
  case Nil
  show ?case using assms by (simp add: jitter_run_def)
next
  case (snoc t ts)
  from snoc have "length ts < 500" by simp
  with snoc worst_gap_nonneg[of "cw_last_tick w" ts] show ?case
    by (auto simp: jitter_run_def jitter_step_def Let_def worst_gap_last gap_us_def)
qed

text \<open>
  The jitter log reports a second exactly when its worst gap exceeds three nominal periods, and
  then names that gap: over any 500 consecutive ticks of a window the log grows by the largest
  gap if that is above 6000 microseconds and is left alone otherwise, and the next window starts
  clean.
\<close>
theorem jitter_log_reports_worst_gap:
  assumes "cw_ticks w = 0" "cw_max_gap_us w = 0" "length ts = 500"
  shows "cw_jitter_log (jitter_run ts w) = cw_jitter_log w @
      (if worst_gap (cw_last_tick w) ts > 6000 then [worst_gap (cw_last_tick w) ts] else [])
    \<and> cw_ticks (jitter_run ts w) = 0 \<and> cw_max_gap_us (jitter_run ts w) = 0"
proof -
  from assms(3) obtain us t where ts: "ts = us @ [t]" by (cases ts rule: rev_cases) auto
  with assms(3) have us: "length us < 500" "length us = 499" by simp_all
  then have "us \<noteq> []" by auto
  have step: "jitter_run ts w = jitter_step t (jitter_run us w)" by (simp add: ts jitter_run_def)
  show ?thesis
    unfolding step
    using jitter_window[OF assms(1,2) us(1)] us(2) \<open>us \<noteq> []\<close> worst_gap_nonneg[of "cw_last_tick w" us]
    by (simp add: jitter_step_def Let_def ts worst_gap_last gap_us_def)
qed

end
