(* ===== verification/Motor_Health.thy ===== *)
theory Motor_Health
  imports Unitree_Link Hand_Command
begin

text \<open>
  The fault rules of \<open>include/unitree/motor_health_rules.hpp\<close> and the monitor loop of
  \<open>src/unitree/motor_health_monitor.cpp\<close>. A log line is a constructor with the values the
  text is printed from; the formatting itself is left out.
\<close>

section \<open>Lines and parameters\<close>

text \<open>Whom a line is about: a body motor, a hand (\<open>0\<close> left, \<open>1\<close> right), or one motor of a hand.\<close>

datatype health_who = Body_Motor nat | Hand nat | Hand_Motor nat nat

datatype sensor = Casing | Winding

datatype health_line =
    Fault_Raised health_who "32 word"
  | Fault_Cleared health_who "32 word"
  | Temp_Emergency health_who sensor int int
  | Temp_Warning health_who sensor int int
  | Temp_Back health_who sensor int
  | Not_Responding health_who real real
  | Producing_Again health_who real real
  | State_Frozen health_who real real real
  | State_Updating health_who
  | Summary "(nat \<times> int \<times> nat \<times> int) option" "int option" "int option" nat

record health_params =
  hp_enabled :: bool
  hp_casing_warn_c :: int
  hp_casing_critical_c :: int
  hp_winding_warn_c :: int
  hp_winding_critical_c :: int
  hp_unresp_tau_min :: real
  hp_unresp_tau_ratio :: real
  hp_unresp_time_s :: real
  hp_frozen_time_s :: real
  hp_frozen_cmd_move :: real
  hp_summary_period_s :: real

definition health_params_default :: health_params where
  "health_params_default = \<lparr>hp_enabled = True, hp_casing_warn_c = 72, hp_casing_critical_c = 76,
     hp_winding_warn_c = 110, hp_winding_critical_c = 117, hp_unresp_tau_min = 5,
     hp_unresp_tau_ratio = 0.3, hp_unresp_time_s = 1, hp_frozen_time_s = 1,
     hp_frozen_cmd_move = 0.02, hp_summary_period_s = 0\<rparr>"

section \<open>State\<close>

record body_track =
  bt_error_last :: "32 word"
  bt_casing_level :: int
  bt_winding_level :: int
  bt_unresp_s :: real
  bt_unresp :: bool
  bt_frozen_s :: real
  bt_frozen :: bool
  bt_q_last :: real
  bt_cmd_at_freeze_start :: real
  bt_have_last :: bool

definition body_track_new :: body_track where
  "body_track_new = \<lparr>bt_error_last = 0, bt_casing_level = 0, bt_winding_level = 0, bt_unresp_s = 0,
     bt_unresp = False, bt_frozen_s = 0, bt_frozen = False, bt_q_last = 0,
     bt_cmd_at_freeze_start = 0, bt_have_last = False\<rparr>"

record hand_track =
  ht_error_last :: "32 word"
  ht_casing_level :: "int list"
  ht_winding_level :: "int list"

definition hand_track_new :: hand_track where
  "hand_track_new = \<lparr>ht_error_last = 0, ht_casing_level = replicate kHandMotors 0,
     ht_winding_level = replicate kHandMotors 0\<rparr>"

record health_rules =
  hr_p :: health_params
  hr_body :: "body_track list"
  hr_hand :: "hand_track list"
  hr_summary_s :: real

definition health_reset :: "health_rules \<Rightarrow> health_rules" where
  "health_reset r = r\<lparr>hr_body := replicate kNumMotors body_track_new,
     hr_hand := replicate 2 hand_track_new, hr_summary_s := 0\<rparr>"

definition health_new :: "health_params \<Rightarrow> health_rules" where
  "health_new p = \<lparr>hr_p = p, hr_body = replicate kNumMotors body_track_new,
     hr_hand = replicate 2 hand_track_new, hr_summary_s = 0\<rparr>"

definition health_configure :: "health_params \<Rightarrow> health_rules \<Rightarrow> health_rules" where
  "health_configure p r = health_reset (r\<lparr>hr_p := p\<rparr>)"

section \<open>The conditions\<close>

definition next_level :: "int \<Rightarrow> int \<Rightarrow> int \<Rightarrow> int \<Rightarrow> int" where
  "next_level level temp warn critical =
     (if temp \<ge> critical then 2
      else if temp \<ge> warn then (if level = 2 \<and> temp \<ge> critical - 5 then 2 else 1)
      else if temp < warn - 5 then 0
      else level)"

text \<open>The new level, and a line when it changed.\<close>

definition temp_transition ::
    "int \<Rightarrow> int \<Rightarrow> int \<Rightarrow> int \<Rightarrow> sensor \<Rightarrow> health_who \<Rightarrow> int \<times> health_line list" where
  "temp_transition level temp warn critical sensor who =
     (let nxt = next_level level temp warn critical
      in if nxt = level then (level, [])
         else if nxt = 2 then (nxt, [Temp_Emergency who sensor temp critical])
         else if nxt = 1 then (nxt, [Temp_Warning who sensor temp warn])
         else (nxt, [Temp_Back who sensor temp]))"

definition fault_step :: "health_who \<Rightarrow> 32 word \<Rightarrow> 32 word \<Rightarrow> health_line list" where
  "fault_step who err err_last =
     (if err \<noteq> err_last then
        (if err \<noteq> 0 then [Fault_Raised who err] else [Fault_Cleared who err_last])
      else [])"

text \<open>The torque the firmware should produce for the command.\<close>

definition expected_tau :: "nat \<Rightarrow> motor_state \<Rightarrow> motor_command \<Rightarrow> real" where
  "expected_tau i m cmd = mc_kp cmd ! i * (q_target cmd ! i - ms_q m)
     + mc_kd cmd ! i * (dq_target cmd ! i - ms_dq m) + tau_ff cmd ! i"

definition torque_asked :: "health_params \<Rightarrow> real \<Rightarrow> bool" where
  "torque_asked p expected \<longleftrightarrow> \<bar>expected\<bar> > hp_unresp_tau_min p"

definition torque_missing :: "health_params \<Rightarrow> real \<Rightarrow> real \<Rightarrow> bool" where
  "torque_missing p expected tau \<longleftrightarrow>
     torque_asked p expected \<and> \<bar>tau\<bar> < hp_unresp_tau_ratio p * \<bar>expected\<bar>"

definition torque_confirmed :: "health_params \<Rightarrow> real \<Rightarrow> real \<Rightarrow> bool" where
  "torque_confirmed p expected tau \<longleftrightarrow>
     torque_asked p expected \<and> \<bar>tau\<bar> \<ge> hp_unresp_tau_ratio p * \<bar>expected\<bar>"

definition unresp_step ::
    "health_params \<Rightarrow> nat \<Rightarrow> motor_state \<Rightarrow> motor_command option \<Rightarrow> real \<Rightarrow> body_track \<Rightarrow> body_track \<times> health_line list" where
  "unresp_step p i m cmd dt_s t =
     (case cmd of
        None \<Rightarrow> (t\<lparr>bt_unresp_s := 0\<rparr>, [])
      | Some c \<Rightarrow>
          (let e = expected_tau i m c;
               t1 = t\<lparr>bt_unresp_s := (if torque_missing p e (ms_tau m) then bt_unresp_s t + dt_s else 0)\<rparr>
           in if \<not> bt_unresp t1 \<and> bt_unresp_s t1 \<ge> hp_unresp_time_s p then
                (t1\<lparr>bt_unresp := True\<rparr>, [Not_Responding (Body_Motor i) e (ms_tau m)])
              else if bt_unresp t1 \<and> torque_confirmed p e (ms_tau m) then
                (t1\<lparr>bt_unresp := False\<rparr>, [Producing_Again (Body_Motor i) (ms_tau m) e])
              else (t1, [])))"

text \<open>How long the position has been bit-identical, and where the command was when that began.\<close>

definition frozen_timer :: "nat \<Rightarrow> motor_state \<Rightarrow> motor_command option \<Rightarrow> real \<Rightarrow> body_track \<Rightarrow> body_track" where
  "frozen_timer i m cmd dt_s t =
     (if ms_q m = bt_q_last t then
        (case cmd of
           Some c \<Rightarrow> if bt_frozen_s t = 0 then t\<lparr>bt_cmd_at_freeze_start := q_target c ! i\<rparr> else t
         | None \<Rightarrow> t)\<lparr>bt_frozen_s := bt_frozen_s t + dt_s\<rparr>
      else t\<lparr>bt_frozen_s := 0\<rparr>)"

definition cmd_travel :: "nat \<Rightarrow> motor_command option \<Rightarrow> body_track \<Rightarrow> real option" where
  "cmd_travel i cmd t = map_option (\<lambda>c. q_target c ! i - bt_cmd_at_freeze_start t) cmd"

definition frozen_step ::
    "health_params \<Rightarrow> nat \<Rightarrow> motor_state \<Rightarrow> motor_command option \<Rightarrow> real \<Rightarrow> body_track \<Rightarrow> body_track \<times> health_line list" where
  "frozen_step p i m cmd dt_s t =
     (if \<not> bt_have_last t then (t, [])
      else
        (let t1 = frozen_timer i m cmd dt_s t;
             moved = (case cmd_travel i cmd t1 of None \<Rightarrow> False | Some d \<Rightarrow> \<bar>d\<bar> > hp_frozen_cmd_move p)
         in if \<not> bt_frozen t1 \<and> bt_frozen_s t1 \<ge> hp_frozen_time_s p \<and> moved then
              (t1\<lparr>bt_frozen := True\<rparr>,
               [State_Frozen (Body_Motor i) (ms_q m) (bt_frozen_s t1) (the (cmd_travel i cmd t1))])
            else if bt_frozen t1 \<and> ms_q m \<noteq> bt_q_last t then
              (t1\<lparr>bt_frozen := False\<rparr>, [State_Updating (Body_Motor i)])
            else (t1, [])))"

text \<open>One body motor, the four rules in the order of the code.\<close>

definition step_body_motor ::
    "health_params \<Rightarrow> nat \<Rightarrow> motor_state \<Rightarrow> motor_command option \<Rightarrow> real \<Rightarrow> body_track \<Rightarrow> body_track \<times> health_line list" where
  "step_body_motor p i m cmd dt_s t =
     (let who = Body_Motor i;
          l0 = fault_step who (ms_error m) (bt_error_last t);
          (cl, l1) = temp_transition (bt_casing_level t) (ms_temp_casing m)
                       (hp_casing_warn_c p) (hp_casing_critical_c p) Casing who;
          (wl, l2) = temp_transition (bt_winding_level t) (ms_temp_winding m)
                       (hp_winding_warn_c p) (hp_winding_critical_c p) Winding who;
          t1 = t\<lparr>bt_error_last := ms_error m, bt_casing_level := cl, bt_winding_level := wl\<rparr>;
          (t2, l3) = unresp_step p i m cmd dt_s t1;
          (t3, l4) = frozen_step p i m cmd dt_s t2
      in (t3\<lparr>bt_q_last := ms_q m, bt_have_last := True\<rparr>, l0 @ l1 @ l2 @ l3 @ l4))"

text \<open>One hand: its error word, then its motors' temperatures.\<close>

definition hand_temps ::
    "health_params \<Rightarrow> nat \<Rightarrow> hand_state \<Rightarrow> hand_track \<Rightarrow> nat \<Rightarrow> (int \<times> health_line list) \<times> (int \<times> health_line list)" where
  "hand_temps p side h t i =
     (temp_transition (ht_casing_level t ! i) (hm_temp_casing (hs_motors h ! i))
        (hp_casing_warn_c p) (hp_casing_critical_c p) Casing (Hand_Motor side i),
      temp_transition (ht_winding_level t ! i) (hm_temp_winding (hs_motors h ! i))
        (hp_winding_warn_c p) (hp_winding_critical_c p) Winding (Hand_Motor side i))"

definition step_hand ::
    "health_params \<Rightarrow> nat \<Rightarrow> hand_state \<Rightarrow> hand_track \<Rightarrow> hand_track \<times> health_line list" where
  "step_hand p side h t =
     (let temps = map (hand_temps p side h t) [0..<kHandMotors]
      in (\<lparr>ht_error_last = hs_error h, ht_casing_level = map (fst \<circ> fst) temps,
           ht_winding_level = map (fst \<circ> snd) temps\<rparr>,
          fault_step (Hand side) (hs_error h) (ht_error_last t)
            @ concat (map (\<lambda>x. snd (fst x) @ snd (snd x)) temps)))"

definition body_flags :: "health_rules \<Rightarrow> nat \<Rightarrow> nat" where
  "body_flags r i = (let b = hr_body r ! i in
     (if bt_error_last b \<noteq> 0 then 1 else 0) + (if bt_frozen b then 2 else 0) + (if bt_unresp b then 4 else 0))"

definition active_faults :: "health_rules \<Rightarrow> nat" where
  "active_faults r =
     sum_list (map (\<lambda>b. of_bool (bt_error_last b \<noteq> 0) + of_bool (bt_unresp b) + of_bool (bt_frozen b)
        + of_bool (bt_casing_level b = 2) + of_bool (bt_winding_level b = 2)) (hr_body r))
     + sum_list (map (\<lambda>h. of_bool (ht_error_last h \<noteq> 0)
        + sum_list (map (\<lambda>i. of_bool (ht_casing_level h ! i = 2) + of_bool (ht_winding_level h ! i = 2))
            [0..<kHandMotors])) (hr_hand r))"

text \<open>The first motor with the highest value, as the two running indices of the summary find it.\<close>

definition hottest :: "(motor_state \<Rightarrow> int) \<Rightarrow> motor_state list \<Rightarrow> nat" where
  "hottest f ms = fold (\<lambda>i best. if f (ms ! i) > f (ms ! best) then i else best) [1..<kNumMotors] 0"

definition hand_hottest :: "hand_state \<Rightarrow> int" where
  "hand_hottest h = fold (\<lambda>x m. max m (hm_temp_casing x)) (hs_motors h) 0"

definition health_summary ::
    "health_rules \<Rightarrow> unitree_state option \<Rightarrow> hand_state option \<Rightarrow> hand_state option \<Rightarrow> health_line" where
  "health_summary r body l rt =
     Summary (case body of None \<Rightarrow> None
              | Some b \<Rightarrow>
                  (let hc = hottest ms_temp_casing (us_motors b); hw = hottest ms_temp_winding (us_motors b)
                   in Some (hc, ms_temp_casing (us_motors b ! hc), hw, ms_temp_winding (us_motors b ! hw))))
       (map_option hand_hottest l) (map_option hand_hottest rt) (active_faults r)"

section \<open>One step of the rules\<close>

definition body_step ::
    "unitree_state option \<Rightarrow> motor_command option \<Rightarrow> real \<Rightarrow> health_rules \<Rightarrow> health_rules \<times> health_line list" where
  "body_step body cmd dt_s r =
     (case body of
        None \<Rightarrow> (r, [])
      | Some b \<Rightarrow>
          (let res = map (\<lambda>i. step_body_motor (hr_p r) i (us_motors b ! i) cmd dt_s (hr_body r ! i))
                       [0..<kNumMotors]
           in (r\<lparr>hr_body := map fst res\<rparr>, concat (map snd res))))"

definition hand_step :: "nat \<Rightarrow> hand_state option \<Rightarrow> health_rules \<Rightarrow> health_rules \<times> health_line list" where
  "hand_step side h r =
     (case h of
        None \<Rightarrow> (r, [])
      | Some st \<Rightarrow>
          (let (t, ls) = step_hand (hr_p r) side st (hr_hand r ! side)
           in (r\<lparr>hr_hand := (hr_hand r)[side := t]\<rparr>, ls)))"

definition health_step ::
    "unitree_state option \<Rightarrow> motor_command option \<Rightarrow> hand_state option \<Rightarrow> hand_state option \<Rightarrow> real
      \<Rightarrow> health_rules \<Rightarrow> health_rules \<times> health_line list" where
  "health_step body cmd left right dt_s r =
     (if \<not> hp_enabled (hr_p r) then (r, [])
      else
        (let (r1, l1) = body_step body cmd dt_s r;
             (r2, l2) = hand_step 0 left r1;
             (r3, l3) = hand_step 1 right r2
         in if hp_summary_period_s (hr_p r) > 0 then
              (let s = hr_summary_s r3 + dt_s
               in if s \<ge> hp_summary_period_s (hr_p r)
                  then (let r4 = r3\<lparr>hr_summary_s := 0\<rparr>
                        in (r4, l1 @ l2 @ l3 @ [health_summary r4 body left right]))
                  else (r3\<lparr>hr_summary_s := s\<rparr>, l1 @ l2 @ l3))
            else (r3, l1 @ l2 @ l3)))"

section \<open>The monitor\<close>

record health_monitor =
  hmn_rules :: health_rules
  hmn_running :: bool
  hmn_flags :: "nat list"
  hmn_log :: "health_line list"

definition monitor_new :: health_monitor where
  "monitor_new = \<lparr>hmn_rules = health_new health_params_default, hmn_running = False,
     hmn_flags = replicate kNumMotors 0, hmn_log = []\<rparr>"

definition monitor_start :: "health_params \<Rightarrow> health_monitor \<Rightarrow> health_monitor" where
  "monitor_start p m =
     (let m1 = m\<lparr>hmn_rules := health_configure p (hmn_rules m)\<rparr>
      in if hp_enabled p then m1\<lparr>hmn_running := True\<rparr> else m1)"

definition monitor_stop :: "health_monitor \<Rightarrow> health_monitor" where
  "monitor_stop m = m\<lparr>hmn_running := False\<rparr>"

definition kHandStaleMs :: real where "kHandStaleMs = 200"

record monitor_in =
  mi_body :: "unitree_state option"
  mi_cmd :: "motor_command option"
  mi_left :: "hand_state timestamped"
  mi_right :: "hand_state timestamped"
  mi_now :: time
  mi_dt :: real

definition monitor_fresh :: "time \<Rightarrow> hand_state timestamped \<Rightarrow> hand_state option" where
  "monitor_fresh now t = (if has_data t \<and> get_age_ms now t < kHandStaleMs then ts_data t else None)"

definition monitor_tick :: "monitor_in \<Rightarrow> health_monitor \<Rightarrow> health_monitor" where
  "monitor_tick i m =
     (let (r, lines) = health_step (mi_body i) (mi_cmd i) (monitor_fresh (mi_now i) (mi_left i))
                         (monitor_fresh (mi_now i) (mi_right i)) (mi_dt i) (hmn_rules m)
      in m\<lparr>hmn_rules := r, hmn_log := hmn_log m @ lines,
           hmn_flags := map (body_flags r) [0..<kNumMotors]\<rparr>)"

definition monitor_run :: "monitor_in list \<Rightarrow> health_monitor \<Rightarrow> health_monitor" where
  "monitor_run is m = fold monitor_tick is m"

section \<open>The log tells the whole story\<close>

text \<open>What a reader of the log knows about one motor or hand.\<close>

record motor_view =
  mv_err :: "32 word"
  mv_casing :: int
  mv_winding :: int
  mv_unresp :: bool
  mv_frozen :: bool

definition view_blank :: motor_view where
  "view_blank = \<lparr>mv_err = 0, mv_casing = 0, mv_winding = 0, mv_unresp = False, mv_frozen = False\<rparr>"

fun line_who :: "health_line \<Rightarrow> health_who option" where
  "line_who (Fault_Raised w _) = Some w"
| "line_who (Fault_Cleared w _) = Some w"
| "line_who (Temp_Emergency w _ _ _) = Some w"
| "line_who (Temp_Warning w _ _ _) = Some w"
| "line_who (Temp_Back w _ _) = Some w"
| "line_who (Not_Responding w _ _) = Some w"
| "line_who (Producing_Again w _ _) = Some w"
| "line_who (State_Frozen w _ _ _) = Some w"
| "line_who (State_Updating w) = Some w"
| "line_who (Summary _ _ _ _) = None"

definition set_level :: "sensor \<Rightarrow> int \<Rightarrow> motor_view \<Rightarrow> motor_view" where
  "set_level s n v = (case s of Casing \<Rightarrow> v\<lparr>mv_casing := n\<rparr> | Winding \<Rightarrow> v\<lparr>mv_winding := n\<rparr>)"

fun learn :: "health_line \<Rightarrow> motor_view \<Rightarrow> motor_view" where
  "learn (Fault_Raised _ e) v = v\<lparr>mv_err := e\<rparr>"
| "learn (Fault_Cleared _ _) v = v\<lparr>mv_err := 0\<rparr>"
| "learn (Temp_Emergency _ s _ _) v = set_level s 2 v"
| "learn (Temp_Warning _ s _ _) v = set_level s 1 v"
| "learn (Temp_Back _ s _) v = set_level s 0 v"
| "learn (Not_Responding _ _ _) v = v\<lparr>mv_unresp := True\<rparr>"
| "learn (Producing_Again _ _ _) v = v\<lparr>mv_unresp := False\<rparr>"
| "learn (State_Frozen _ _ _ _) v = v\<lparr>mv_frozen := True\<rparr>"
| "learn (State_Updating _) v = v\<lparr>mv_frozen := False\<rparr>"
| "learn (Summary _ _ _ _) v = v"

definition read_log :: "health_who \<Rightarrow> health_line list \<Rightarrow> motor_view \<Rightarrow> motor_view" where
  "read_log w ls v = fold (\<lambda>l v. if line_who l = Some w then learn l v else v) ls v"

lemma read_log_simps [simp]:
  "read_log w [] v = v"
  "read_log w (l # ls) v = read_log w ls (if line_who l = Some w then learn l v else v)"
  "read_log w (ls @ ms) v = read_log w ms (read_log w ls v)"
  by (simp_all add: read_log_def)

lemma read_log_other: "list_all (\<lambda>l. line_who l \<noteq> Some w) ls \<Longrightarrow> read_log w ls v = v"
  by (induction ls arbitrary: v) simp_all

text \<open>Blocks of lines about pairwise different subjects.\<close>

lemma read_log_blocks:
  assumes "\<And>k. list_all (\<lambda>l. line_who l = Some (g k)) (f k)" "inj g"
  shows "read_log (g k) (concat (map f [0..<n])) v = (if k < n then read_log (g k) (f k) v else v)"
proof (induction n)
  case (Suc n)
  have "read_log (g k) (f n) u = u" if "k \<noteq> n" for u
    using assms(1)[of n] inj_eq[OF assms(2)] that
    by (intro read_log_other) (auto simp: list_all_iff)
  with Suc show ?case by (cases "k = n") auto
qed simp

lemma read_log_blocks_other:
  assumes "\<And>k. list_all (\<lambda>l. line_who l = Some (g k)) (f k)" "\<And>k. g k \<noteq> w"
  shows "read_log w (concat (map f ks)) v = v"
  by (rule read_log_other) (use assms in \<open>fastforce simp: list_all_iff\<close>)

text \<open>Each rule reports exactly the change it makes.\<close>

lemma temp_lines: "list_all (\<lambda>l. line_who l = Some w) (snd (temp_transition lvl t wn cr s w))"
  by (simp add: temp_transition_def Let_def)

lemma next_level_values: "next_level lvl t wn cr \<in> {lvl, 0, 1, 2}"
  by (simp add: next_level_def)

lemma temp_view:
  assumes "lvl = (case s of Casing \<Rightarrow> mv_casing v | Winding \<Rightarrow> mv_winding v)"
  shows "read_log w (snd (temp_transition lvl t wn cr s w)) v
    = set_level s (fst (temp_transition lvl t wn cr s w)) v"
  using assms next_level_values[of lvl t wn cr]
  by (cases s) (auto simp: temp_transition_def set_level_def Let_def)

lemma fault_lines: "list_all (\<lambda>l. line_who l = Some w) (fault_step w e e')"
  by (simp add: fault_step_def)

lemma fault_view: "mv_err v = e' \<Longrightarrow> read_log w (fault_step w e e') v = v\<lparr>mv_err := e\<rparr>"
  by (simp add: fault_step_def)

definition body_view :: "body_track \<Rightarrow> motor_view" where
  "body_view t = \<lparr>mv_err = bt_error_last t, mv_casing = bt_casing_level t,
     mv_winding = bt_winding_level t, mv_unresp = bt_unresp t, mv_frozen = bt_frozen t\<rparr>"

lemma unresp_lines: "list_all (\<lambda>l. line_who l = Some (Body_Motor i)) (snd (unresp_step p i m cmd dt t))"
  by (simp add: unresp_step_def Let_def split: option.split)

lemma unresp_view:
  "read_log (Body_Motor i) (snd (unresp_step p i m cmd dt t)) (body_view t)
     = body_view (fst (unresp_step p i m cmd dt t))"
  by (simp add: unresp_step_def body_view_def Let_def split: option.split)

lemma frozen_lines: "list_all (\<lambda>l. line_who l = Some (Body_Motor i)) (snd (frozen_step p i m cmd dt t))"
  by (simp add: frozen_step_def Let_def)

lemma frozen_timer_keeps [simp]:
  "bt_error_last (frozen_timer i m cmd dt t) = bt_error_last t"
  "bt_casing_level (frozen_timer i m cmd dt t) = bt_casing_level t"
  "bt_winding_level (frozen_timer i m cmd dt t) = bt_winding_level t"
  "bt_unresp (frozen_timer i m cmd dt t) = bt_unresp t"
  "bt_frozen (frozen_timer i m cmd dt t) = bt_frozen t"
  by (simp_all add: frozen_timer_def split: option.split)

lemma frozen_view:
  "read_log (Body_Motor i) (snd (frozen_step p i m cmd dt t)) (body_view t)
     = body_view (fst (frozen_step p i m cmd dt t))"
  by (simp add: frozen_step_def body_view_def Let_def)

lemma body_motor_lines:
  "list_all (\<lambda>l. line_who l = Some (Body_Motor i)) (snd (step_body_motor p i m cmd dt t))"
  by (simp add: step_body_motor_def Let_def case_prod_unfold fault_lines temp_lines unresp_lines frozen_lines)

lemma body_motor_view:
  "read_log (Body_Motor i) (snd (step_body_motor p i m cmd dt t)) (body_view t)
     = body_view (fst (step_body_motor p i m cmd dt t))"
proof -
  let ?c = "fst (temp_transition (bt_casing_level t) (ms_temp_casing m)
      (hp_casing_warn_c p) (hp_casing_critical_c p) Casing (Body_Motor i))"
  let ?w = "fst (temp_transition (bt_winding_level t) (ms_temp_winding m)
      (hp_winding_warn_c p) (hp_winding_critical_c p) Winding (Body_Motor i))"
  let ?t = "t\<lparr>bt_error_last := ms_error m, bt_casing_level := ?c, bt_winding_level := ?w\<rparr>"
  let ?l0 = "fault_step (Body_Motor i) (ms_error m) (bt_error_last t)"
  let ?l1 = "snd (temp_transition (bt_casing_level t) (ms_temp_casing m)
      (hp_casing_warn_c p) (hp_casing_critical_c p) Casing (Body_Motor i))"
  let ?l2 = "snd (temp_transition (bt_winding_level t) (ms_temp_winding m)
      (hp_winding_warn_c p) (hp_winding_critical_c p) Winding (Body_Motor i))"
  let ?u = "unresp_step p i m cmd dt ?t"
  have first: "read_log (Body_Motor i) (?l0 @ ?l1 @ ?l2) (body_view t) = body_view ?t"
    by (simp add: fault_view temp_view body_view_def set_level_def)
  have lines: "snd (step_body_motor p i m cmd dt t)
      = (?l0 @ ?l1 @ ?l2) @ snd ?u @ snd (frozen_step p i m cmd dt (fst ?u))"
    by (simp add: step_body_motor_def Let_def case_prod_unfold)
  have view: "body_view (fst (step_body_motor p i m cmd dt t))
      = body_view (fst (frozen_step p i m cmd dt (fst ?u)))"
    by (simp add: step_body_motor_def Let_def case_prod_unfold body_view_def)
  show ?thesis
    unfolding lines view read_log_simps(3)[of _ "?l0 @ ?l1 @ ?l2"] first
    unfolding read_log_simps(3) unresp_view frozen_view ..
qed

text \<open>One hand.\<close>

definition hand_view :: "hand_track \<Rightarrow> motor_view" where
  "hand_view t = view_blank\<lparr>mv_err := ht_error_last t\<rparr>"

definition finger_view :: "hand_track \<Rightarrow> nat \<Rightarrow> motor_view" where
  "finger_view t i = view_blank\<lparr>mv_casing := ht_casing_level t ! i, mv_winding := ht_winding_level t ! i\<rparr>"

definition finger_lines :: "health_params \<Rightarrow> nat \<Rightarrow> hand_state \<Rightarrow> hand_track \<Rightarrow> nat \<Rightarrow> health_line list" where
  "finger_lines p side h t i = snd (fst (hand_temps p side h t i)) @ snd (snd (hand_temps p side h t i))"

lemma finger_lines_who: "list_all (\<lambda>l. line_who l = Some (Hand_Motor side i)) (finger_lines p side h t i)"
  by (simp add: finger_lines_def hand_temps_def temp_lines)

lemma step_hand_lines:
  "snd (step_hand p side h t) = fault_step (Hand side) (hs_error h) (ht_error_last t)
     @ concat (map (finger_lines p side h t) [0..<7])"
  by (simp add: step_hand_def Let_def hand_consts comp_def finger_lines_def[abs_def])

lemma inj_finger: "inj (Hand_Motor side)"
  by (rule injI) simp

lemma step_hand_view:
  "read_log (Hand side) (snd (step_hand p side h t)) (hand_view t) = hand_view (fst (step_hand p side h t))"
proof -
  have "read_log (Hand side) (concat (map (finger_lines p side h t) [0..<7])) v = v" for v
    by (rule read_log_blocks_other[where g = "Hand_Motor side"]) (simp_all add: finger_lines_who)
  then show ?thesis
    by (simp add: step_hand_lines fault_view hand_view_def del: upt_Suc)
       (simp add: step_hand_def Let_def)
qed

lemma step_finger_view:
  assumes "i < 7"
  shows "read_log (Hand_Motor side i) (snd (step_hand p side h t)) (finger_view t i)
    = finger_view (fst (step_hand p side h t)) i"
proof -
  have fault: "read_log (Hand_Motor side i) (fault_step (Hand side) e e') v = v" for e e' v
    by (rule read_log_other) (use fault_lines[of "Hand side"] in \<open>fastforce simp: list_all_iff\<close>)
  have "read_log (Hand_Motor side i) (concat (map (finger_lines p side h t) [0..<7])) v
      = read_log (Hand_Motor side i) (finger_lines p side h t i) v" for v
    using read_log_blocks[where g = "Hand_Motor side" and f = "finger_lines p side h t" and k = i and n = 7,
        OF finger_lines_who inj_finger] assms by simp
  then show ?thesis
    using assms
    by (simp add: step_hand_lines fault del: upt_Suc)
       (simp add: finger_lines_def hand_temps_def temp_view finger_view_def view_blank_def
        set_level_def step_hand_def Let_def hand_consts)
qed

text \<open>Everything the rules know about a subject, and one step of it.\<close>

definition rules_view :: "health_rules \<Rightarrow> health_who \<Rightarrow> motor_view" where
  "rules_view r w =
     (case w of
        Body_Motor i \<Rightarrow> if i < 29 then body_view (hr_body r ! i) else view_blank
      | Hand s \<Rightarrow> if s < 2 then hand_view (hr_hand r ! s) else view_blank
      | Hand_Motor s i \<Rightarrow> if s < 2 \<and> i < 7 then finger_view (hr_hand r ! s) i else view_blank)"

lemma inj_body: "inj Body_Motor"
  by (rule injI) simp

lemma body_step_view:
  "read_log w (snd (body_step body cmd dt r)) (rules_view r w) = rules_view (fst (body_step body cmd dt r)) w"
proof (cases body)
  case (Some b)
  let ?f = "\<lambda>i. step_body_motor (hr_p r) i (us_motors b ! i) cmd dt (hr_body r ! i)"
  have lines: "snd (body_step body cmd dt r) = concat (map (\<lambda>i. snd (?f i)) [0..<29])"
    by (simp add: Some body_step_def Let_def kNumMotors_def comp_def)
  have hands: "hr_hand (fst (body_step body cmd dt r)) = hr_hand r"
    by (simp add: Some body_step_def Let_def)
  have bodies: "hr_body (fst (body_step body cmd dt r)) ! i = fst (?f i)" if "i < 29" for i
    using that by (simp add: Some body_step_def Let_def kNumMotors_def)
  have blocks: "\<And>k. list_all (\<lambda>l. line_who l = Some (Body_Motor k)) (snd (?f k))"
    by (rule body_motor_lines)
  show ?thesis
  proof (cases w)
    case (Body_Motor i)
    show ?thesis
      unfolding lines Body_Motor read_log_blocks[where g = Body_Motor and f = "\<lambda>i. snd (?f i)",
          OF blocks inj_body]
      by (simp add: rules_view_def bodies body_motor_view)
  next
    case (Hand s)
    then have "read_log w (snd (body_step body cmd dt r)) v = v" for v
      unfolding lines by (intro read_log_blocks_other[where g = Body_Motor, OF blocks]) simp
    with Hand show ?thesis by (simp add: rules_view_def hands)
  next
    case (Hand_Motor s i)
    then have "read_log w (snd (body_step body cmd dt r)) v = v" for v
      unfolding lines by (intro read_log_blocks_other[where g = Body_Motor, OF blocks]) simp
    with Hand_Motor show ?thesis by (simp add: rules_view_def hands)
  qed
qed (simp add: body_step_def)

lemma hand_step_view:
  assumes "length (hr_hand r) = 2" "side < 2"
  shows "read_log w (snd (hand_step side h r)) (rules_view r w) = rules_view (fst (hand_step side h r)) w"
proof (cases h)
  case (Some st)
  let ?res = "step_hand (hr_p r) side st (hr_hand r ! side)"
  have step: "hand_step side h r = (r\<lparr>hr_hand := (hr_hand r)[side := fst ?res]\<rparr>, snd ?res)"
    by (simp add: Some hand_step_def case_prod_unfold Let_def)
  have about: "list_all (\<lambda>l. line_who l = Some (Hand side) \<or> (\<exists>i<7. line_who l = Some (Hand_Motor side i))) (snd ?res)"
    using fault_lines[of "Hand side"] finger_lines_who[of side]
    by (fastforce simp: step_hand_lines list_all_iff)
  have other: "read_log w (snd ?res) v = v"
    if "w \<noteq> Hand side" "\<And>i. i < 7 \<Longrightarrow> w \<noteq> Hand_Motor side i" for v
    by (rule read_log_other) (use about that in \<open>fastforce simp: list_all_iff\<close>)
  show ?thesis
  proof (cases w)
    case (Body_Motor i)
    with other show ?thesis by (simp add: step rules_view_def)
  next
    case (Hand s)
    with other assms show ?thesis
      by (cases "s = side") (simp_all add: step rules_view_def step_hand_view)
  next
    case (Hand_Motor s i)
    with other assms show ?thesis
      by (cases "s = side \<and> i < 7") (auto simp: step rules_view_def step_finger_view)
  qed
qed (simp add: hand_step_def)

lemma hand_step_length [simp]: "length (hr_hand (fst (hand_step side h r))) = length (hr_hand r)"
  by (simp add: hand_step_def case_prod_unfold Let_def split: option.split)

lemma body_step_hands [simp]: "hr_hand (fst (body_step body cmd dt r)) = hr_hand r"
  by (simp add: body_step_def Let_def split: option.split)

lemma rules_view_summary [simp]: "rules_view (r\<lparr>hr_summary_s := s\<rparr>) w = rules_view r w"
  by (simp add: rules_view_def split: health_who.split)

lemma health_step_view:
  assumes "length (hr_hand r) = 2"
  shows "read_log w (snd (health_step body cmd lh rh dt r)) (rules_view r w)
      = rules_view (fst (health_step body cmd lh rh dt r)) w
    \<and> length (hr_hand (fst (health_step body cmd lh rh dt r))) = 2"
proof -
  let ?b = "body_step body cmd dt r"
  let ?l = "hand_step 0 lh (fst ?b)"
  let ?r = "hand_step 1 rh (fst ?l)"
  have chain: "read_log w (snd ?b @ snd ?l @ snd ?r) (rules_view r w) = rules_view (fst ?r) w"
    using assms by (simp add: body_step_view hand_step_view)
  have summary: "read_log w [health_summary q body lh rh] v = v" for q v
    by (simp add: health_summary_def)
  show ?thesis
    using chain summary assms
    by (simp add: health_step_def Let_def case_prod_unfold)
qed


section \<open>The alarms as functions of the history\<close>

subsection \<open>Temperature\<close>

lemma temp_transition_level [simp]: "fst (temp_transition lvl t wn cr s w) = next_level lvl t wn cr"
  by (simp add: temp_transition_def Let_def)

interpretation warm: latch "\<lambda>t lvl. next_level lvl t wn cr" 0 "\<lambda>lvl. wn \<le> cr \<and> lvl \<noteq> 0"
    "\<lambda>ts. wn \<le> last ts" "\<lambda>t. wn \<le> cr \<and> wn - 5 \<le> t"
    for wn cr :: int
  by unfold_locales (auto simp: next_level_def)

interpretation emergency: latch "\<lambda>t lvl. next_level lvl t wn cr" 0 "\<lambda>lvl. wn \<le> cr \<and> lvl = 2"
    "\<lambda>ts. cr \<le> last ts"
    "\<lambda>t. wn \<le> cr \<and> (cr - 5 \<le> t \<and> wn \<le> t \<or> wn - 5 \<le> t \<and> t < wn)"
    for wn cr :: int
  by unfold_locales (auto simp: next_level_def)

text \<open>
  C29: Both temperature alarms are latches of the temperature's history. A motor is reported hot
  exactly when at some sample it reached the warning limit and has not since dropped more than
  five degrees below it. It is reported critical exactly when it reached the critical limit and
  every sample since lies within five degrees of that limit or inside the warning's own
  hysteresis band; so a sample between the two bands steps the alarm down to a warning while a
  cooler one inside the lower band does not.
\<close>
theorem temperature_alarm_history:
  fixes ts :: "int list"
  assumes "wn \<le> cr"
    and "lvl = fold (\<lambda>t lvl. fst (temp_transition lvl t wn cr s who)) ts 0"
  shows "(lvl \<noteq> 0 \<longleftrightarrow> held_since (\<lambda>ts. wn \<le> last ts) (\<lambda>t. wn - 5 \<le> t) ts)
    \<and> (lvl = 2 \<longleftrightarrow> held_since (\<lambda>ts. cr \<le> last ts)
          (\<lambda>t. cr - 5 \<le> t \<and> wn \<le> t \<or> wn - 5 \<le> t \<and> t < wn) ts)
    \<and> lvl \<in> {0, 1, 2}"
proof -
  have "fold (\<lambda>t lvl. next_level lvl t wn cr) ts l \<in> {0, 1, 2}" if "l \<in> {0, 1, 2}" for l
    using that
  proof (induction ts arbitrary: l)
    case (Cons t ts)
    have "next_level l t wn cr \<in> {0, 1, 2}" using next_level_values[of l t wn cr] Cons.prems by auto
    from Cons.IH[OF this] show ?case by simp
  qed simp
  then have "fold (\<lambda>t lvl. next_level lvl t wn cr) ts 0 \<in> {0, 1, 2}" by blast
  then show ?thesis
    using warm.on_iff[of wn cr ts] emergency.on_iff[of wn cr ts] assms by simp
qed

text \<open>The witness: from 118 degrees, cooling to 111 lowers the winding alarm, cooling to 108 does not.\<close>

lemma temperature_alarm_history_witness:
  "fold (\<lambda>t lvl. fst (temp_transition lvl t 110 117 Winding (Body_Motor 3))) [118, 111] 0 = 1
   \<and> fold (\<lambda>t lvl. fst (temp_transition lvl t 110 117 Winding (Body_Motor 3))) [118, 108] 0 = 2"
proof -
  have "held_since (\<lambda>ts. 110 \<le> last ts) (\<lambda>t. 110 - 5 \<le> t) [118, 111 :: int]"
    "\<not> held_since (\<lambda>ts. 117 \<le> last ts) (\<lambda>t. 117 - 5 \<le> t \<and> 110 \<le> t \<or> 110 - 5 \<le> t \<and> t < 110) [118, 111 :: int]"
    "held_since (\<lambda>ts. 117 \<le> last ts) (\<lambda>t. 117 - 5 \<le> t \<and> 110 \<le> t \<or> 110 - 5 \<le> t \<and> t < 110) [118, 108 :: int]"
    using held_since_snoc[where xs = "[118 :: int]" and y = 111] held_since_snoc[where xs = "[118 :: int]" and y = 108]
      held_since_snoc[where xs = "[] :: int list" and y = 118]
    by simp_all
  moreover have le: "(110 :: int) \<le> 117" by simp
  ultimately show ?thesis
    using temperature_alarm_history[OF le refl, of Winding "Body_Motor 3" "[118, 111]"]
      temperature_alarm_history[OF le refl, of Winding "Body_Motor 3" "[118, 108]"]
    by auto
qed

subsection \<open>Not responding\<close>

type_synonym motor_sample = "motor_state \<times> motor_command option \<times> real"

definition torque_gone :: "health_params \<Rightarrow> nat \<Rightarrow> motor_sample \<Rightarrow> bool" where
  "torque_gone p i x \<longleftrightarrow> (case x of (m, cmd, dt) \<Rightarrow>
     (case cmd of None \<Rightarrow> False | Some c \<Rightarrow> torque_missing p (expected_tau i m c) (ms_tau m)))"

definition torque_seen :: "health_params \<Rightarrow> nat \<Rightarrow> motor_sample \<Rightarrow> bool" where
  "torque_seen p i x \<longleftrightarrow> (case x of (m, cmd, dt) \<Rightarrow>
     (case cmd of None \<Rightarrow> False | Some c \<Rightarrow> torque_confirmed p (expected_tau i m c) (ms_tau m)))"

text \<open>Duration of the uninterrupted run of samples without torque the history ends with.\<close>

definition gone_for :: "health_params \<Rightarrow> nat \<Rightarrow> motor_sample list \<Rightarrow> real" where
  "gone_for p i xs = sum_list (map (snd \<circ> snd) (takeWhile (torque_gone p i) (rev xs)))"

lemma gone_for_Nil [simp]: "gone_for p i [] = 0"
  by (simp add: gone_for_def)

lemma gone_for_snoc [simp]:
  "gone_for p i (xs @ [x]) = (if torque_gone p i x then snd (snd x) + gone_for p i xs else 0)"
  by (simp add: gone_for_def)

definition motor_step :: "health_params \<Rightarrow> nat \<Rightarrow> motor_sample \<Rightarrow> body_track \<Rightarrow> body_track" where
  "motor_step p i x t = (case x of (m, cmd, dt) \<Rightarrow> fst (step_body_motor p i m cmd dt t))"

lemma frozen_step_unresp [simp]:
  "bt_unresp (fst (frozen_step p i m cmd dt t)) = bt_unresp t"
  "bt_unresp_s (fst (frozen_step p i m cmd dt t)) = bt_unresp_s t"
  by (simp_all add: frozen_step_def frozen_timer_def Let_def split: option.split)

lemma motor_step_unresp:
  "bt_unresp_s (motor_step p i x t) = (if torque_gone p i x then snd (snd x) + bt_unresp_s t else 0)"
  "bt_unresp (motor_step p i x t) \<longleftrightarrow>
     (bt_unresp t \<and> \<not> torque_seen p i x
      \<or> \<not> bt_unresp t \<and> fst (snd x) \<noteq> None \<and>
          hp_unresp_time_s p \<le> bt_unresp_s (motor_step p i x t))"
  by (auto simp: motor_step_def step_body_motor_def unresp_step_def torque_gone_def torque_seen_def
      Let_def case_prod_unfold split: option.split)

lemma motor_timer: "bt_unresp_s (fold (motor_step p i) xs body_track_new) = gone_for p i xs"
  by (induction xs rule: rev_induct) (simp_all add: motor_step_unresp body_track_new_def)

lemma gone_not_seen: "torque_gone p i x \<Longrightarrow> \<not> torque_seen p i x"
  by (auto simp: torque_gone_def torque_seen_def torque_missing_def torque_confirmed_def
      split: prod.splits option.splits)

lemma gone_commanded: "torque_gone p i x \<Longrightarrow> fst (snd x) \<noteq> None"
  by (auto simp: torque_gone_def split: prod.splits option.splits)

interpretation unresp: latch "motor_step p i" body_track_new
    "\<lambda>t. 0 < hp_unresp_time_s p \<and> bt_unresp t" "\<lambda>xs. hp_unresp_time_s p \<le> gone_for p i xs"
    "\<lambda>x. 0 < hp_unresp_time_s p \<and> \<not> torque_seen p i x"
    for p :: health_params and i :: nat
proof
  show "\<not> (0 < hp_unresp_time_s p \<and> bt_unresp body_track_new)" by (simp add: body_track_new_def)
  show "(0 < hp_unresp_time_s p \<and> bt_unresp (motor_step p i x (fold (motor_step p i) xs body_track_new))) \<longleftrightarrow>
      (0 < hp_unresp_time_s p \<and> \<not> torque_seen p i x) \<and>
      (0 < hp_unresp_time_s p \<and> bt_unresp (fold (motor_step p i) xs body_track_new)
        \<or> hp_unresp_time_s p \<le> gone_for p i (xs @ [x]))" for x xs
    using gone_not_seen[of p i x] gone_commanded[of p i x]
    by (auto simp: motor_step_unresp motor_timer split: if_splits)
qed

text \<open>
  A motor is flagged as not responding exactly when, at some sample, the torque its command asks
  for had been missing without interruption for the configured time, and since then no sample
  has shown it: neither a command that asks for little, nor a missing command, clears the flag.
\<close>
theorem not_responding_tracks_history:
  assumes "0 < hp_unresp_time_s p"
  shows "bt_unresp (fold (motor_step p i) xs body_track_new) \<longleftrightarrow>
    held_since (\<lambda>xs. hp_unresp_time_s p \<le> gone_for p i xs) (\<lambda>x. \<not> torque_seen p i x) xs"
  using unresp.on_iff[of p i xs] assms by simp

text \<open>The witness: a dead motor is flagged after twenty samples of 50 ms, and not after nineteen.\<close>

definition dead_sample :: motor_sample where
  "dead_sample = (\<lparr>ms_q = 0, ms_dq = 0, ms_tau = 0, ms_temp_casing = 40, ms_temp_winding = 40, ms_error = 0\<rparr>,
     Some (motor_command_zero\<lparr>tau_ff := replicate 29 10\<rparr>), 1/20)"

lemma dead_sample_facts:
  "torque_gone health_params_default 0 dead_sample" "\<not> torque_seen health_params_default 0 dead_sample"
  by (simp_all add: dead_sample_def torque_gone_def torque_seen_def torque_missing_def
      torque_confirmed_def torque_asked_def expected_tau_def health_params_default_def
      motor_command_zero_def)

lemma dead_gone_for: "gone_for health_params_default 0 (replicate n dead_sample) = real n / 20"
proof -
  have "snd (snd dead_sample) = 1/20" by (simp add: dead_sample_def)
  then show ?thesis
    using dead_sample_facts by (simp add: gone_for_def sum_list_replicate)
qed

lemma not_responding_tracks_history_witness:
  "bt_unresp (fold (motor_step health_params_default 0) (replicate 20 dead_sample) body_track_new)
   \<and> \<not> bt_unresp (fold (motor_step health_params_default 0) (replicate 19 dead_sample) body_track_new)"
proof -
  have T: "hp_unresp_time_s health_params_default = 1" by (simp add: health_params_default_def)
  then have pos: "0 < hp_unresp_time_s health_params_default" by simp
  have "(\<exists>k<n. 1 \<le> gone_for health_params_default 0 (replicate (Suc k) dead_sample)) \<longleftrightarrow> 20 \<le> n" for n
    unfolding dead_gone_for by (auto intro: exI[of _ 19])
  then show ?thesis
    by (simp only: not_responding_tracks_history[OF pos] held_since_replicate T) (simp add: dead_sample_facts)
qed

end
