(* ===== verification/Lifecycle.thy ===== *)
theory Lifecycle
  imports Command_Writer Hand_Command Motor_Health
begin

text \<open>
  The system facade of \<open>src/system/gearsonic_inference.cpp\<close>: start-up in stages, rollback and
  shutdown. Whether a module's own start succeeds is outside this component and an input
  (\<open>boot_env\<close>); what is modelled is which modules run, in which order they are started and
  stopped, and what the caller is told.
\<close>

section \<open>Configuration sections\<close>

text \<open>
  A section is the values of the keys it gives; YAML access and conversion are the library's.
\<close>

record hand_section =
  cs_guard_enabled :: "bool option"
  cs_kp :: "real option"
  cs_kd :: "real option"
  cs_tau_max :: "real option"
  cs_stall_err_th :: "real option"
  cs_stall_vel_th :: "real option"
  cs_stall_time_s :: "real option"
  cs_stall_offset :: "real option"
  cs_kp_hold :: "real option"
  cs_temp_max_c :: "int option"
  cs_state_stale_ms :: "real option"

definition get_key :: "'a option \<Rightarrow> 'a \<Rightarrow> 'a" where
  "get_key v dst = (case v of Some x \<Rightarrow> x | None \<Rightarrow> dst)"

definition parse_hand_guard :: "hand_section option \<Rightarrow> guard_params" where
  "parse_hand_guard hand =
     (let p = guard_params_default
      in case hand of
           None \<Rightarrow> p
         | Some s \<Rightarrow> \<lparr>gp_enabled = get_key (cs_guard_enabled s) (gp_enabled p),
             gp_kp = get_key (cs_kp s) (gp_kp p), gp_kd = get_key (cs_kd s) (gp_kd p),
             gp_tau_max = get_key (cs_tau_max s) (gp_tau_max p),
             gp_stall_err_th = get_key (cs_stall_err_th s) (gp_stall_err_th p),
             gp_stall_vel_th = get_key (cs_stall_vel_th s) (gp_stall_vel_th p),
             gp_stall_time_s = get_key (cs_stall_time_s s) (gp_stall_time_s p),
             gp_stall_offset = get_key (cs_stall_offset s) (gp_stall_offset p),
             gp_kp_hold = get_key (cs_kp_hold s) (gp_kp_hold p),
             gp_temp_max_c = get_key (cs_temp_max_c s) (gp_temp_max_c p),
             gp_state_stale_ms = get_key (cs_state_stale_ms s) (gp_state_stale_ms p)\<rparr>)"

record health_section =
  cs_enabled :: "bool option"
  cs_casing_warn_c :: "int option"
  cs_casing_critical_c :: "int option"
  cs_winding_warn_c :: "int option"
  cs_winding_critical_c :: "int option"
  cs_unresp_tau_min :: "real option"
  cs_unresp_tau_ratio :: "real option"
  cs_unresp_time_s :: "real option"
  cs_frozen_time_s :: "real option"
  cs_frozen_cmd_move :: "real option"
  cs_summary_period_s :: "real option"

definition parse_motor_health :: "health_section option \<Rightarrow> health_params" where
  "parse_motor_health n =
     (let p = health_params_default
      in case n of
           None \<Rightarrow> p
         | Some s \<Rightarrow> \<lparr>hp_enabled = get_key (cs_enabled s) (hp_enabled p),
             hp_casing_warn_c = get_key (cs_casing_warn_c s) (hp_casing_warn_c p),
             hp_casing_critical_c = get_key (cs_casing_critical_c s) (hp_casing_critical_c p),
             hp_winding_warn_c = get_key (cs_winding_warn_c s) (hp_winding_warn_c p),
             hp_winding_critical_c = get_key (cs_winding_critical_c s) (hp_winding_critical_c p),
             hp_unresp_tau_min = get_key (cs_unresp_tau_min s) (hp_unresp_tau_min p),
             hp_unresp_tau_ratio = get_key (cs_unresp_tau_ratio s) (hp_unresp_tau_ratio p),
             hp_unresp_time_s = get_key (cs_unresp_time_s s) (hp_unresp_time_s p),
             hp_frozen_time_s = get_key (cs_frozen_time_s s) (hp_frozen_time_s p),
             hp_frozen_cmd_move = get_key (cs_frozen_cmd_move s) (hp_frozen_cmd_move p),
             hp_summary_period_s = get_key (cs_summary_period_s s) (hp_summary_period_s p)\<rparr>)"

section \<open>Modules and flags\<close>

datatype module_id = M_Tee | M_Vr | M_Input | M_Teleop | M_State | M_Hand_State | M_Health | M_Vla | M_Nav
  | M_Record | M_Planner | M_Writer | M_Hand_Writer | M_Token_Pub | M_Trace | M_Control

datatype life_event = Up module_id | Down module_id

text \<open>The flags \<open>vr_started_\<close>, \<open>robot_started_\<close> and so on, by the module they stand for; which modules have one.\<close>

definition stop_first :: "module_id list" where
  "stop_first = [M_Control, M_Trace, M_Token_Pub, M_Hand_Writer, M_Writer, M_Health, M_Hand_State,
     M_Planner, M_Record, M_Nav, M_Vla]"

definition flagged :: "module_id list" where
  "flagged = stop_first @ [M_State, M_Vr]"

record system =
  started :: "module_id \<Rightarrow> bool"
  quit_flag :: bool
  life_log :: "life_event list"

definition system_new :: system where
  "system_new = \<lparr>started = (\<lambda>_. False), quit_flag = False, life_log = []\<rparr>"

definition request_quit :: "system \<Rightarrow> system" where
  "request_quit s = s\<lparr>quit_flag := True\<rparr>"

text \<open>The handler of both signals.\<close>

definition on_signal :: "int \<Rightarrow> system \<Rightarrow> system" where
  "on_signal sig s = request_quit s"

definition quit_requested :: "system \<Rightarrow> bool" where
  "quit_requested s = quit_flag s"

definition up :: "module_id \<Rightarrow> system \<Rightarrow> system" where
  "up m s = s\<lparr>life_log := life_log s @ [Up m]\<rparr>"

definition down :: "module_id \<Rightarrow> system \<Rightarrow> system" where
  "down m s = s\<lparr>life_log := life_log s @ [Down m]\<rparr>"

text \<open>A stage came up: its module runs and its flag is set. And back, where the flag is set.\<close>

definition came_up :: "module_id \<Rightarrow> system \<Rightarrow> system" where
  "came_up m s = (up m s)\<lparr>started := (started s)(m := True)\<rparr>"

definition stop_if :: "module_id \<Rightarrow> system \<Rightarrow> system" where
  "stop_if m s = (if started s m then (down m s)\<lparr>started := (started s)(m := False)\<rparr> else s)"

definition system_stop :: "system \<Rightarrow> system" where
  "system_stop s =
     (let s1 = fold stop_if stop_first s;
          s2 = (if started s1 M_Vr then down M_Input (down M_Teleop s1) else s1)
      in down M_Tee (stop_if M_Vr (stop_if M_State s2)))"

section \<open>Start-up\<close>

text \<open>
  What the environment answers. The keys the start reads without a default are read through an
  optional value: converting a missing one throws out of \<open>start\<close>. The polls are what the wait
  for the robot state sees: data, and whether quitting was requested by then.
\<close>

record boot_env =
  en_config :: bool
  en_vr :: bool
  en_unitree_keys :: bool
  en_state :: bool
  en_hand_state :: bool
  en_vla :: bool
  en_nav :: bool
  en_record_enabled :: bool
  en_record :: bool
  en_polls :: "(bool \<times> bool) list"
  en_model_key :: bool
  en_planner :: bool
  en_writer :: bool
  en_hand_writer :: bool
  en_token_pub :: bool
  en_trace_enabled :: bool
  en_trace :: bool
  en_control_keys :: bool
  en_control :: bool

text \<open>Success, reported failure, an exception to the caller, or still waiting for the robot.\<close>

datatype boot_result = Booted | Refused | Threw | Waiting

datatype wait_result = Got_State | Quit_Asked | Still_Waiting

fun wait_state :: "(bool \<times> bool) list \<Rightarrow> wait_result" where
  "wait_state [] = Still_Waiting"
| "wait_state ((has_state, quit) # ps) =
     (if has_state then Got_State else if quit then Quit_Asked else wait_state ps)"

definition rolled_back :: "system \<Rightarrow> boot_result \<times> system" where
  "rolled_back s = (Refused, system_stop s)"

text \<open>Actuation and observers, from the command writer on.\<close>

definition boot_control :: "boot_env \<Rightarrow> system \<Rightarrow> boot_result \<times> system" where
  "boot_control e s =
     (let s1 = (if en_trace_enabled e \<and> en_trace e then came_up M_Trace s else s)
      in if \<not> en_control_keys e then (Threw, s1)
         else if \<not> en_control e then rolled_back s1
         else (Booted, came_up M_Control s1))"

definition boot_actuation :: "boot_env \<Rightarrow> system \<Rightarrow> boot_result \<times> system" where
  "boot_actuation e s =
     (if \<not> en_writer e then rolled_back s
      else let s1 = came_up M_Writer s
      in if \<not> en_hand_writer e then rolled_back s1
      else let s2 = came_up M_Hand_Writer s1
      in if \<not> en_token_pub e then rolled_back s2
      else boot_control e (came_up M_Token_Pub s2))"

text \<open>The planner, once the robot's state is flowing.\<close>

definition boot_planner :: "boot_env \<Rightarrow> system \<Rightarrow> boot_result \<times> system" where
  "boot_planner e s =
     (case wait_state (en_polls e) of
        Still_Waiting \<Rightarrow> (Waiting, s)
      | Quit_Asked \<Rightarrow> rolled_back s
      | Got_State \<Rightarrow>
          if \<not> en_model_key e then (Threw, s)
          else if \<not> en_planner e then rolled_back s
          else boot_actuation e (came_up M_Planner s))"

text \<open>The receivers and observers on the robot link.\<close>

definition boot_intake :: "boot_env \<Rightarrow> system \<Rightarrow> boot_result \<times> system" where
  "boot_intake e s =
     (if \<not> en_hand_state e then rolled_back s
      else let s1 = came_up M_Hand_State s;
               s2 = came_up M_Health s1
      in if \<not> en_vla e then rolled_back s2
      else let s3 = came_up M_Vla s2
      in if \<not> en_nav e then rolled_back s3
      else let s4 = came_up M_Nav s3;
               s5 = (if en_record_enabled e \<and> en_record e
                     then came_up M_Record s4 else s4)
      in boot_planner e s5)"

definition system_start :: "boot_env \<Rightarrow> system \<Rightarrow> boot_result \<times> system" where
  "system_start e s =
     (let s0 = up M_Tee s
      in if \<not> en_config e then (Refused, s0)
      else if \<not> en_vr e then (Refused, s0)
      else let s1 = up M_Teleop (up M_Input (came_up M_Vr s0))
      in if \<not> en_unitree_keys e then (Threw, s1)
      else if \<not> en_state e then rolled_back s1
      else boot_intake e (came_up M_State s1))"

text \<open>The binary: start, wait for the request to quit, stop; the exit code, and the final state.\<close>

definition system_main :: "boot_env \<Rightarrow> (int \<times> system) option" where
  "system_main e =
     (case system_start e system_new of
        (Booted, s) \<Rightarrow> Some (0, system_stop (request_quit s))
      | (Refused, s) \<Rightarrow> Some (1, s)
      | _ \<Rightarrow> None)"

section \<open>What is running\<close>

fun running_after :: "life_event list \<Rightarrow> module_id set \<Rightarrow> module_id set" where
  "running_after [] R = R"
| "running_after (Up m # es) R = running_after es (insert m R)"
| "running_after (Down m # es) R = running_after es (R - {m})"

definition running :: "system \<Rightarrow> module_id set" where
  "running s = running_after (life_log s) {}"

lemma running_after_append: "running_after (es @ fs) R = running_after fs (running_after es R)"
  by (induction es R rule: running_after.induct) simp_all

lemma running_up [simp]: "running (up m s) = insert m (running s)"
  by (simp add: running_def up_def running_after_append)

lemma running_down [simp]: "running (down m s) = running s - {m}"
  by (simp add: running_def down_def running_after_append)

lemmas boot_defs = system_start_def boot_intake_def boot_planner_def boot_actuation_def boot_control_def
  rolled_back_def

lemma running_started [simp]: "running (s\<lparr>started := f\<rparr>) = running s"
  by (simp add: running_def)

section \<open>Stopping\<close>

text \<open>What the flags claim to run, and that they are right.\<close>

definition claimed :: "system \<Rightarrow> module_id set" where
  "claimed s = {m \<in> set flagged. started s m} \<union> (if started s M_Vr then {M_Input, M_Teleop} else {})"

definition consistent :: "system \<Rightarrow> bool" where
  "consistent s \<longleftrightarrow> running s = insert M_Tee (claimed s)"

lemma stop_if_started [simp]: "started (stop_if m s) = (started s)(m := False)"
  by (auto simp: stop_if_def fun_eq_iff)

lemma stop_if_log: "life_log (stop_if m s) = life_log s @ (if started s m then [Down m] else [])"
  by (simp add: stop_if_def down_def)

lemma fold_stop_if:
  "distinct ms \<Longrightarrow> started (fold stop_if ms s) = (\<lambda>m. m \<notin> set ms \<and> started s m)
     \<and> life_log (fold stop_if ms s) = life_log s @ map Down (filter (started s) ms)"
proof (induction ms arbitrary: s)
  case (Cons m ms)
  have "m \<notin> set ms" using Cons.prems by simp
  then have kept: "filter (started (stop_if m s)) ms = filter (started s) ms"
    by (intro filter_cong) auto
  have "distinct ms" using Cons.prems by simp
  note IH = Cons.IH[OF this, of "stop_if m s", THEN conjunct1]
    Cons.IH[OF this, of "stop_if m s", THEN conjunct2]
  have "started (fold stop_if (m # ms) s) = (\<lambda>k. k \<notin> set (m # ms) \<and> started s k)"
    using IH(1) by (auto simp: fun_eq_iff)
  moreover have "life_log (fold stop_if (m # ms) s)
      = life_log s @ map Down (filter (started s) (m # ms))"
    using IH(2) unfolding kept by (simp add: stop_if_log)
  ultimately show ?case by blast
qed simp

text \<open>The shutdown sequence, by the flags alone.\<close>

definition stop_sequence :: "system \<Rightarrow> module_id list" where
  "stop_sequence s =
     filter (started s) stop_first
     @ (if started s M_Vr then [M_Teleop, M_Input] else [])
     @ filter (started s) [M_State, M_Vr] @ [M_Tee]"

lemma stop_first_facts: "distinct stop_first" "M_State \<notin> set stop_first" "M_Vr \<notin> set stop_first"
  by (simp_all add: stop_first_def)

lemmas fold_stop_first = fold_stop_if[OF stop_first_facts(1)]

lemma system_stop_log: "life_log (system_stop s) = life_log s @ map Down (stop_sequence s)"
  by (simp add: system_stop_def stop_sequence_def Let_def fold_stop_first stop_if_log down_def
      stop_first_facts)

lemma system_stop_started: "started (system_stop s) m \<longleftrightarrow> started s m \<and> m \<notin> set flagged"
  by (auto simp: system_stop_def Let_def fold_stop_first down_def flagged_def stop_first_facts)

lemma running_downs: "running_after (map Down ms) R = R - set ms"
  by (induction ms arbitrary: R) auto

lemma stop_sequence_set: "set (stop_sequence s) = insert M_Tee (claimed s)"
  by (auto simp: stop_sequence_def claimed_def flagged_def)

lemma stop_all: "consistent s \<Longrightarrow> running (system_stop s) = {}"
  unfolding consistent_def running_def system_stop_log running_after_append running_downs
    stop_sequence_set by simp

section \<open>Starting\<close>

lemma up_started [simp]: "started (up m s) = started s"
  by (simp add: up_def)

lemma came_up_running [simp]: "running (came_up m s) = insert m (running s)"
  by (simp add: came_up_def)

lemma came_up_started [simp]: "started (came_up m s) = (started s)(m := True)"
  by (simp add: came_up_def)

lemma came_up_consistent:
  "consistent s \<Longrightarrow> m \<in> set flagged - {M_Vr} \<Longrightarrow> consistent (came_up m s)"
  by (auto simp: consistent_def claimed_def)

lemma vr_consistent: "consistent (up M_Tee s) \<Longrightarrow>
    consistent (up M_Teleop (up M_Input (came_up M_Vr (up M_Tee s))))"
  by (auto simp: consistent_def claimed_def flagged_def stop_first_def)

text \<open>What a boot leaves behind: refused boots nothing, all others what the flags say.\<close>

definition boot_ok :: "boot_result \<times> system \<Rightarrow> bool" where
  "boot_ok r \<longleftrightarrow> (if fst r = Refused then running (snd r) = {} \<and> (\<forall>m \<in> set flagged. \<not> started (snd r) m)
                 else consistent (snd r))"

lemma rolled_back_ok: "consistent s \<Longrightarrow> boot_ok (rolled_back s)"
  by (simp add: boot_ok_def rolled_back_def stop_all system_stop_started)

lemma boot_left: "r \<noteq> Refused \<Longrightarrow> consistent s \<Longrightarrow> boot_ok (r, s)"
  by (simp add: boot_ok_def)

lemmas boot_rules = rolled_back_ok came_up_consistent boot_left flagged_def stop_first_def

lemma boot_control_ok: "consistent s \<Longrightarrow> boot_ok (boot_control e s)"
  by (simp add: boot_control_def Let_def boot_rules)

lemma boot_actuation_ok: "consistent s \<Longrightarrow> boot_ok (boot_actuation e s)"
  by (simp add: boot_actuation_def Let_def boot_rules boot_control_ok)

lemma boot_planner_ok: "consistent s \<Longrightarrow> boot_ok (boot_planner e s)"
  by (simp add: boot_planner_def boot_rules boot_actuation_ok split: wait_result.split)

lemma boot_intake_ok: "consistent s \<Longrightarrow> boot_ok (boot_intake e s)"
  by (simp add: boot_intake_def Let_def boot_rules boot_planner_ok)

lemma running_new [simp]: "running system_new = {}"
  by (simp add: running_def system_new_def)

lemma boot_start_ok:
  assumes "en_config e" "en_vr e"
  shows "boot_ok (system_start e system_new)"
proof -
  have "consistent (up M_Tee system_new)"
    by (simp add: consistent_def claimed_def system_new_def[THEN arg_cong, of started])
  from vr_consistent[OF this]
  have "consistent (up M_Teleop (up M_Input (came_up M_Vr (up M_Tee system_new))))" .
  with assms show ?thesis
    by (simp add: system_start_def Let_def boot_rules boot_intake_ok)
qed


text \<open>The witness: everything answers well but the hand writer.\<close>

definition good_env :: boot_env where
  "good_env = \<lparr>en_config = True, en_vr = True, en_unitree_keys = True, en_state = True,
     en_hand_state = True, en_vla = True, en_nav = True, en_record_enabled = True, en_record = True,
     en_polls = [(False, False), (True, False)], en_model_key = True, en_planner = True,
     en_writer = True, en_hand_writer = True, en_token_pub = True, en_trace_enabled = True,
     en_trace = True, en_control_keys = True, en_control = True\<rparr>"


section \<open>The order of things\<close>

definition ups :: "system \<Rightarrow> module_id list" where
  "ups s = concat (map (\<lambda>e. case e of Up m \<Rightarrow> [m] | Down _ \<Rightarrow> []) (life_log s))"

lemma ups_simps [simp]:
  "ups system_new = []" "ups (up m s) = ups s @ [m]" "ups (down m s) = ups s"
  "ups (s\<lparr>started := f\<rparr>) = ups s" "ups (came_up m s) = ups s @ [m]"
  by (simp_all add: ups_def system_new_def up_def down_def came_up_def)

lemma ups_stop [simp]: "ups (system_stop s) = ups s"
  by (simp add: ups_def system_stop_log comp_def)

text \<open>The order in which stages come up, of which every start realises a prefix (optional ones left out).\<close>

definition boot_order :: "module_id list" where
  "boot_order = [M_Tee, M_Vr, M_Input, M_Teleop, M_State, M_Hand_State, M_Health, M_Vla, M_Nav,
     M_Record, M_Planner, M_Writer, M_Hand_Writer, M_Token_Pub, M_Trace, M_Control]"

definition optional :: "boot_env \<Rightarrow> module_id \<Rightarrow> bool" where
  "optional e m \<longleftrightarrow> m = M_Record \<and> \<not> (en_record_enabled e \<and> en_record e)
     \<or> m = M_Trace \<and> \<not> (en_trace_enabled e \<and> en_trace e)"

text \<open>
  The robot moves last: whatever happens, the stages come up in one fixed order, a prefix of it,
  with the optional recorder and trace left out when off or failing; so whenever the command
  writer has come up, the operator's stop, the state link and the planner were up before it, and
  the robot's state had been seen.
\<close>
theorem stages_come_up_in_order:
  assumes "system_start e system_new = (r, s)"
  shows "\<exists>n. ups s = take n (filter (\<lambda>m. \<not> optional e m) boot_order)
    \<and> (M_Writer \<in> set (ups s) \<longrightarrow> wait_state (en_polls e) = Got_State \<and> en_planner e
        \<and> {M_Vr, M_Input, M_State, M_Planner} \<subseteq> set (takeWhile (\<lambda>m. m \<noteq> M_Writer) (ups s)))"
proof -
  define full where "full = filter (\<lambda>m. \<not> optional e m) boot_order"
  have "ups s = take (length (ups s)) full"
    using assms unfolding full_def
    by (auto simp: boot_defs Let_def boot_order_def optional_def split: if_splits wait_result.splits)
  moreover have "M_Writer \<in> set (ups s) \<longrightarrow> wait_state (en_polls e) = Got_State \<and> en_planner e
      \<and> {M_Vr, M_Input, M_State, M_Planner} \<subseteq> set (takeWhile (\<lambda>m. m \<noteq> M_Writer) (ups s))"
    using assms by (auto simp: boot_defs Let_def split: if_splits wait_result.splits)
  ultimately show ?thesis unfolding full_def by blast
qed

lemma stages_come_up_in_order_witness:
  "\<exists>n. ups (snd (system_start (good_env\<lparr>en_control := False\<rparr>) system_new))
     = take n (filter (\<lambda>m. \<not> optional (good_env\<lparr>en_control := False\<rparr>) m) boot_order)"
  using stages_come_up_in_order[OF prod.collapse[symmetric], of "good_env\<lparr>en_control := False\<rparr>"] by blast

text \<open>
  C5: Shutting down a running system stops the controller before the command writer and the writer
  before the links it reads from, stops each module once, and stopping again stops nothing but
  the console mirror.
\<close>
theorem shutdown_order:
  assumes "system_start e system_new = (Booted, s)"
  shows "life_log (system_stop s) = life_log s @ map Down (stop_sequence s)
    \<and> filter (\<lambda>m. m \<in> {M_Control, M_Hand_Writer, M_Writer, M_Planner, M_State, M_Vr}) (stop_sequence s)
        = [M_Control, M_Hand_Writer, M_Writer, M_Planner, M_State, M_Vr]
    \<and> distinct (stop_sequence s)
    \<and> life_log (system_stop (system_stop s)) = life_log (system_stop s) @ [Down M_Tee]"
proof -
  have flags: "started s m" if "m \<in> {M_Control, M_Hand_Writer, M_Writer, M_Planner, M_State, M_Vr}" for m
    using assms that by (auto simp: boot_defs Let_def system_new_def split: if_splits wait_result.splits)
  have "stop_sequence (system_stop s) = [M_Tee]"
    by (simp add: stop_sequence_def system_stop_started flagged_def stop_first_def)
  then have again: "life_log (system_stop (system_stop s)) = life_log (system_stop s) @ [Down M_Tee]"
    by (simp add: system_stop_log)
  have "filter (\<lambda>m. m \<in> {M_Control, M_Hand_Writer, M_Writer, M_Planner, M_State, M_Vr}) (stop_sequence s)
      = [M_Control, M_Hand_Writer, M_Writer, M_Planner, M_State, M_Vr]"
    using flags by (simp add: stop_sequence_def stop_first_def)
  moreover have "distinct (stop_sequence s)"
    by (auto simp: stop_sequence_def stop_first_def)
  ultimately show ?thesis using again by (simp add: system_stop_log)
qed

lemma shutdown_order_witness:
  "life_log (system_stop (system_stop (snd (system_start good_env system_new))))
     = life_log (system_stop (snd (system_start good_env system_new))) @ [Down M_Tee]"
proof -
  have "system_start good_env system_new = (Booted, snd (system_start good_env system_new))"
    by (simp add: boot_defs good_env_def Let_def)
  from shutdown_order[OF this] show ?thesis by blast
qed

text \<open>
  An exception is not rolled back: a configuration without the controller's model paths makes
  the start throw after the command writer has come up, and it leaves the writer and every
  earlier module running, although the header promises a rollback on any failure; the binary
  then has no result to return.
\<close>
theorem throwing_start_leaves_modules_running:
  "\<exists>e s. system_start e system_new = (Threw, s) \<and> M_Writer \<in> running s \<and> M_State \<in> running s
     \<and> system_main e = None"
proof -
  let ?e = "good_env\<lparr>en_control_keys := False\<rparr>"
  have "fst (system_start ?e system_new) = Threw
      \<and> {M_Writer, M_State} \<subseteq> running (snd (system_start ?e system_new))"
    by (simp add: boot_defs good_env_def Let_def)
  moreover from this have "system_main ?e = None"
    by (simp add: system_main_def case_prod_unfold)
  ultimately show ?thesis
    by (metis insert_subset prod.collapse)
qed

end
