(* ===== verification/Trace_Ring.thy ===== *)
theory Trace_Ring
  imports Prelude "HOL-Library.Word"
begin

text \<open>
  The ring of \<open>src/control/state_trace.cpp\<close> between the control thread and the trace writer
  thread: one producer that never waits, one consumer that writes contiguous runs to the file.
  Head and tail are 32-bit counters that wrap. The producer and the consumer interleave at the
  granularity of their atomic loads and stores; rows are any type.
\<close>

section \<open>State and steps\<close>

definition kRing :: nat where "kRing = 512"

datatype writer_pc = Sleeping | Writing "32 word" "32 word"  \<comment> \<open>the loaded head, the local tail\<close>

record 'r trace =
  tr_ring :: "'r list"
  tr_head :: "32 word"
  tr_tail :: "32 word"
  tr_dropped :: "32 word"
  tr_tick :: nat
  tr_enabled :: bool
  tr_stop :: bool
  tr_pc :: writer_pc
  tr_file :: "'r list option"

definition trace_new :: "'r trace" where
  "trace_new = \<lparr>tr_ring = [], tr_head = 0, tr_tail = 0, tr_dropped = 0, tr_tick = 0,
     tr_enabled = False, tr_stop = False, tr_pc = Sleeping, tr_file = None\<rparr>"

text \<open>\<open>opened\<close>: the trace file could be opened; \<open>zero\<close>: the row of zeros the ring is filled with.\<close>

definition trace_start :: "bool \<Rightarrow> 'r \<Rightarrow> 'r trace \<Rightarrow> bool \<times> 'r trace" where
  "trace_start opened zero s =
     (if tr_enabled s then (True, s)
      else if \<not> opened then (False, s\<lparr>tr_file := None\<rparr>)
      else (True, s\<lparr>tr_file := Some [], tr_ring := replicate kRing zero, tr_head := 0, tr_tail := 0,
             tr_dropped := 0, tr_tick := 0, tr_stop := False, tr_enabled := True, tr_pc := Sleeping\<rparr>))"

text \<open>The two flag stores of \<open>stop\<close>; it then joins the writer and closes the file.\<close>

definition trace_stop :: "'r trace \<Rightarrow> 'r trace" where
  "trace_stop s = (if \<not> tr_enabled s then s else s\<lparr>tr_enabled := False, tr_stop := True\<rparr>)"

text \<open>
  The producer: the row is a function of the tick number and the drop count it prints. The
  result tells whether a row was kept.
\<close>

definition trace_record :: "(nat \<Rightarrow> 32 word \<Rightarrow> 'r) \<Rightarrow> 'r trace \<Rightarrow> 'r option \<times> 'r trace" where
  "trace_record fill s =
     (if \<not> tr_enabled s then (None, s)
      else if unat (tr_head s - tr_tail s) \<ge> kRing then (None, s\<lparr>tr_dropped := tr_dropped s + 1\<rparr>)
      else let row = fill (tr_tick s) (tr_dropped s)
           in (Some row, s\<lparr>tr_ring := (tr_ring s)[unat (tr_head s) mod kRing := row],
                           tr_tick := tr_tick s + 1, tr_head := tr_head s + 1\<rparr>))"

text \<open>The writer: load both counters, write run after run, store the tail.\<close>

definition writer_load :: "'r trace \<Rightarrow> 'r trace" where
  "writer_load s = s\<lparr>tr_pc := Writing (tr_head s) (tr_tail s)\<rparr>"

definition writer_run :: "32 word \<Rightarrow> 32 word \<Rightarrow> 'r trace \<Rightarrow> 'r trace" where
  "writer_run head tail s =
     (let idx = unat tail mod kRing;
          n = min (unat (head - tail)) (kRing - idx)
      in s\<lparr>tr_file := map_option (\<lambda>f. f @ take n (drop idx (tr_ring s))) (tr_file s),
           tr_pc := Writing head (tail + word_of_nat n)\<rparr>)"

definition writer_store :: "32 word \<Rightarrow> 'r trace \<Rightarrow> 'r trace" where
  "writer_store tail s = s\<lparr>tr_tail := tail, tr_pc := Sleeping\<rparr>"

text \<open>The exit test after a store.\<close>

definition writer_done :: "'r trace \<Rightarrow> bool" where
  "writer_done s \<longleftrightarrow> tr_stop s \<and> tr_head s = tr_tail s"

text \<open>
  Sessions: the rows kept so far in order, the number of rows dropped, and the state, for every
  interleaving of the two threads from a successful start.
\<close>

inductive trace_session :: "'r list \<Rightarrow> nat \<Rightarrow> 'r trace \<Rightarrow> bool" where
  opened: "\<not> tr_enabled s \<Longrightarrow> trace_start True zero s = (True, s') \<Longrightarrow> trace_session [] 0 s'"
| kept: "trace_session rows d s \<Longrightarrow> trace_record fill s = (Some row, s') \<Longrightarrow> trace_session (rows @ [row]) d s'"
| dropped: "trace_session rows d s \<Longrightarrow> tr_enabled s \<Longrightarrow> trace_record fill s = (None, s') \<Longrightarrow>
    trace_session rows (Suc d) s'"
| load: "trace_session rows d s \<Longrightarrow> tr_pc s = Sleeping \<Longrightarrow> trace_session rows d (writer_load s)"
| flush: "trace_session rows d s \<Longrightarrow> tr_pc s = Writing h t \<Longrightarrow> t \<noteq> h \<Longrightarrow> trace_session rows d (writer_run h t s)"
| store: "trace_session rows d s \<Longrightarrow> tr_pc s = Writing h t \<Longrightarrow> t = h \<Longrightarrow> trace_session rows d (writer_store t s)"
| stop: "trace_session rows d s \<Longrightarrow> trace_session rows d (trace_stop s)"

section \<open>The ring refines the list of rows\<close>

text \<open>The file holds the rows up to the writer's cursor, which lies between the stored tail and the loaded head.\<close>

definition writer_inv :: "'r list \<Rightarrow> nat \<Rightarrow> writer_pc \<Rightarrow> 'r list option \<Rightarrow> bool" where
  "writer_inv rows t pc f \<longleftrightarrow>
     (case pc of
        Sleeping \<Rightarrow> f = Some (take t rows)
      | Writing h c \<Rightarrow> \<exists>hn cn. h = word_of_nat hn \<and> c = word_of_nat cn \<and> t \<le> cn \<and> cn \<le> hn
          \<and> hn \<le> length rows \<and> f = Some (take cn rows))"

definition ring_inv :: "'r list \<Rightarrow> nat \<Rightarrow> nat \<Rightarrow> 'r trace \<Rightarrow> bool" where
  "ring_inv rows d t s \<longleftrightarrow>
     length (tr_ring s) = 512 \<and> tr_head s = word_of_nat (length rows) \<and> tr_tail s = word_of_nat t
     \<and> t \<le> length rows \<and> length rows \<le> t + 512 \<and> tr_dropped s = word_of_nat d
     \<and> tr_tick s = length rows
     \<and> (\<forall>k. t \<le> k \<and> k < length rows \<longrightarrow> tr_ring s ! (k mod 512) = rows ! k)
     \<and> writer_inv rows t (tr_pc s) (tr_file s)"

lemma writer_sleeping [simp]: "writer_inv rows t Sleeping f \<longleftrightarrow> f = Some (take t rows)"
  by (simp add: writer_inv_def)

lemma writer_writingI:
  "t \<le> cn \<Longrightarrow> cn \<le> hn \<Longrightarrow> hn \<le> length rows \<Longrightarrow>
     writer_inv rows t (Writing (word_of_nat hn) (word_of_nat cn)) (Some (take cn rows))"
  by (auto simp: writer_inv_def)

lemma writer_writingE:
  assumes "writer_inv rows t (Writing h c) f"
  obtains hn cn where "h = word_of_nat hn" "c = word_of_nat cn" "t \<le> cn" "cn \<le> hn"
    "hn \<le> length rows" "f = Some (take cn rows)"
  using assms by (auto simp: writer_inv_def)

lemma writer_grows:
  assumes "writer_inv rows t pc f" "t \<le> length rows"
  shows "writer_inv (rows @ [row]) t pc f"
proof (cases pc)
  case (Writing h c)
  with assms(1) obtain hn cn where w: "h = word_of_nat hn" "c = word_of_nat cn" "t \<le> cn" "cn \<le> hn"
    "hn \<le> length rows" "f = Some (take cn rows)" by (auto elim: writer_writingE)
  then have "f = Some (take cn (rows @ [row]))" by simp
  then show ?thesis
    using writer_writingI[of t cn hn "rows @ [row]"] w by (simp add: Writing)
qed (use assms in simp)

lemma word_gap:
  assumes "t \<le> n" "n \<le> t + 512"
  shows "unat (word_of_nat n - word_of_nat t :: 32 word) = n - t"
proof -
  have "(word_of_nat n - word_of_nat t :: 32 word) = word_of_nat (n - t)"
    using assms(1) by (simp add: of_nat_diff)
  moreover have "unat (word_of_nat m :: 32 word) = m" if "m \<le> 512" for m
    using that by (simp add: unat_of_nat take_bit_nat_eq_self)
  ultimately show ?thesis using assms(2) by (metis diff_le_mono diff_add_inverse)
qed

lemma word_slot: "unat (word_of_nat n :: 32 word) mod 512 = n mod 512"
proof -
  have "(n mod 2 ^ 32) mod 512 = n mod (512 :: nat)"
    by (rule mod_mod_cancel) (simp add: dvd_def exI[of _ "2 ^ 23"])
  then show ?thesis by (simp add: unat_of_nat take_bit_eq_mod)
qed

lemma ring_inv_record:
  assumes inv: "ring_inv rows d t s" and kept: "trace_record fill s = (Some row, s')"
  shows "ring_inv (rows @ [row]) d t s' \<and> row = fill (length rows) (word_of_nat d)"
proof -
  let ?n = "length rows"
  have counters: "tr_head s = word_of_nat ?n" "tr_tail s = word_of_nat t" "t \<le> ?n" "?n \<le> t + 512"
    using inv by (simp_all add: ring_inv_def)
  have space: "?n < t + 512"
    using kept word_gap[OF counters(3,4)] counters
    by (auto simp: trace_record_def kRing_def Let_def split: if_splits)
  have row: "row = fill ?n (word_of_nat d)"
    and s': "s' = s\<lparr>tr_ring := (tr_ring s)[?n mod 512 := row], tr_tick := ?n + 1, tr_head := word_of_nat (?n + 1)\<rparr>"
    using kept inv word_slot[of ?n]
    by (auto simp: trace_record_def ring_inv_def kRing_def Let_def add.commute split: if_splits)
  have slots: "(tr_ring s)[?n mod 512 := row] ! (k mod 512) = (rows @ [row]) ! k"
    if "t \<le> k" "k < Suc ?n" for k
  proof (cases "k = ?n")
    case True
    with inv show ?thesis by (simp add: ring_inv_def kRing_def)
  next
    case False
    with that have k: "k < ?n" by simp
    have "k mod 512 \<noteq> ?n mod 512"
      using ring_index_less[of 0 "?n - k" 512 k] k that(1) space by simp
    moreover have "tr_ring s ! (k mod 512) = rows ! k"
      using inv that(1) k by (simp add: ring_inv_def kRing_def)
    ultimately show ?thesis using k by (simp add: nth_append nth_list_update_neq)
  qed
  have "writer_inv (rows @ [row]) t (tr_pc s) (tr_file s)"
    using inv by (intro writer_grows) (simp_all add: ring_inv_def)
  with inv space slots have "ring_inv (rows @ [row]) d t s'"
    unfolding ring_inv_def s' by simp
  with row show ?thesis by blast
qed

lemma ring_inv_dropped:
  assumes "ring_inv rows d t s" "trace_record fill s = (None, s')" "tr_enabled s"
  shows "ring_inv rows (Suc d) t s' \<and> length rows = t + 512"
  using assms word_gap[of t "length rows"]
  by (auto simp: trace_record_def ring_inv_def kRing_def Let_def split: if_splits)

lemma ring_inv_load: "ring_inv rows d t s \<Longrightarrow> tr_pc s = Sleeping \<Longrightarrow> ring_inv rows d t (writer_load s)"
  using writer_writingI[of t t "length rows" rows] by (simp add: ring_inv_def writer_load_def)

lemma ring_inv_run:
  assumes inv: "ring_inv rows d t s" and pc: "tr_pc s = Writing h c"
  shows "ring_inv rows d t (writer_run h c s)"
proof -
  from inv pc have "writer_inv rows t (Writing h c) (tr_file s)" by (simp add: ring_inv_def)
  then obtain hn cn where w: "h = word_of_nat hn" "c = word_of_nat cn" "t \<le> cn" "cn \<le> hn"
    "hn \<le> length rows" "tr_file s = Some (take cn rows)"
    by (rule writer_writingE)
  have bounds: "hn \<le> cn + 512" "length rows \<le> t + 512" "length (tr_ring s) = 512"
    using inv w by (auto simp: ring_inv_def kRing_def)
  define n where "n = min (hn - cn) (512 - cn mod 512)"
  have run: "take n (drop (cn mod 512) (tr_ring s)) = take n (drop cn rows)"
  proof (rule nth_equalityI)
    show "length (take n (drop (cn mod 512) (tr_ring s))) = length (take n (drop cn rows))"
      using bounds w by (simp add: n_def)
  next
    fix j
    assume "j < length (take n (drop (cn mod 512) (tr_ring s)))"
    then have j: "j < n" "cn + j < length rows" "cn mod 512 + j < 512"
      using bounds w by (auto simp: n_def)
    then have "(cn + j) mod 512 = cn mod 512 + j"
      by (metis mod_add_left_eq mod_less)
    moreover have "tr_ring s ! ((cn + j) mod 512) = rows ! (cn + j)"
      using inv j w by (simp add: ring_inv_def kRing_def)
    ultimately show "take n (drop (cn mod 512) (tr_ring s)) ! j = take n (drop cn rows) ! j"
      using j bounds by simp
  qed
  have step: "writer_run h c s = s\<lparr>tr_file := Some (take (cn + n) rows), tr_pc := Writing h (word_of_nat (cn + n))\<rparr>"
    using word_gap[OF w(4) bounds(1)] run
    by (simp add: writer_run_def w(1,2,6) word_slot kRing_def n_def[symmetric] take_add Let_def)
  have "t \<le> cn + n" "cn + n \<le> hn" using w by (auto simp: n_def)
  from writer_writingI[OF this w(5)] inv show ?thesis
    unfolding step unfolding ring_inv_def w(1) by simp
qed

lemma ring_inv_store:
  assumes inv: "ring_inv rows d t s" and pc: "tr_pc s = Writing h h"
  shows "\<exists>t'. ring_inv rows d t' (writer_store h s)"
proof -
  from inv pc have "writer_inv rows t (Writing h h) (tr_file s)" by (simp add: ring_inv_def)
  then obtain hn cn where w: "h = word_of_nat hn" "h = word_of_nat cn" "t \<le> cn" "cn \<le> hn"
    "hn \<le> length rows" "tr_file s = Some (take cn rows)"
    by (rule writer_writingE)
  have near: "length rows \<le> t + 512" using inv by (simp add: ring_inv_def kRing_def)
  have "hn = cn"
    using word_gap[of cn hn] w near by simp
  with inv w near have "ring_inv rows d cn (writer_store h s)"
    by (auto simp: ring_inv_def writer_store_def kRing_def)
  then show ?thesis ..
qed

lemma ring_inv_start:
  "\<not> tr_enabled s \<Longrightarrow> trace_start True zero s = (True, s') \<Longrightarrow> ring_inv [] 0 0 s'"
  by (auto simp: trace_start_def ring_inv_def kRing_def)

lemma ring_inv_stop: "ring_inv rows d t s \<Longrightarrow> ring_inv rows d t (trace_stop s)"
  by (simp add: ring_inv_def trace_stop_def)

lemma session_inv: "trace_session rows d s \<Longrightarrow> \<exists>t. ring_inv rows d t s"
proof (induction rule: trace_session.induct)
  case (opened s zero s')
  from ring_inv_start[OF this] show ?case by blast
next
  case (kept rows d s fill row s')
  then obtain t where "ring_inv rows d t s" by blast
  from ring_inv_record[OF this kept(2)] show ?case by blast
next
  case (dropped rows d s fill s')
  then obtain t where "ring_inv rows d t s" by blast
  from ring_inv_dropped[OF this dropped(3,2)] show ?case by blast
next
  case (load rows d s)
  then obtain t where "ring_inv rows d t s" by blast
  from ring_inv_load[OF this load(2)] show ?case by blast
next
  case (flush rows d s h c)
  then obtain t where "ring_inv rows d t s" by blast
  from ring_inv_run[OF this flush(2)] show ?case by blast
next
  case (store rows d s h c)
  then obtain t where "ring_inv rows d t s" by blast
  from ring_inv_store[OF this store(2)[folded store(3)]] show ?case using store(3) by simp
next
  case (stop rows d s)
  then obtain t where "ring_inv rows d t s" by blast
  from ring_inv_stop[OF this] show ?case by blast
qed

text \<open>What the invariant says of the file: at most one ring behind, complete once drained.\<close>

lemma saved_prefix:
  assumes "ring_inv rows d t s"
  shows "\<exists>w. tr_file s = Some (take w rows) \<and> w \<le> length rows \<and> length rows \<le> w + kRing"
proof (cases "tr_pc s")
  case Sleeping
  with assms show ?thesis by (auto simp: ring_inv_def kRing_def)
next
  case (Writing h c)
  with assms have "writer_inv rows t (Writing h c) (tr_file s)" by (simp add: ring_inv_def)
  then obtain hn cn where "t \<le> cn" "cn \<le> hn" "hn \<le> length rows" "tr_file s = Some (take cn rows)"
    by (rule writer_writingE)
  with assms show ?thesis by (intro exI[of _ cn]) (simp add: ring_inv_def kRing_def)
qed

lemma ring_gap:
  "ring_inv rows d t s \<Longrightarrow> unat (tr_head s - tr_tail s) = length rows - t \<and> t \<le> length rows \<and> length rows \<le> t + kRing"
  using word_gap[of t "length rows"] by (simp add: ring_inv_def kRing_def)

lemma drained:
  assumes "ring_inv rows d t s" "writer_done s" "tr_pc s = Sleeping"
  shows "tr_file s = Some rows"
proof -
  from assms(2) have "tr_head s - tr_tail s = 0" by (simp add: writer_done_def)
  with ring_gap[OF assms(1)] have "length rows = t" by simp
  with assms(1,3) show ?thesis by (simp add: ring_inv_def)
qed

text \<open>
  The trace file is the rows, whatever the threads do: in every interleaving of the control
  thread and the writer, also after the counters have wrapped, the file holds the first rows
  kept, whole and in order, never more than one ring behind; a row is refused only when a full
  ring is still unwritten, and every refusal is counted; and when the writer's exit test
  succeeds nothing that was kept is missing.
\<close>
theorem trace_file_is_faithful:
  assumes "trace_session rows d s"
  shows "(\<exists>w. tr_file s = Some (take w rows) \<and> w \<le> length rows \<and> length rows \<le> w + kRing)
    \<and> tr_dropped s = word_of_nat d \<and> tr_tick s = length rows
    \<and> (tr_enabled s \<and> fst (trace_record fill s) = None \<longrightarrow> unat (tr_head s - tr_tail s) = kRing)
    \<and> (writer_done s \<and> tr_pc s = Sleeping \<longrightarrow> tr_file s = Some rows)"
proof -
  obtain t where inv: "ring_inv rows d t s" using session_inv[OF assms] by blast
  have full: "unat (tr_head s - tr_tail s) = kRing" if "tr_enabled s" "fst (trace_record fill s) = None"
    using that ring_gap[OF inv] by (auto simp: trace_record_def Let_def split: if_splits)
  from full saved_prefix[OF inv] drained[OF inv] inv show ?thesis by (simp add: ring_inv_def)
qed

text \<open>The witness: two rows, one of them kept while the writer is between its load and its run.\<close>

lemma trace_file_is_faithful_witness:
  "\<exists>s. trace_session [10, 11] 0 s \<and> writer_done s \<and> tr_pc s = Sleeping \<and> tr_file s = Some [10, 11 :: nat]"
proof -
  define s0 where "s0 = snd (trace_start True (0 :: nat) trace_new)"
  define s1 where "s1 = snd (trace_record (\<lambda>n _. 10 + n) s0)"
  define s2 where "s2 = snd (trace_record (\<lambda>n _. 10 + n) (writer_load s1))"
  define s3 where "s3 = writer_store 1 (writer_run 1 0 s2)"
  define s4 where "s4 = writer_store 2 (writer_run 2 1 (writer_load s3))"
  note defs = s0_def s1_def s2_def s3_def s4_def trace_start_def trace_new_def trace_record_def
    writer_load_def writer_run_def writer_store_def kRing_def
  have a: "trace_session [] 0 s0"
    by (rule trace_session.opened[of trace_new 0]) (simp_all add: defs)
  have b: "trace_session ([] @ [10]) 0 s1"
    by (rule trace_session.kept[OF a]) (simp add: defs Let_def)
  have c: "trace_session (([] @ [10]) @ [11]) 0 s2"
    by (rule trace_session.kept[OF trace_session.load[OF b]]) (simp_all add: defs Let_def)
  have d: "trace_session (([] @ [10]) @ [11]) 0 s3"
    unfolding s3_def
    by (rule trace_session.store[OF trace_session.flush[OF c]]) (simp_all add: defs Let_def)
  have e: "trace_session (([] @ [10]) @ [11]) 0 (trace_stop s4)"
    unfolding s4_def
    by (rule trace_session.stop, rule trace_session.store[OF trace_session.flush[OF trace_session.load[OF d]]])
       (simp_all add: defs Let_def)
  have "writer_done (trace_stop s4)" "tr_pc (trace_stop s4) = Sleeping"
    by (simp_all add: defs Let_def trace_stop_def writer_done_def)
  with e trace_file_is_faithful[OF e] show ?thesis by auto
qed

end
