(* ===== verification/Observers.thy ===== *)
theory Observers
  imports Controller Hand_Writer Unitree_Link
begin

text \<open>
  Two observers of the control loop: the trace row of \<open>src/control/state_trace.cpp\<close> with the
  column names of \<open>include/control/state_trace_columns.hpp\<close>, and the record stream of
  \<open>src/collector/motion_token_publisher.cpp\<close>.
\<close>

section \<open>Column names\<close>

text \<open>Decimal notation of an index (\<open>std::to_string\<close>).\<close>

fun to_string :: "nat \<Rightarrow> string" where
  "to_string n = (if n < 10 then [char_of (48 + n)] else to_string (n div 10) @ [char_of (48 + n mod 10)])"

declare to_string.simps [simp del]

definition add :: "string \<Rightarrow> string list" where "add n = [n]"

definition addn :: "string \<Rightarrow> nat \<Rightarrow> string list" where
  "addn n k = map (\<lambda>i. n @ ''_'' @ to_string i) [0..<k]"

text \<open>The columns, grouped by the value or array they come from.\<close>

definition column_blocks :: "string list list" where
  "column_blocks =
     [add ''t_s'', add ''tick'', add ''wbc_state'', add ''arb_mode'', add ''enc_mode'',
      add ''planner_cursor'', add ''timing_enc_us'', add ''timing_dec_us'', add ''timing_total_us'',
      add ''trace_dropped'',
      add ''smpl_valid'', addn ''smpl_j'' 72, addn ''smpl_anchor'' 4, addn ''smpl_wrist'' 6,
      add ''vr3_valid'', addn ''vr3_pos'' 9, addn ''vr3_orn'' 12,
      add ''planner_valid'', addn ''planner_q'' 29,
      add ''token_valid'', addn ''token'' 64,
      addn ''action'' 29, addn ''q_target'' 29,
      add ''state_valid'', addn ''q'' 29, addn ''dq'' 29, addn ''tau'' 29,
      addn ''temp_casing'' 29, addn ''temp_winding'' 29, addn ''fault'' 29,
      addn ''imu_quat'' 4, addn ''imu_gyro'' 3,
      addn ''health'' 29,
      add ''hand_l_valid'', add ''hand_r_valid'',
      addn ''hand_l_q'' 7, addn ''hand_r_q'' 7, addn ''hand_l_cmd'' 7, addn ''hand_r_cmd'' 7,
      add ''ctrl_valid'', addn ''ctrl_laxis'' 2, addn ''ctrl_raxis'' 2,
      add ''btn_a'', add ''btn_b'', add ''btn_x'', add ''btn_y'',
      add ''trig_l'', add ''trig_r'', add ''grip_l'', add ''grip_r'',
      add ''record_state'']"

definition state_trace_columns :: "string list" where
  "state_trace_columns = concat column_blocks"

definition num_columns :: nat where "num_columns = length state_trace_columns"

section \<open>The row\<close>

primrec wbc_code :: "wbc_state \<Rightarrow> int" where
  "wbc_code INIT = 0" | "wbc_code WAIT_FOR_CONTROL = 1" | "wbc_code CONTROL = 2" | "wbc_code ESTOP = 3"

primrec arb_code :: "arb_mode \<Rightarrow> int" where
  "arb_code KNormal = 0" | "arb_code KTeleop = 1" | "arb_code KVla = 2" | "arb_code KRecovering = 3"

text \<open>What one row reads: the tick's own fields and the module buffers.\<close>

record row_in =
  ri_t0 :: time
  ri_start :: time
  ri_wbc_state :: wbc_state
  ri_arb_mode :: arb_mode
  ri_encoder_mode :: int
  ri_planner_cursor :: int
  ri_timing_enc_us :: int
  ri_timing_dec_us :: int
  ri_timing_total_us :: int
  ri_smpl :: "smpl_pose list option"
  ri_vr3 :: "vr3_point option"
  ri_planner_frame :: "motion_frame option"
  ri_token :: "motion_token_sample option"
  ri_action :: "real list"
  ri_cmd :: "motor_command option"
  ri_state :: "unitree_state option"
  ri_health :: "nat list"
  ri_hand_l :: "hand_state option"
  ri_hand_r :: "hand_state option"
  ri_hand_cmd :: "(hand_command \<times> hand_command) option"
  ri_ctrl :: "pico_controller option"
  ri_record :: record_state

text \<open>\<open>skip k\<close> leaves \<open>k\<close> entries at the zero the row was filled with.\<close>

definition put :: "real \<Rightarrow> real list" where "put v = [v]"
definition skip :: "nat \<Rightarrow> real list" where "skip k = replicate k 0"

definition real_bool :: "bool \<Rightarrow> real" where "real_bool b = (if b then 1 else 0)"

definition fill_tick :: "row_in \<Rightarrow> nat \<Rightarrow> 32 word \<Rightarrow> real list list" where
  "fill_tick i tick dropped =
     [put (real_of_int (ri_t0 i - ri_start i) / 10 ^ 9), put (real tick),
      put (real_of_int (wbc_code (ri_wbc_state i))), put (real_of_int (arb_code (ri_arb_mode i))),
      put (real_of_int (ri_encoder_mode i)), put (real_of_int (ri_planner_cursor i)),
      put (real_of_int (ri_timing_enc_us i)), put (real_of_int (ri_timing_dec_us i)),
      put (real_of_int (ri_timing_total_us i)), put (real (unat dropped))]"

text \<open>The newest frame of the window is its last.\<close>

definition kSmplFrames :: nat where "kSmplFrames = 10"

definition fill_teleop :: "row_in \<Rightarrow> real list list" where
  "fill_teleop i =
     (case ri_smpl i of
        Some w \<Rightarrow> (let p = w ! (kSmplFrames - 1)
          in [put 1, concat (map vec3_list (joints_local p)), quat_list (anchor_quat p), wrist_joint_pos p])
      | None \<Rightarrow> [put 0, skip 72, skip 4, skip 6])
     @ (case ri_vr3 i of
          Some v \<Rightarrow> [put 1, vr3_position v, vr3_orientation v]
        | None \<Rightarrow> [put 0, skip 9, skip 12])"

definition fill_policy :: "row_in \<Rightarrow> real list list" where
  "fill_policy i =
     (case ri_planner_frame i of Some f \<Rightarrow> [put 1, fr_joints f] | None \<Rightarrow> [put 0, skip 29])
     @ (case ri_token i of Some t \<Rightarrow> [put 1, mt_token t] | None \<Rightarrow> [put 0, skip 64])
     @ [ri_action i, (case ri_cmd i of Some c \<Rightarrow> q_target c | None \<Rightarrow> skip 29)]"

definition fill_robot :: "row_in \<Rightarrow> real list list" where
  "fill_robot i =
     (case ri_state i of
        Some st \<Rightarrow> [put 1, map ms_q (us_motors st), map ms_dq (us_motors st), map ms_tau (us_motors st),
          map (real_of_int \<circ> ms_temp_casing) (us_motors st),
          map (real_of_int \<circ> ms_temp_winding) (us_motors st),
          map (real \<circ> unat \<circ> ms_error) (us_motors st),
          quat_list (im_quaternion (us_imu_pelvis st)), vec3_list (im_gyroscope (us_imu_pelvis st))]
      | None \<Rightarrow> [put 0, skip 29, skip 29, skip 29, skip 29, skip 29, skip 29, skip 4, skip 3])
     @ [map (\<lambda>m. real (ri_health i ! m)) [0..<29]]"

definition fill_hands :: "row_in \<Rightarrow> real list list" where
  "fill_hands i =
     [put (real_bool (ri_hand_l i \<noteq> None)), put (real_bool (ri_hand_r i \<noteq> None)),
      (case ri_hand_l i of Some h \<Rightarrow> map hm_q (hs_motors h) | None \<Rightarrow> skip 7),
      (case ri_hand_r i of Some h \<Rightarrow> map hm_q (hs_motors h) | None \<Rightarrow> skip 7)]
     @ (case ri_hand_cmd i of Some (l, r) \<Rightarrow> [hc_q l, hc_q r] | None \<Rightarrow> [skip 7, skip 7])"

definition fill_operator :: "row_in \<Rightarrow> real list list" where
  "fill_operator i =
     (case ri_ctrl i of
        Some c \<Rightarrow> [put 1, [fst (left_axis c), snd (left_axis c)], [fst (right_axis c), snd (right_axis c)],
          put (real_bool (btn_a c)), put (real_bool (btn_b c)), put (real_bool (btn_x c)),
          put (real_bool (btn_y c)), put (left_trigger c), put (right_trigger c),
          put (left_grip c), put (right_grip c)]
      | None \<Rightarrow> [put 0, skip 2, skip 2, put 0, put 0, put 0, put 0, put 0, put 0, put 0, put 0])
     @ [put (real (unat (state_code (ri_record i))))]"

definition row_blocks :: "row_in \<Rightarrow> nat \<Rightarrow> 32 word \<Rightarrow> real list list" where
  "row_blocks i tick dropped = fill_tick i tick dropped @ fill_teleop i @ fill_policy i @ fill_robot i
     @ fill_hands i @ fill_operator i"

text \<open>The row, and whether the layout check at its end stays silent.\<close>

definition trace_fill :: "row_in \<Rightarrow> nat \<Rightarrow> 32 word \<Rightarrow> real list" where
  "trace_fill i tick dropped = concat (row_blocks i tick dropped)"

definition layout_matches :: "row_in \<Rightarrow> nat \<Rightarrow> 32 word \<Rightarrow> bool" where
  "layout_matches i tick dropped \<longleftrightarrow> length (trace_fill i tick dropped) = num_columns"

text \<open>The array sizes of the source's types.\<close>

definition row_in_ok :: "row_in \<Rightarrow> bool" where
  "row_in_ok i \<longleftrightarrow>
     (case ri_smpl i of None \<Rightarrow> True | Some w \<Rightarrow> length w = 10 \<and>
        (\<forall>p \<in> set w. length (joints_local p) = 24 \<and> length (wrist_joint_pos p) = 6))
     \<and> (case ri_vr3 i of None \<Rightarrow> True | Some v \<Rightarrow> length (vr3_position v) = 9 \<and> length (vr3_orientation v) = 12)
     \<and> (case ri_planner_frame i of None \<Rightarrow> True | Some f \<Rightarrow> length (fr_joints f) = 29)
     \<and> (case ri_token i of None \<Rightarrow> True | Some t \<Rightarrow> length (mt_token t) = 64)
     \<and> length (ri_action i) = 29
     \<and> (case ri_cmd i of None \<Rightarrow> True | Some c \<Rightarrow> length (q_target c) = 29)
     \<and> (case ri_state i of None \<Rightarrow> True | Some st \<Rightarrow> length (us_motors st) = 29)
     \<and> (case ri_hand_l i of None \<Rightarrow> True | Some h \<Rightarrow> length (hs_motors h) = 7)
     \<and> (case ri_hand_r i of None \<Rightarrow> True | Some h \<Rightarrow> length (hs_motors h) = 7)
     \<and> (case ri_hand_cmd i of None \<Rightarrow> True | Some (l, r) \<Rightarrow> length (hc_q l) = 7 \<and> length (hc_q r) = 7)"

section \<open>Rows and columns cannot drift apart\<close>

lemma length_add [simp]: "length (add n) = 1" "length (addn n k) = k"
  by (simp_all add: add_def addn_def)

lemma length_put [simp]: "length (put v) = 1" "length (skip k) = k"
  by (simp_all add: put_def skip_def)

lemma column_lengths:
  "map length column_blocks =
     [1, 1, 1, 1, 1, 1, 1, 1, 1, 1] @ [1, 72, 4, 6, 1, 9, 12] @ [1, 29, 1, 64, 29, 29]
     @ [1, 29, 29, 29, 29, 29, 29, 4, 3, 29] @ [1, 1, 7, 7, 7, 7] @ [1, 2, 2, 1, 1, 1, 1, 1, 1, 1, 1, 1]"
  by (simp add: column_blocks_def)

lemma tick_lengths: "map length (fill_tick i t d) = [1, 1, 1, 1, 1, 1, 1, 1, 1, 1]"
  by (simp add: fill_tick_def)

lemma concat_vec3: "length (concat (map vec3_list vs)) = 3 * length vs"
  by (induction vs) simp_all

lemma teleop_lengths: "row_in_ok i \<Longrightarrow> map length (fill_teleop i) = [1, 72, 4, 6, 1, 9, 12]"
  by (auto simp: fill_teleop_def row_in_ok_def kSmplFrames_def concat_vec3 Let_def split: option.split)

lemma policy_lengths: "row_in_ok i \<Longrightarrow> map length (fill_policy i) = [1, 29, 1, 64, 29, 29]"
  by (auto simp: fill_policy_def row_in_ok_def split: option.split)

lemma robot_lengths: "row_in_ok i \<Longrightarrow> map length (fill_robot i) = [1, 29, 29, 29, 29, 29, 29, 4, 3, 29]"
  by (auto simp: fill_robot_def row_in_ok_def split: option.split)

lemma hands_lengths: "row_in_ok i \<Longrightarrow> map length (fill_hands i) = [1, 1, 7, 7, 7, 7]"
  by (auto simp: fill_hands_def row_in_ok_def split: option.split)

lemma operator_lengths: "map length (fill_operator i) = [1, 2, 2, 1, 1, 1, 1, 1, 1, 1, 1, 1]"
  by (simp add: fill_operator_def split: option.split)

lemma concat_nth_block:
  "b < length xss \<Longrightarrow> j < length (xss ! b) \<Longrightarrow>
     concat xss ! (sum_list (map length (take b xss)) + j) = xss ! b ! j"
proof (induction xss arbitrary: b)
  case (Cons xs xss)
  then show ?case by (cases b) (simp_all add: nth_append)
qed simp

definition column_start :: "nat \<Rightarrow> nat" where
  "column_start b = sum_list (map length (take b column_blocks))"

text \<open>
  A reader that goes by the header finds every value under its own name: whatever the modules
  offer, present or absent, a row has exactly as many entries as there are columns, the layout
  check stays silent, and the j-th value of the b-th field stands where the j-th name of the
  b-th field stands.
\<close>
theorem trace_rows_match_columns:
  assumes "row_in_ok i"
  shows "length (trace_fill i tick dropped) = num_columns \<and> layout_matches i tick dropped
    \<and> length (row_blocks i tick dropped) = length column_blocks
    \<and> (\<forall>b < length column_blocks. \<forall>j < length (column_blocks ! b).
         j < length (row_blocks i tick dropped ! b)
         \<and> state_trace_columns ! (column_start b + j) = column_blocks ! b ! j
         \<and> trace_fill i tick dropped ! (column_start b + j) = row_blocks i tick dropped ! b ! j)"
proof -
  let ?r = "row_blocks i tick dropped"
  have same: "map length ?r = map length column_blocks"
    unfolding column_lengths row_blocks_def map_append
    by (simp only: tick_lengths teleop_lengths[OF assms] policy_lengths[OF assms]
        robot_lengths[OF assms] hands_lengths[OF assms] operator_lengths append_assoc)
  have len: "length ?r = length column_blocks" using same by (metis length_map)
  have each: "length (?r ! b) = length (column_blocks ! b)" if "b < length column_blocks" for b
    using arg_cong[OF same, of "\<lambda>l. l ! b"] that len by simp
  have start: "sum_list (map length (take b ?r)) = column_start b" for b
    using same by (metis column_start_def take_map)
  have total: "length (trace_fill i tick dropped) = num_columns"
    by (simp add: trace_fill_def num_columns_def state_trace_columns_def length_concat same)
  have names: "state_trace_columns ! (column_start b + j) = column_blocks ! b ! j"
    if "b < length column_blocks" "j < length (column_blocks ! b)" for b j
    unfolding state_trace_columns_def column_start_def by (rule concat_nth_block[OF that])
  have vals: "trace_fill i tick dropped ! (column_start b + j) = ?r ! b ! j"
    if "b < length column_blocks" "j < length (column_blocks ! b)" for b j
    using concat_nth_block[of b ?r j] that len each start by (simp add: trace_fill_def)
  from total len each names vals show ?thesis by (simp add: layout_matches_def)
qed

text \<open>The witness: nothing is connected, and still the record state is the last column.\<close>

definition empty_row :: row_in where
  "empty_row = \<lparr>ri_t0 = 0, ri_start = 0, ri_wbc_state = INIT, ri_arb_mode = KNormal,
     ri_encoder_mode = -1, ri_planner_cursor = 0, ri_timing_enc_us = 0, ri_timing_dec_us = 0,
     ri_timing_total_us = 0, ri_smpl = None, ri_vr3 = None, ri_planner_frame = None, ri_token = None,
     ri_action = replicate 29 0, ri_cmd = None, ri_state = None, ri_health = replicate 29 0,
     ri_hand_l = None, ri_hand_r = None, ri_hand_cmd = None, ri_ctrl = None, ri_record = SRecording\<rparr>"

lemma trace_rows_match_columns_witness:
  "state_trace_columns ! column_start 50 = ''record_state''
   \<and> trace_fill empty_row 0 0 ! column_start 50 = 1"
proof -
  have ok: "row_in_ok empty_row" by (simp add: row_in_ok_def empty_row_def)
  have b: "50 < length column_blocks" "0 < length (column_blocks ! 50)"
    by (simp_all add: column_blocks_def)
  have "row_blocks empty_row 0 0 ! 50 = [1]"
    by (simp add: row_blocks_def fill_tick_def fill_teleop_def fill_policy_def fill_robot_def
        fill_hands_def fill_operator_def empty_row_def put_def)
  moreover have "column_blocks ! 50 = [''record_state'']" by (simp add: column_blocks_def add_def)
  ultimately show ?thesis
    using trace_rows_match_columns[OF ok, of 0 0] b by (metis add.right_neutral nth_Cons_0)
qed

section \<open>The token record stream\<close>

record token_publisher =
  tp_pub :: bool
  tp_last_seq :: nat
  tp_written :: "motion_token_sample list"

definition token_pub_new :: token_publisher where
  "token_pub_new = \<lparr>tp_pub = False, tp_last_seq = 0, tp_written = []\<rparr>"

text \<open>The publisher object may fail to be made, or be made and fail to open its channel.\<close>

definition token_pub_start :: "bool \<Rightarrow> bool \<Rightarrow> token_publisher \<Rightarrow> bool \<times> token_publisher" where
  "token_pub_start made opened s =
     (if made then (opened, s\<lparr>tp_pub := True\<rparr>) else (False, s\<lparr>tp_pub := False\<rparr>))"

definition token_pub_stop :: "token_publisher \<Rightarrow> token_publisher" where
  "token_pub_stop s = s\<lparr>tp_pub := False\<rparr>"

text \<open>One poll; the message copies every field of the sample.\<close>

definition token_poll :: "motion_token_sample option \<Rightarrow> token_publisher \<Rightarrow> token_publisher" where
  "token_poll src s =
     (case src of
        Some x \<Rightarrow> if mt_seq x \<noteq> tp_last_seq s
                  then s\<lparr>tp_last_seq := mt_seq x, tp_written := tp_written s @ [x]\<rparr> else s
      | None \<Rightarrow> s)"

definition token_polls :: "motion_token_sample option list \<Rightarrow> token_publisher \<Rightarrow> token_publisher" where
  "token_polls ps s = fold token_poll ps s"

definition seen :: "motion_token_sample option list \<Rightarrow> motion_token_sample list" where
  "seen ps = concat (map (\<lambda>p. case p of Some x \<Rightarrow> [x] | None \<Rightarrow> []) ps)"

lemma token_polls_written:
  "map mt_seq (tp_written (token_polls ps s)) = map mt_seq (tp_written s)
       @ tl (remdups_adj (tp_last_seq s # map mt_seq (seen ps)))
   \<and> set (tp_written (token_polls ps s)) \<subseteq> set (tp_written s) \<union> set (seen ps)"
proof (induction ps arbitrary: s)
  case Nil
  show ?case by (simp add: token_polls_def seen_def)
next
  case (Cons p ps)
  show ?case
  proof (cases p)
    case None
    with Cons[of s] show ?thesis by (simp add: token_polls_def seen_def token_poll_def)
  next
    case (Some x)
    have step: "token_polls (p # ps) s = token_polls ps (token_poll p s)"
      and seen: "seen (p # ps) = x # seen ps"
      by (simp_all add: token_polls_def seen_def Some)
    show ?thesis
    proof (cases "mt_seq x = tp_last_seq s")
      case True
      then have "token_poll p s = s" by (simp add: token_poll_def Some)
      with Cons[of s] True show ?thesis by (auto simp: step seen)
    next
      case False
      then have p: "token_poll p s = s\<lparr>tp_last_seq := mt_seq x, tp_written := tp_written s @ [x]\<rparr>"
        by (simp add: token_poll_def Some)
      have "tl (remdups_adj (tp_last_seq s # mt_seq x # l)) = mt_seq x # tl (remdups_adj (mt_seq x # l))" for l
        using False by (simp add: remdups_adj_Cons split: list.split)
      with Cons[of "token_poll p s"] show ?thesis by (auto simp: step seen p)
    qed
  qed
qed

lemma remdups_adj_strict: "sorted xs \<Longrightarrow> sorted_wrt (<) (remdups_adj (xs :: nat list))"
  by (induction xs rule: remdups_adj.induct) (auto simp: order_less_le)

text \<open>
  The collector gets each decoded tick the publisher sees exactly once and in order: when the
  samples polled carry the controller's increasing sequence numbers from one on, the sequence
  numbers written are strictly increasing and are exactly those polled, however often each was
  seen, and every message written is a sample that was polled.
\<close>
theorem token_stream_once_in_order:
  assumes "sorted (map mt_seq (seen ps))" "\<forall>x \<in> set (seen ps). 1 \<le> mt_seq x"
  defines "w \<equiv> tp_written (token_polls ps (snd (token_pub_start True True token_pub_new)))"
  shows "sorted_wrt (<) (map mt_seq w) \<and> set (map mt_seq w) = set (map mt_seq (seen ps))
    \<and> set w \<subseteq> set (seen ps)"
proof -
  let ?q = "map mt_seq (seen ps)"
  have start: "tp_last_seq (snd (token_pub_start True True token_pub_new)) = 0"
    "tp_written (snd (token_pub_start True True token_pub_new)) = []"
    by (simp_all add: token_pub_start_def token_pub_new_def)
  have "tl (remdups_adj (0 # ?q)) = remdups_adj ?q"
    using assms(2) by (cases "seen ps") (auto simp: remdups_adj_Cons split: list.split)
  then have w: "map mt_seq w = remdups_adj ?q" "set w \<subseteq> set (seen ps)"
    using token_polls_written[of ps "snd (token_pub_start True True token_pub_new)"] start
    by (simp_all add: w_def)
  have "sorted_wrt (<) (remdups_adj ?q)"
    using assms(1) by (rule remdups_adj_strict)
  with w show ?thesis by simp
qed

definition sample_at :: "nat \<Rightarrow> motion_token_sample" where
  "sample_at k = \<lparr>mt_token = replicate 64 0, mt_seq = k, mt_stamp_ns = 0, mt_arbiter_mode = KNormal,
     mt_encoder_mode = 0\<rparr>"

lemma token_stream_once_in_order_witness:
  "map mt_seq (tp_written (token_polls [None, Some (sample_at 1), Some (sample_at 1), Some (sample_at 3)]
       (snd (token_pub_start True True token_pub_new)))) = [1, 3]"
proof -
  let ?ps = "[None, Some (sample_at 1), Some (sample_at 1), Some (sample_at 3)]"
  let ?w = "map mt_seq (tp_written (token_polls ?ps (snd (token_pub_start True True token_pub_new))))"
  have "sorted_wrt (<) ?w \<and> set ?w = set (map mt_seq (seen ?ps))"
    using token_stream_once_in_order[of ?ps] by (simp add: seen_def sample_at_def)
  moreover have "set (map mt_seq (seen ?ps)) = {1, 3}" by (auto simp: seen_def sample_at_def)
  ultimately have "?w = sorted_list_of_set {1, 3}"
    by (metis sorted_list_of_set.idem_if_sorted_distinct strict_sorted_iff)
  then show ?thesis by simp
qed

end
