(* ===== verification/Vec3.thy ===== *)
theory Vec3
  imports Quaternion
begin

text \<open>
  The vector helpers of \<open>src/teleop/smpl_arm_reach.cpp\<close> and the metric facts about them:
  the triangle inequality, and that a unit quaternion rotates without changing lengths.
\<close>

fun v3_sub :: "vec3 \<Rightarrow> vec3 \<Rightarrow> vec3" where
  "v3_sub (a0, a1, a2) (b0, b1, b2) = (a0 - b0, a1 - b1, a2 - b2)"

fun v3_add :: "vec3 \<Rightarrow> vec3 \<Rightarrow> vec3" where
  "v3_add (a0, a1, a2) (b0, b1, b2) = (a0 + b0, a1 + b1, a2 + b2)"

fun v3_scale :: "vec3 \<Rightarrow> real \<Rightarrow> vec3" where
  "v3_scale (a0, a1, a2) s = (a0 * s, a1 * s, a2 * s)"

fun v3_dot :: "vec3 \<Rightarrow> vec3 \<Rightarrow> real" where
  "v3_dot (a0, a1, a2) (b0, b1, b2) = a0 * b0 + a1 * b1 + a2 * b2"

definition v3_norm :: "vec3 \<Rightarrow> real" where
  "v3_norm a = sqrt (v3_dot a a)"

fun v3_cross :: "vec3 \<Rightarrow> vec3 \<Rightarrow> vec3" where
  "v3_cross (a0, a1, a2) (b0, b1, b2) = (a1 * b2 - a2 * b1, a2 * b0 - a0 * b2, a0 * b1 - a1 * b0)"

lemma v3_dot_commute: "v3_dot a b = v3_dot b a"
  by (cases a; cases b) simp

lemma v3_dot_add: "v3_dot (v3_add a b) c = v3_dot a c + v3_dot b c"
  by (cases a; cases b; cases c) (simp add: algebra_simps)

lemma v3_dot_sub: "v3_dot (v3_sub a b) c = v3_dot a c - v3_dot b c"
  by (cases a; cases b; cases c) (simp add: algebra_simps)

lemma v3_dot_scale: "v3_dot (v3_scale a s) c = s * v3_dot a c"
  by (cases a; cases c) (simp add: algebra_simps)

lemmas v3_dot_linear = v3_dot_add v3_dot_sub v3_dot_scale

lemma v3_dot_linear_right:
  "v3_dot c (v3_add a b) = v3_dot c a + v3_dot c b"
  "v3_dot c (v3_sub a b) = v3_dot c a - v3_dot c b"
  "v3_dot c (v3_scale a s) = s * v3_dot c a"
  by (cases a; cases b; cases c; simp add: algebra_simps)+

lemma v3_dot_nonneg [simp]: "0 \<le> v3_dot a a"
  by (cases a) simp

lemma v3_norm_nonneg [simp]: "0 \<le> v3_norm a"
  by (simp add: v3_norm_def)

lemma v3_norm_mult [simp]: "v3_norm a * v3_norm a = v3_dot a a"
  by (simp add: v3_norm_def)

lemma v3_norm_scale: "v3_norm (v3_scale a s) = \<bar>s\<bar> * v3_norm a"
proof -
  have "v3_dot (v3_scale a s) (v3_scale a s) = s * s * v3_dot a a"
    by (cases a) (simp add: algebra_simps)
  then show ?thesis by (simp add: v3_norm_def real_sqrt_mult)
qed

lemma v3_lagrange: "v3_dot a b * v3_dot a b + v3_dot (v3_cross a b) (v3_cross a b) = v3_dot a a * v3_dot b b"
  by (cases a; cases b) (simp add: algebra_simps)

lemma v3_cauchy_schwarz: "v3_dot a b \<le> v3_norm a * v3_norm b"
proof -
  have "v3_dot a b * v3_dot a b \<le> v3_dot a a * v3_dot b b"
    using v3_lagrange[of a b] v3_dot_nonneg[of "v3_cross a b"] by linarith
  then have "(v3_dot a b)\<^sup>2 \<le> (v3_norm a * v3_norm b)\<^sup>2"
    by (simp add: power2_eq_square algebra_simps flip: v3_norm_mult)
  then show ?thesis by (rule power2_le_imp_le) simp
qed

lemma v3_triangle: "v3_norm (v3_add a b) \<le> v3_norm a + v3_norm b"
proof -
  have "v3_dot (v3_add a b) (v3_add a b) = v3_dot a a + 2 * v3_dot a b + v3_dot b b"
    by (cases a; cases b) (simp add: algebra_simps)
  also have "\<dots> \<le> (v3_norm a + v3_norm b)\<^sup>2"
    using v3_cauchy_schwarz[of a b] by (simp add: power2_eq_square algebra_simps)
  finally show ?thesis unfolding v3_norm_def[of "v3_add a b"] by (rule real_le_lsqrt[rotated]) simp
qed

lemma v3_norm2: "vec3_norm2 v = v3_dot v v"
  by (cases v) (simp add: vec3_norm2_def)

lemma v3_norm_rotate: "unit_quat q \<Longrightarrow> v3_norm (quat_rotate q v) = v3_norm v"
  using quat_rotate_norm2[of q v] by (simp add: v3_norm_def v3_norm2)

lemma v3_rotate_sub: "quat_rotate q (v3_sub a b) = v3_sub (quat_rotate q a) (quat_rotate q b)"
  by (cases q; cases a; cases b) (simp add: Let_def algebra_simps)

lemma v3_rotate_add: "quat_rotate q (v3_add a b) = v3_add (quat_rotate q a) (quat_rotate q b)"
  by (cases q; cases a; cases b) (simp add: Let_def algebra_simps)

lemma v3_sub_add [simp]: "v3_sub (v3_add a b) a = b"
  by (cases a; cases b) simp

lemma v3_sub_sub_common [simp]: "v3_sub (v3_sub a c) (v3_sub b c) = v3_sub a b"
  by (cases a; cases b; cases c) simp

text \<open>A quaternion away from zero is normalised to a unit one, whatever its length.\<close>

lemma quat_unit_scale:
  assumes "1 / 10 ^ 24 \<le> quat_norm2 q" "1 \<le> s"
  shows "quat_unit (case q of (w, x, y, z) \<Rightarrow> (s * w, s * x, s * y, s * z)) = quat_unit q"
proof -
  obtain w x y z where q: "q = (w, x, y, z)" by (cases q)
  define n where "n = sqrt (w*w + x*x + y*y + z*z)"
  have "sqrt (1 / 10 ^ 24) \<le> n" unfolding n_def using assms(1)
    by (intro real_sqrt_le_mono) (simp add: q quat_norm2_def)
  moreover have "sqrt (1 / 10 ^ 24) = (1 / 10 ^ 12 :: real)"
    by (rule real_sqrt_unique) (simp_all add: power2_eq_square)
  ultimately have n: "1 / 10 ^ 12 \<le> n" by simp
  then have n0: "0 < n" by (smt (verit) divide_pos_pos zero_less_power)
  have "(s*w)*(s*w) + (s*x)*(s*x) + (s*y)*(s*y) + (s*z)*(s*z) = (s * s) * (w*w + x*x + y*y + z*z)"
    by (simp add: algebra_simps)
  then have "sqrt ((s*w)*(s*w) + (s*x)*(s*x) + (s*y)*(s*y) + (s*z)*(s*z)) = s * n"
    using assms(2) by (simp add: n_def real_sqrt_mult)
  moreover have "1 / 10 ^ 12 \<le> s * n"
    using n n0 assms(2) by (smt (verit) mult_le_cancel_right1)
  moreover have "max (s * n) (1 / 10 ^ 12) = s * n" "max n (1 / 10 ^ 12) = n"
    using n calculation(2) by (simp_all only: max.absorb1)
  ultimately show ?thesis
    using n0 assms(2) by (simp only: q quat_unit.simps Let_def case_prod_conv n_def[symmetric]) simp
qed

end
