(* ===== verification/Smpl_Fk.thy ===== *)
theory Smpl_Fk
  imports Policy Vec3
begin

text \<open>
  The operator's body on the canonical skeleton: the constant tables of
  \<open>include/teleop/smpl_skeleton.hpp\<close>, the forward kinematics of
  \<open>src/teleop/smpl_fk.cpp\<close> and the arms rebuilt from the tracked wrists of
  \<open>src/teleop/smpl_arm_reach.cpp\<close>, over ideal reals.
\<close>

section \<open>The skeleton\<close>

definition kSmplXNumJoints :: nat where "kSmplXNumJoints = 55"
definition kSmplNumJoints :: nat where "kSmplNumJoints = 24"

definition kSmplXParents :: "int list" where
  "kSmplXParents =
    [- 1, 0, 0, 0, 1, 2, 3, 4, 5, 6, 7, 8, 9, 9, 9, 12, 13, 14, 16, 17,
     18, 19, 15, 15, 15, 20, 25, 26, 20, 28, 29, 20, 31, 32, 20, 34, 35, 20, 37, 38,
     21, 40, 41, 21, 43, 44, 21, 46, 47, 21, 49, 50, 21, 52, 53]"

definition kSmplXRestJoints :: "vec3 list" where
  "kSmplXRestJoints =
    [(0.00312326057, - 0.351407468, 0.0120365508),
     (0.0613126531, - 0.444170952, - 0.0139646353),
     (- 0.0601442158, - 0.455315471, - 0.0092138201),
     (0.000360562059, - 0.241516858, - 0.0155810807),
     (0.11600811, - 0.822924376, - 0.0233606994),
     (- 0.104354173, - 0.817695558, - 0.0260377023),
     (0.00980826095, - 0.109663606, - 0.0215210654),
     (0.0725546628, - 1.22598386, - 0.055236645),
     (- 0.0889373645, - 1.22842336, - 0.0462299734),
     (- 0.00152215292, - 0.0574284494, 0.00692583201),
     (0.119811967, - 1.2839812, 0.0629796833),
     (- 0.127749771, - 1.28675175, 0.0728190243),
     (- 0.0136866113, 0.107738607, - 0.0246895105),
     (0.0448420048, 0.0275152735, - 0.000294650905),
     (- 0.0492170788, 0.0269102231, - 0.00647406979),
     (0.0110968733, 0.268190414, - 0.00395224523),
     (0.164081037, 0.0852432996, - 0.0157555901),
     (- 0.151794821, 0.0804346725, - 0.0191425979),
     (0.41820389, 0.0130927814, - 0.0582144447),
     (- 0.422944367, 0.0439421907, - 0.0456096828),
     (0.670190632, 0.0363140106, - 0.060686525),
     (- 0.672211826, 0.0394096449, - 0.0609348677),
     (- 0.00466776267, 0.267670691, - 0.00959140249),
     (0.0315992832, 0.310832113, 0.0621951744),
     (- 0.0315998755, 0.310831934, 0.0621943437),
     (0.772092462, 0.02762587, - 0.041335389),
     (0.804040849, 0.0298441313, - 0.0383249447),
     (0.82658577, 0.0274940506, - 0.0382703729),
     (0.779588163, 0.0299863424, - 0.0646673366),
     (0.81019938, 0.0307937432, - 0.0686899945),
     (0.833714783, 0.028784994, - 0.07280422),
     (0.754237473, 0.0217746813, - 0.104436137),
     (0.769708216, 0.0206431001, - 0.116435573),
     (0.785241723, 0.0189785324, - 0.127652526),
     (0.767634928, 0.0270463768, - 0.0880311728),
     (0.795681715, 0.0285318363, - 0.0932971463),
     (0.818503499, 0.027073551, - 0.100391433),
     (0.710826397, 0.0183372851, - 0.0350756459),
     (0.727842093, 0.0193130989, - 0.0100975055),
     (0.748365223, 0.0141535439, 0.005425571),
     (- 0.772092402, 0.0276267808, - 0.0413349308),
     (- 0.804040551, 0.0298446734, - 0.0383240953),
     (- 0.826585472, 0.0274952874, - 0.0382686853),
     (- 0.779588223, 0.0299876984, - 0.0646686926),
     (- 0.81019938, 0.0307951719, - 0.0686915368),
     (- 0.833714902, 0.0287858527, - 0.0728055611),
     (- 0.754238546, 0.0217752066, - 0.104437806),
     (- 0.769708991, 0.0206431337, - 0.116436549),
     (- 0.785242379, 0.0189783983, - 0.127652839),
     (- 0.767635286, 0.027047703, - 0.0880335942),
     (- 0.795681715, 0.0285329074, - 0.0932995006),
     (- 0.818503737, 0.0270741172, - 0.100392245),
     (- 0.710824966, 0.0183352213, - 0.0350735225),
     (- 0.727840304, 0.0193113182, - 0.0100959428),
     (- 0.748365939, 0.0141541166, 0.00542560499)]"

definition kSmplOutputJoints :: "nat list" where
  "kSmplOutputJoints =
    [0, 1, 2, 3, 4, 5, 6, 7, 8, 9, 10, 11, 12, 13, 14, 15, 16, 17, 18, 19, 20, 21, 39, 54]"

definition kSmplStreamParents :: "int list" where
  "kSmplStreamParents =
    [- 1, 0, 0, 0, 1, 2, 3, 4, 5, 6, 7, 8, 9, 9, 9, 12, 13, 14, 16, 17, 18, 19, 20, 22]"

text \<open>One joint of the device stream: \<open>x, y, z, qx, qy, qz, qw\<close>.\<close>

type_synonym body_joint = "real list"
type_synonym body_pose = "body_joint list"

definition body_ok :: "body_pose \<Rightarrow> bool" where
  "body_ok b \<longleftrightarrow> length b = 24 \<and> list_all (\<lambda>j. length j = 7) b"

definition joint_quat :: "body_joint \<Rightarrow> quat" where
  "joint_quat j = (j ! 6, j ! 3, j ! 4, j ! 5)"

section \<open>Rotation helpers\<close>

definition quat_from_rotvec :: "vec3 \<Rightarrow> quat" where
  "quat_from_rotvec v =
     (let angle = sqrt (v3_dot v v)
      in if angle < 1 / 10 ^ 12 then (1, 0, 0, 0) else quat_from_angle_axis angle v)"

definition rotvec_from_quat :: "quat \<Rightarrow> vec3" where
  "rotvec_from_quat q_in =
     (let q0 = quat_unit q_in;
          q = (if fst q0 < 0 then quat_neg q0 else q0)
      in case q of (w, x, y, z) \<Rightarrow>
           let vn = sqrt (x*x + y*y + z*z)
           in if vn < 1 / 10 ^ 12 then (0, 0, 0)
              else let angle = 2 * atan2 vn w in (x / vn * angle, y / vn * angle, z / vn * angle))"

fun euler_xyz_intrinsic :: "mat3 \<Rightarrow> vec3" where
  "euler_xyz_intrinsic ((m00, m01, m02), (m10, m11, m12), (m20, m21, m22)) =
     (let cb = sqrt (m00 * m00 + m01 * m01)
      in (atan2 (- m12) m22, atan2 m02 cb, atan2 (- m01) m00))"

fun mat_apply :: "mat3 \<Rightarrow> vec3 \<Rightarrow> vec3" where
  "mat_apply ((m00, m01, m02), (m10, m11, m12), (m20, m21, m22)) (v0, v1, v2) =
     (m00 * v0 + m01 * v1 + m02 * v2, m10 * v0 + m11 * v1 + m12 * v2, m20 * v0 + m21 * v1 + m22 * v2)"

fun mat_mul :: "mat3 \<Rightarrow> mat3 \<Rightarrow> mat3" where
  "mat_mul ((a00, a01, a02), (a10, a11, a12), (a20, a21, a22))
           ((b00, b01, b02), (b10, b11, b12), (b20, b21, b22)) =
     ((a00*b00 + a01*b10 + a02*b20, a00*b01 + a01*b11 + a02*b21, a00*b02 + a01*b12 + a02*b22),
      (a10*b00 + a11*b10 + a12*b20, a10*b01 + a11*b11 + a12*b21, a10*b02 + a11*b12 + a12*b22),
      (a20*b00 + a21*b10 + a22*b20, a20*b01 + a21*b11 + a22*b21, a20*b02 + a21*b12 + a22*b22))"

text \<open>The twist about an axis and the remaining swing.\<close>

definition swing_twist :: "vec3 \<Rightarrow> vec3 \<Rightarrow> quat \<times> quat" where
  "swing_twist rotvec axis =
     (let q = quat_from_rotvec rotvec
      in case (q, axis) of ((w, x, y, z), (a0, a1, a2)) \<Rightarrow>
           let d = x * a0 + y * a1 + z * a2;
               twist = quat_unit (w, d * a0, d * a1, d * a2)
           in (twist, quat_mul (quat_conjugate twist) q))"

definition kornia_eps :: real where "kornia_eps = 1 / 10 ^ 6"

definition rotmat_from_rotvec_kornia :: "vec3 \<Rightarrow> mat3" where
  "rotmat_from_rotvec_kornia v =
     (case v of (v0, v1, v2) \<Rightarrow>
       let theta2 = v0*v0 + v1*v1 + v2*v2
       in if theta2 \<le> kornia_eps
          then ((1, - v2, v1), (v2, 1, - v0), (- v1, v0, 1))
          else let theta = sqrt (max theta2 kornia_eps);
                   wx = v0 / (theta + kornia_eps); wy = v1 / (theta + kornia_eps); wz = v2 / (theta + kornia_eps);
                   c = cos theta; s = sin theta; k = 1 - c
               in ((c + wx*wx*k, wx*wy*k - wz*s, wy*s + wx*wz*k),
                   (wz*s + wx*wy*k, c + wy*wy*k, - wx*s + wy*wz*k),
                   (- wy*s + wx*wz*k, wx*s + wy*wz*k, c + wz*wz*k)))"

section \<open>Forward kinematics\<close>

text \<open>One iteration of the chain, over the rotations and positions computed so far.\<close>

definition bone :: "nat \<Rightarrow> vec3" where
  "bone i = (let p = kSmplXParents ! i
     in if p < 0 then kSmplXRestJoints ! i else v3_sub (kSmplXRestJoints ! i) (kSmplXRestJoints ! nat p))"

definition fk_joint :: "vec3 list \<Rightarrow> nat \<Rightarrow> mat3 list \<times> vec3 list \<Rightarrow> mat3 list \<times> vec3 list" where
  "fk_joint pose i st =
     (case st of (rot, pos) \<Rightarrow>
       let r = rotmat_from_rotvec_kornia (pose ! i);
           p = kSmplXParents ! i
       in if p < 0 then (rot @ [r], pos @ [bone i])
          else (rot @ [mat_mul (rot ! nat p) r],
                pos @ [v3_add (pos ! nat p) (mat_apply (rot ! nat p) (bone i))]))"

definition smpl_fk_chain :: "vec3 list \<Rightarrow> vec3 list" where
  "smpl_fk_chain pose = snd (fold (fk_joint pose) [0..<kSmplXNumJoints] ([], []))"

definition kSmplBaseRot :: quat where "kSmplBaseRot = (1/2, 1/2, 1/2, 1/2)"

definition smpl_global_rot :: "body_pose \<Rightarrow> nat \<Rightarrow> quat" where
  "smpl_global_rot body i =
     quat_mul (quat_unit (joint_quat (body ! i))) (quat_from_angle_axis pi (0, 1, 0))"

definition smpl_pose_aa :: "body_pose \<Rightarrow> nat \<Rightarrow> vec3" where
  "smpl_pose_aa body i =
     (let p = kSmplStreamParents ! i;
          local = (if p < 0 then smpl_global_rot body i
                   else quat_mul (quat_conjugate (smpl_global_rot body (nat p))) (smpl_global_rot body i))
      in rotvec_from_quat local)"

text \<open>The root turned Z-up, then the 55 axis angles with hands and face at rest.\<close>

definition smpl_root :: "body_pose \<Rightarrow> quat" where
  "smpl_root body =
     quat_mul (quat_from_angle_axis (pi / 2) (1, 0, 0)) (quat_from_rotvec (smpl_pose_aa body 0))"

definition smpl_full_pose :: "body_pose \<Rightarrow> vec3 list" where
  "smpl_full_pose body =
     rotvec_from_quat (smpl_root body) # map (smpl_pose_aa body) [1..<22] @ replicate 33 (0, 0, 0)"

text \<open>The six wrist targets from the axis angles of elbows and wrists.\<close>

definition smpl_wrists :: "vec3 \<Rightarrow> vec3 \<Rightarrow> vec3 \<Rightarrow> vec3 \<Rightarrow> real list" where
  "smpl_wrists aa18 aa19 aa20 aa21 =
     (let l_sw = snd (swing_twist aa18 (0, 1, 0));
          r_sw = snd (swing_twist aa19 (0, 1, 0));
          l_elbow = euler_xyz_intrinsic (quat_to_rotation_matrix l_sw);
          r_elbow = euler_xyz_intrinsic (quat_to_rotation_matrix r_sw);
          l_wrist = euler_xyz_intrinsic (quat_to_rotation_matrix (quat_from_rotvec aa20));
          r_wrist = euler_xyz_intrinsic (quat_to_rotation_matrix (quat_from_rotvec aa21));
          l_roll = fst l_elbow + fst l_wrist;
          l_pitch = - fst (snd l_wrist);
          l_yaw = snd (snd l_elbow) + snd (snd l_wrist);
          r_roll = - (fst r_elbow + fst r_wrist);
          r_pitch = - fst (snd r_wrist);
          r_yaw = snd (snd r_elbow) + snd (snd r_wrist)
      in [l_roll, r_roll, - l_pitch, r_pitch, l_yaw, r_yaw])"

definition smpl_fk :: "body_pose \<Rightarrow> smpl_pose" where
  "smpl_fk body =
     (let joints55 = smpl_fk_chain (smpl_full_pose body);
          q_root = quat_mul (smpl_root body) (quat_conjugate kSmplBaseRot);
          q_root_inv = quat_conjugate q_root
      in \<lparr>joints_local = map (\<lambda>k. quat_rotate q_root_inv (joints55 ! (kSmplOutputJoints ! k))) [0..<kSmplNumJoints],
          anchor_quat = q_root,
          wrist_joint_pos = smpl_wrists (smpl_pose_aa body 18) (smpl_pose_aa body 19)
            (smpl_pose_aa body 20) (smpl_pose_aa body 21)\<rparr>)"

section \<open>The kornia matrix is a rotation up to a millionth\<close>

lemma mat_apply_mul: "mat_apply (mat_mul a b) v = mat_apply a (mat_apply b v)"
  by (cases a rule: prod_cases3; cases b rule: prod_cases3; cases v) (auto simp: algebra_simps)

lemma rodrigues_norm2:
  fixes c s :: real and w v :: vec3
  assumes "s * s = 1 - c * c" "w = (wx, wy, wz)" "k = 1 - c"
  shows "v3_dot (mat_apply ((c + wx*wx*k, wx*wy*k - wz*s, wy*s + wx*wz*k),
                   (wz*s + wx*wy*k, c + wy*wy*k, - wx*s + wy*wz*k),
                   (- wy*s + wx*wz*k, wx*s + wy*wz*k, c + wz*wz*k)) v)
           (mat_apply ((c + wx*wx*k, wx*wy*k - wz*s, wy*s + wx*wz*k),
                   (wz*s + wx*wy*k, c + wy*wy*k, - wx*s + wy*wz*k),
                   (- wy*s + wx*wz*k, wx*s + wy*wz*k, c + wz*wz*k)) v)
    = v3_dot v v - (1 - v3_dot w w) * ((1 - c * c) * v3_dot v v + (1 - c) * (1 - c) * (v3_dot w v * v3_dot w v))"
proof -
  obtain x y z where v: "v = (x, y, z)" by (cases v)
  show ?thesis
    unfolding v assms(2,3) mat_apply.simps v3_dot.simps using assms(1) by algebra
qed

lemma first_order_norm2:
  "v3_dot (mat_apply ((1, - v2, v1), (v2, 1, - v0), (- v1, v0, 1)) u)
          (mat_apply ((1, - v2, v1), (v2, 1, - v0), (- v1, v0, 1)) u)
    = v3_dot u u + v3_dot (v3_cross (v0, v1, v2) u) (v3_cross (v0, v1, v2) u)"
  by (cases u) (simp add: algebra_simps)

lemma one_minus_cos_le:
  assumes "0 < t"
  shows "1 - cos t \<le> (t :: real)"
proof -
  have "cos t = 1 - 2 * (sin (t / 2) * sin (t / 2))"
    using cos_double_sin[of "t / 2"] by (simp add: power2_eq_square)
  moreover have "\<bar>sin (t / 2)\<bar> \<le> t / 2" using abs_sin_x_le_abs_x[of "t / 2"] assms by simp
  then have "\<bar>sin (t / 2)\<bar> * \<bar>sin (t / 2)\<bar> \<le> (t / 2) * 1"
    using abs_sin_le_one[of "t / 2"] assms by (intro mult_mono) auto
  then have "sin (t / 2) * sin (t / 2) \<le> t / 2" by simp
  ultimately show ?thesis by simp
qed

lemma kornia_bounds:
  "(1 - 4 * kornia_eps) * v3_dot u u
     \<le> v3_dot (mat_apply (rotmat_from_rotvec_kornia v) u) (mat_apply (rotmat_from_rotvec_kornia v) u)"
  "v3_dot (mat_apply (rotmat_from_rotvec_kornia v) u) (mat_apply (rotmat_from_rotvec_kornia v) u)
     \<le> (1 + kornia_eps) * v3_dot u u"
proof -
  obtain v0 v1 v2 where v: "v = (v0, v1, v2)" by (cases v)
  define q where "q = v0*v0 + v1*v1 + v2*v2"
  have q: "q = v3_dot v v" "0 \<le> q" by (simp_all add: q_def v)
  let ?M = "rotmat_from_rotvec_kornia v"
  let ?n = "v3_dot (mat_apply ?M u) (mat_apply ?M u)"
  have eps: "0 < kornia_eps" by (simp add: kornia_eps_def)
  have "(1 - 4 * kornia_eps) * v3_dot u u \<le> ?n \<and> ?n \<le> (1 + kornia_eps) * v3_dot u u"
  proof (cases "q \<le> kornia_eps")
    case True
    then have M: "?M = ((1, - v2, v1), (v2, 1, - v0), (- v1, v0, 1))"
      by (simp add: rotmat_from_rotvec_kornia_def v q_def)
    let ?c = "v3_dot (v3_cross v u) (v3_cross v u)"
    have n: "?n = v3_dot u u + ?c" unfolding M first_order_norm2 by (simp only: v)
    have "?c \<le> q * v3_dot u u"
      using v3_lagrange[of v u] zero_le_square[of "v3_dot v u"] unfolding q(1) by linarith
    also have "\<dots> \<le> kornia_eps * v3_dot u u" using True by (intro mult_right_mono) simp_all
    finally have "?n \<le> (1 + kornia_eps) * v3_dot u u" unfolding n by (simp add: algebra_simps)
    moreover have "(1 - 4 * kornia_eps) * v3_dot u u \<le> 1 * v3_dot u u"
      using eps by (intro mult_right_mono) simp_all
    then have "(1 - 4 * kornia_eps) * v3_dot u u \<le> ?n"
      unfolding n using v3_dot_nonneg[of "v3_cross v u"] by linarith
    ultimately show ?thesis by blast
  next
    case False
    define t where "t = sqrt q"
    define w where "w = (v0 / (t + kornia_eps), v1 / (t + kornia_eps), v2 / (t + kornia_eps))"
    define e where "e = 1 - v3_dot w w"
    have t: "0 < t" "t * t = q" using False eps q by (simp_all add: t_def)
    let ?c = "cos t" and ?s = "sin t"
    have ss: "?s * ?s = 1 - ?c * ?c" using sin_squared_eq[of t] by (simp add: power2_eq_square)
    have "sqrt (max q kornia_eps) = t" using False by (simp add: t_def max_def)
    then have n: "?n = v3_dot u u - e * ((1 - ?c * ?c) * v3_dot u u
        + (1 - ?c) * (1 - ?c) * (v3_dot w u * v3_dot w u))"
      unfolding e_def using rodrigues_norm2[OF ss, of w _ _ _ "1 - ?c" u] False
      by (simp add: rotmat_from_rotvec_kornia_def v w_def Let_def flip: q_def)
    have ww: "v3_dot w w = q / ((t + kornia_eps) * (t + kornia_eps))"
      by (simp add: w_def q_def add_divide_distrib)
    have e0: "0 \<le> e" and e1: "e * t \<le> 2 * kornia_eps"
    proof -
      let ?d = "(t + kornia_eps) * (t + kornia_eps)"
      have d: "0 < ?d" using t eps by simp
      have e: "e * ?d = 2 * t * kornia_eps + kornia_eps * kornia_eps"
        using t(1) eps by (simp add: e_def ww left_diff_distrib flip: t(2)) (simp add: algebra_simps)
      then have "0 \<le> e * ?d" using t eps by simp
      then show "0 \<le> e" using d by (simp add: zero_le_mult_iff)
      have "e * t * ?d = t * (2 * t * kornia_eps + kornia_eps * kornia_eps)" using e by algebra
      also have "\<dots> \<le> 2 * kornia_eps * ?d" using t eps
        by (simp add: algebra_simps) (simp add: add_increasing2 mult_nonneg_nonneg)
      finally show "e * t \<le> 2 * kornia_eps" using d by (rule mult_right_le_imp_le)
    qed
    have wu: "0 \<le> v3_dot w u * v3_dot w u" "v3_dot w u * v3_dot w u \<le> v3_dot u u"
    proof -
      have "v3_dot w u * v3_dot w u \<le> v3_dot w w * v3_dot u u"
        using v3_lagrange[of w u] v3_dot_nonneg[of "v3_cross w u"] by linarith
      also have "\<dots> \<le> 1 * v3_dot u u" using e0 by (intro mult_right_mono) (simp_all add: e_def)
      finally show "v3_dot w u * v3_dot w u \<le> v3_dot u u" by simp
    qed simp
    have c: "0 \<le> 1 - ?c * ?c" "0 \<le> 1 - ?c"
      using ss zero_le_square[of ?s] cos_le_one[of t] by linarith+
    define b where "b = (1 - ?c * ?c) * v3_dot u u + (1 - ?c) * (1 - ?c) * (v3_dot w u * v3_dot w u)"
    have b0: "0 \<le> b" unfolding b_def
      by (rule add_nonneg_nonneg[OF mult_nonneg_nonneg[OF c(1) v3_dot_nonneg]
            mult_nonneg_nonneg[OF mult_nonneg_nonneg[OF c(2) c(2)] wu(1)]])
    have "b \<le> (1 - ?c * ?c) * v3_dot u u + (1 - ?c) * (1 - ?c) * v3_dot u u"
      unfolding b_def
      by (intro add_left_mono mult_left_mono[OF wu(2)] mult_nonneg_nonneg[OF c(2) c(2)])
    also have "\<dots> = 2 * (1 - ?c) * v3_dot u u" by algebra
    also have "\<dots> \<le> 2 * t * v3_dot u u"
      using one_minus_cos_le[OF t(1)] by (intro mult_right_mono) simp_all
    finally have "e * b \<le> e * (2 * t * v3_dot u u)" using e0 by (rule mult_left_mono)
    also have "\<dots> = 2 * (e * t) * v3_dot u u" by simp
    also have "\<dots> \<le> 2 * (2 * kornia_eps) * v3_dot u u" using e1 by (intro mult_right_mono) simp_all
    finally have lower: "e * b \<le> 4 * kornia_eps * v3_dot u u" by simp
    have "0 \<le> kornia_eps * v3_dot u u" "0 \<le> e * b" using eps e0 b0 by simp_all
    with lower show ?thesis unfolding n b_def[symmetric] by (simp add: algebra_simps)
  qed
  then show "(1 - 4 * kornia_eps) * v3_dot u u \<le> ?n" "?n \<le> (1 + kornia_eps) * v3_dot u u" by simp_all
qed

section \<open>The posed skeleton\<close>

definition fk_state :: "vec3 list \<Rightarrow> nat \<Rightarrow> mat3 list \<times> vec3 list" where
  "fk_state pose n = fold (fk_joint pose) [0..<n] ([], [])"

lemma fk_state_Suc: "fk_state pose (Suc n) = fk_joint pose n (fk_state pose n)"
  by (simp add: fk_state_def)

definition parents_ok :: bool where
  "parents_ok \<longleftrightarrow> length kSmplXParents = 55 \<and> length kSmplXRestJoints = 55 \<and> hd kSmplXParents < 0
     \<and> list_all (\<lambda>i. 0 \<le> kSmplXParents ! i \<and> nat (kSmplXParents ! i) < i) [1..<55]"

lemma parents_ok: parents_ok
proof -
  have "list_all (\<lambda>i. 0 \<le> kSmplXParents ! i \<and> nat (kSmplXParents ! i) < i) [1..<55]"
    by code_simp
  moreover have "length kSmplXParents = 55" "length kSmplXRestJoints = 55" "hd kSmplXParents < 0"
    by (simp_all add: kSmplXParents_def kSmplXRestJoints_def)
  ultimately show ?thesis unfolding parents_ok_def by blast
qed

lemma parent_before:
  assumes "0 < i" "i < 55"
  shows "0 \<le> kSmplXParents ! i" "nat (kSmplXParents ! i) < i"
  using parents_ok assms by (auto simp: parents_ok_def list_all_iff)

lemma root_parent: "kSmplXParents ! 0 < 0"
  by (simp add: kSmplXParents_def)

definition nearly_rotates :: "nat \<Rightarrow> mat3 \<Rightarrow> bool" where
  "nearly_rotates n m \<longleftrightarrow>
     (\<forall>v. (1 - 4 * kornia_eps) ^ n * v3_dot v v \<le> v3_dot (mat_apply m v) (mat_apply m v)
        \<and> v3_dot (mat_apply m v) (mat_apply m v) \<le> (1 + kornia_eps) ^ n * v3_dot v v)"

lemma kornia_factors: "0 < 1 - 4 * kornia_eps" "1 - 4 * kornia_eps \<le> 1" "1 \<le> 1 + kornia_eps"
  by (simp_all add: kornia_eps_def)

lemma nearly_rotates_mono:
  assumes "nearly_rotates n m" "n \<le> k"
  shows "nearly_rotates k m"
proof -
  have "(1 - 4 * kornia_eps) ^ k \<le> (1 - 4 * kornia_eps) ^ n" "(1 + kornia_eps) ^ n \<le> (1 + kornia_eps) ^ k"
    using assms(2) kornia_factors by (simp_all add: power_decreasing power_increasing)
  then have "(1 - 4 * kornia_eps) ^ k * v3_dot v v \<le> (1 - 4 * kornia_eps) ^ n * v3_dot v v"
    "(1 + kornia_eps) ^ n * v3_dot v v \<le> (1 + kornia_eps) ^ k * v3_dot v v" for v
    by (simp_all add: mult_right_mono)
  with assms(1) show ?thesis unfolding nearly_rotates_def by (meson order_trans)
qed

lemma nearly_rotates_kornia: "nearly_rotates 1 (rotmat_from_rotvec_kornia v)"
  unfolding nearly_rotates_def using kornia_bounds by simp

lemma nearly_rotates_mul:
  assumes "nearly_rotates n a" "nearly_rotates 1 b"
  shows "nearly_rotates (Suc n) (mat_mul a b)"
  unfolding nearly_rotates_def mat_apply_mul
proof (intro allI conjI)
  fix v
  let ?b = "mat_apply b v"
  have a: "(1 - 4 * kornia_eps) ^ n * v3_dot ?b ?b \<le> v3_dot (mat_apply a ?b) (mat_apply a ?b)"
    "v3_dot (mat_apply a ?b) (mat_apply a ?b) \<le> (1 + kornia_eps) ^ n * v3_dot ?b ?b"
    using assms(1) unfolding nearly_rotates_def by blast+
  have b: "(1 - 4 * kornia_eps) * v3_dot v v \<le> v3_dot ?b ?b" "v3_dot ?b ?b \<le> (1 + kornia_eps) * v3_dot v v"
    using assms(2) unfolding nearly_rotates_def power_one_right by blast+
  have "(1 - 4 * kornia_eps) ^ n * ((1 - 4 * kornia_eps) * v3_dot v v) \<le> (1 - 4 * kornia_eps) ^ n * v3_dot ?b ?b"
    using b(1) kornia_factors by (intro mult_left_mono) simp_all
  with a(1) show "(1 - 4 * kornia_eps) ^ Suc n * v3_dot v v \<le> v3_dot (mat_apply a ?b) (mat_apply a ?b)"
    by (simp add: mult_ac)
  have "(1 + kornia_eps) ^ n * v3_dot ?b ?b \<le> (1 + kornia_eps) ^ n * ((1 + kornia_eps) * v3_dot v v)"
    using b(2) kornia_factors by (intro mult_left_mono) simp_all
  with a(2) show "v3_dot (mat_apply a ?b) (mat_apply a ?b) \<le> (1 + kornia_eps) ^ Suc n * v3_dot v v"
    by (simp add: mult_ac)
qed

text \<open>What holds of the rotations and positions computed so far.\<close>

definition fk_inv :: "vec3 list \<Rightarrow> nat \<Rightarrow> mat3 list \<times> vec3 list \<Rightarrow> bool" where
  "fk_inv pose n st \<longleftrightarrow> (case st of (rot, pos) \<Rightarrow>
     length rot = n \<and> length pos = n
     \<and> (\<forall>i<n. nearly_rotates (Suc i) (rot ! i))
     \<and> (0 < n \<longrightarrow> pos ! 0 = bone 0)
     \<and> (\<forall>i<n. 0 < i \<longrightarrow> rot ! i = mat_mul (rot ! nat (kSmplXParents ! i)) (rotmat_from_rotvec_kornia (pose ! i))
         \<and> pos ! i = v3_add (pos ! nat (kSmplXParents ! i)) (mat_apply (rot ! nat (kSmplXParents ! i)) (bone i))))"

lemma fk_inv_state: "n \<le> 55 \<Longrightarrow> fk_inv pose n (fk_state pose n)"
proof (induction n)
  case 0
  show ?case by (simp add: fk_inv_def fk_state_def)
next
  case (Suc n)
  obtain rot pos where st: "fk_state pose n = (rot, pos)" by (cases "fk_state pose n")
  from Suc st have IH: "length rot = n" "length pos = n"
    "\<And>i. i < n \<Longrightarrow> nearly_rotates (Suc i) (rot ! i)" "0 < n \<Longrightarrow> pos ! 0 = bone 0"
    "\<And>i. i < n \<Longrightarrow> 0 < i \<Longrightarrow> rot ! i = mat_mul (rot ! nat (kSmplXParents ! i)) (rotmat_from_rotvec_kornia (pose ! i))"
    "\<And>i. i < n \<Longrightarrow> 0 < i \<Longrightarrow> pos ! i = v3_add (pos ! nat (kSmplXParents ! i)) (mat_apply (rot ! nat (kSmplXParents ! i)) (bone i))"
    by (auto simp: fk_inv_def)
  show ?case
  proof (cases "n = 0")
    case True
    have "fk_state pose 0 = ([], [])" by (simp add: fk_state_def)
    with True show ?thesis
      using nearly_rotates_kornia root_parent by (simp add: fk_state_Suc fk_joint_def fk_inv_def)
  next
    case False
    let ?p = "nat (kSmplXParents ! n)" and ?r = "rotmat_from_rotvec_kornia (pose ! n)"
    have p: "\<not> kSmplXParents ! n < 0" "?p < n" using parent_before[of n] False Suc.prems by auto
    have next_st: "fk_state pose (Suc n) =
        (rot @ [mat_mul (rot ! ?p) ?r], pos @ [v3_add (pos ! ?p) (mat_apply (rot ! ?p) (bone n))])"
      using p by (simp add: fk_state_Suc st fk_joint_def Let_def)
    have near: "nearly_rotates (Suc n) (mat_mul (rot ! ?p) ?r)"
      using nearly_rotates_mul[OF nearly_rotates_mono[OF IH(3)[OF p(2)], of n] nearly_rotates_kornia] p(2)
      by simp
    have before: "nat (kSmplXParents ! i) < n" if "i < n" "0 < i" for i
      using parent_before[of i] that Suc.prems by simp
    show ?thesis
      unfolding next_st fk_inv_def using IH p near before False
      by (auto simp: nth_append less_Suc_eq)
  qed
qed

lemma relative_error: "(1 - d) * b \<le> a \<Longrightarrow> a \<le> (1 + d) * b \<Longrightarrow> \<bar>a - b\<bar> \<le> d * (b :: real)"
  by (simp add: abs_le_iff algebra_simps)

lemma nearly_rotates_length:
  assumes "nearly_rotates n m" "n \<le> 22"
  shows "\<bar>v3_norm (mat_apply m v) - v3_norm v\<bar> \<le> 5 / 10 ^ 5 * v3_norm v"
proof -
  let ?d = "5 / 10 ^ 5 :: real"
  have pow: "(1 - ?d)\<^sup>2 \<le> (1 - 4 * kornia_eps) ^ 22" "(1 + kornia_eps) ^ 22 \<le> (1 + ?d)\<^sup>2"
    by (simp_all add: kornia_eps_def power2_eq_square power_divide)
  have m: "(1 - 4 * kornia_eps) ^ 22 * v3_dot v v \<le> v3_dot (mat_apply m v) (mat_apply m v)"
    "v3_dot (mat_apply m v) (mat_apply m v) \<le> (1 + kornia_eps) ^ 22 * v3_dot v v"
    using nearly_rotates_mono[OF assms] unfolding nearly_rotates_def by blast+
  have sq: "(r * v3_norm v)\<^sup>2 = r\<^sup>2 * v3_dot v v" for r
    by (simp add: power2_eq_square mult_ac flip: v3_norm_mult)
  have "((1 - ?d) * v3_norm v)\<^sup>2 \<le> (v3_norm (mat_apply m v))\<^sup>2"
    unfolding sq using mult_right_mono[OF pow(1) v3_dot_nonneg[of v]] m(1)
    by (simp only: power2_eq_square[of "v3_norm _"] v3_norm_mult)
  then have "(1 - ?d) * v3_norm v \<le> v3_norm (mat_apply m v)" by (rule power2_le_imp_le) simp
  moreover have "(v3_norm (mat_apply m v))\<^sup>2 \<le> ((1 + ?d) * v3_norm v)\<^sup>2"
    unfolding sq using mult_right_mono[OF pow(2) v3_dot_nonneg[of v]] m(2)
    by (simp only: power2_eq_square[of "v3_norm _"] v3_norm_mult)
  then have "v3_norm (mat_apply m v) \<le> (1 + ?d) * v3_norm v" by (rule power2_le_imp_le) simp
  ultimately show ?thesis by (rule relative_error)
qed

lemma mat_apply_add: "mat_apply m (v3_add a b) = v3_add (mat_apply m a) (mat_apply m b)"
  by (cases m rule: prod_cases3; cases a; cases b) (auto simp: algebra_simps)

lemma v3_add_assoc: "v3_add (v3_add a b) c = v3_add a (v3_add b c)"
  by (cases a; cases b; cases c) simp

lemma mat_mul_rest: "mat_mul m (rotmat_from_rotvec_kornia (0, 0, 0)) = m"
  by (cases m rule: prod_cases3) (auto simp: rotmat_from_rotvec_kornia_def kornia_eps_def Let_def)

lemma chain_state:
  obtains rot where "fk_inv pose 55 (rot, smpl_fk_chain pose)"
proof -
  have "smpl_fk_chain pose = snd (fk_state pose 55)"
    by (simp add: smpl_fk_chain_def fk_state_def kSmplXNumJoints_def)
  then have "fk_state pose 55 = (fst (fk_state pose 55), smpl_fk_chain pose)" by simp
  then show thesis using that fk_inv_state[of 55 pose] by (metis order_refl)
qed

lemma chain_bone:
  assumes "0 < i" "i < 22"
  shows "\<bar>v3_norm (v3_sub (smpl_fk_chain pose ! i) (smpl_fk_chain pose ! nat (kSmplXParents ! i)))
      - v3_norm (bone i)\<bar> \<le> 5 / 10 ^ 5 * v3_norm (bone i)"
proof -
  obtain rot where inv: "fk_inv pose 55 (rot, smpl_fk_chain pose)" by (rule chain_state)
  let ?p = "nat (kSmplXParents ! i)"
  have p: "?p < i" using parent_before[of i] assms by simp
  have "smpl_fk_chain pose ! i = v3_add (smpl_fk_chain pose ! ?p) (mat_apply (rot ! ?p) (bone i))"
    using inv assms unfolding fk_inv_def by auto
  then have diff: "v3_sub (smpl_fk_chain pose ! i) (smpl_fk_chain pose ! ?p) = mat_apply (rot ! ?p) (bone i)"
    by simp
  have "nearly_rotates (Suc ?p) (rot ! ?p)" using inv p assms unfolding fk_inv_def by auto
  then show ?thesis unfolding diff by (rule nearly_rotates_length) (use p assms in simp)
qed

lemma chain_root: "smpl_fk_chain pose ! 0 = bone 0"
  using chain_state[of pose] unfolding fk_inv_def by auto

text \<open>The joints of a hand at rest follow the wrist they hang on rigidly.\<close>

lemma chain_rest_step:
  assumes "fk_inv pose 55 (rot, pos)" "0 < i" "i < 55" "kSmplXParents ! i = int p"
    "pose ! i = (0, 0, 0)"
  shows "rot ! i = rot ! p" "pos ! i = v3_add (pos ! p) (mat_apply (rot ! p) (bone i))"
  using assms mat_mul_rest unfolding fk_inv_def by auto

lemma chain_thumb:
  fixes w a b c :: nat
  assumes "\<And>i. 22 \<le> i \<Longrightarrow> i < 55 \<Longrightarrow> pose ! i = (0, 0, 0)"
    and "(w, a, b, c) \<in> {(20, 37, 38, 39), (21, 52, 53, 54)}"
  shows "\<bar>v3_norm (v3_sub (smpl_fk_chain pose ! c) (smpl_fk_chain pose ! w))
      - v3_norm (v3_sub (kSmplXRestJoints ! c) (kSmplXRestJoints ! w))\<bar>
    \<le> 5 / 10 ^ 5 * v3_norm (v3_sub (kSmplXRestJoints ! c) (kSmplXRestJoints ! w))"
proof -
  obtain rot where inv: "fk_inv pose 55 (rot, smpl_fk_chain pose)" by (rule chain_state)
  let ?p = "smpl_fk_chain pose"
  have par: "kSmplXParents ! a = int w" "kSmplXParents ! b = int a" "kSmplXParents ! c = int b"
    "22 \<le> a" "22 \<le> b" "22 \<le> c" "a < 55" "b < 55" "c < 55" "w < 22"
    using assms(2) by (auto simp: kSmplXParents_def)
  note step = chain_rest_step[OF inv, of _]
  have A: "rot ! a = rot ! w" "?p ! a = v3_add (?p ! w) (mat_apply (rot ! w) (bone a))"
    using step[of a w] par assms(1) by auto
  have B: "rot ! b = rot ! w" "?p ! b = v3_add (?p ! a) (mat_apply (rot ! w) (bone b))"
    using step[of b a] par assms(1) A by auto
  have C: "?p ! c = v3_add (?p ! b) (mat_apply (rot ! w) (bone c))"
    using step[of c b] par assms(1) B by auto
  have diff: "v3_sub (?p ! c) (?p ! w) = mat_apply (rot ! w) (v3_add (bone a) (v3_add (bone b) (bone c)))"
    unfolding C B A by (simp add: v3_add_assoc mat_apply_add)
  have "v3_add (bone a) (v3_add (bone b) (bone c)) = v3_sub (kSmplXRestJoints ! c) (kSmplXRestJoints ! w)"
    using par by (cases "kSmplXRestJoints ! a"; cases "kSmplXRestJoints ! b"; cases "kSmplXRestJoints ! c";
        cases "kSmplXRestJoints ! w") (simp add: bone_def)
  moreover have "nearly_rotates (Suc w) (rot ! w)" using inv par unfolding fk_inv_def by auto
  ultimately show ?thesis
    unfolding diff using nearly_rotates_length[of "Suc w" "rot ! w"] par by simp
qed

lemma atan2_bounds: "\<bar>atan2 y x\<bar> \<le> pi"
proof (cases "x < 0")
  case True
  then have "y \<ge> 0 \<Longrightarrow> y / x \<le> 0" "y < 0 \<Longrightarrow> 0 \<le> y / x"
    by (simp_all add: divide_nonneg_neg divide_neg_neg less_imp_le)
  with True show ?thesis
    using arctan_ubound[of "y / x"] arctan_lbound[of "y / x"] pi_gt_zero
    by (auto simp: atan2_def abs_le_iff arctan_le_zero_iff zero_le_arctan_iff)
next
  case False
  then show ?thesis
    using arctan_ubound[of "y / x"] arctan_lbound[of "y / x"] pi_gt_zero
    by (auto simp: atan2_def abs_le_iff)
qed

lemma atan2_right_bounds: "0 \<le> x \<Longrightarrow> \<bar>atan2 y x\<bar> \<le> pi / 2"
  using arctan_ubound[of "y / x"] arctan_lbound[of "y / x"]
  by (auto simp: atan2_def abs_le_iff)

lemma euler_bounds:
  "\<bar>fst (euler_xyz_intrinsic m)\<bar> \<le> pi" "\<bar>fst (snd (euler_xyz_intrinsic m))\<bar> \<le> pi / 2"
  "\<bar>snd (snd (euler_xyz_intrinsic m))\<bar> \<le> pi"
proof -
  obtain m00 m01 m02 m10 m11 m12 m20 m21 m22
    where 1: "m = ((m00, m01, m02), (m10, m11, m12), (m20, m21, m22))"
    by (cases m rule: euler_xyz_intrinsic.cases)
  have "0 \<le> sqrt (m00 * m00 + m01 * m01)" by simp
  note right = atan2_right_bounds[OF this]
  show "\<bar>fst (euler_xyz_intrinsic m)\<bar> \<le> pi"
    "\<bar>fst (snd (euler_xyz_intrinsic m))\<bar> \<le> pi / 2" "\<bar>snd (snd (euler_xyz_intrinsic m))\<bar> \<le> pi"
    unfolding 1 euler_xyz_intrinsic.simps Let_def fst_conv snd_conv by (rule atan2_bounds right)+
qed

lemma wrist_bounds:
  fixes a b c d :: vec3
  defines "w \<equiv> smpl_wrists a b c d"
  shows "length w = 6" "\<bar>w ! 0\<bar> \<le> 2 * pi" "\<bar>w ! 1\<bar> \<le> 2 * pi" "\<bar>w ! 2\<bar> \<le> pi / 2" "\<bar>w ! 3\<bar> \<le> pi / 2"
    "\<bar>w ! 4\<bar> \<le> 2 * pi" "\<bar>w ! 5\<bar> \<le> 2 * pi"
proof -
  define e where "e m = euler_xyz_intrinsic (quat_to_rotation_matrix m)" for m
  have e: "\<bar>fst (e m)\<bar> \<le> pi" "\<bar>fst (snd (e m))\<bar> \<le> pi / 2" "\<bar>snd (snd (e m))\<bar> \<le> pi" for m
    unfolding e_def by (rule euler_bounds)+
  obtain p q r s where w: "w = [fst (e p) + fst (e r), - (fst (e q) + fst (e s)),
      - (- fst (snd (e r))), - fst (snd (e s)), snd (snd (e p)) + snd (snd (e r)), snd (snd (e q)) + snd (snd (e s))]"
    unfolding w_def smpl_wrists_def Let_def e_def[symmetric] by blast
  have two: "\<bar>x\<bar> \<le> pi \<Longrightarrow> \<bar>y\<bar> \<le> pi \<Longrightarrow> \<bar>x + y\<bar> \<le> 2 * pi" for x y :: real by linarith
  show "length w = 6" by (simp add: w)
  show "\<bar>w ! 0\<bar> \<le> 2 * pi" using two[OF e(1) e(1), of p r] by (simp add: w)
  show "\<bar>w ! 1\<bar> \<le> 2 * pi"
    using two[OF e(1) e(1), of q s] abs_minus_cancel[of "fst (e q) + fst (e s)"] unfolding w by simp
  show "\<bar>w ! 2\<bar> \<le> pi / 2" using e(2)[of r] unfolding w by simp
  show "\<bar>w ! 3\<bar> \<le> pi / 2" using e(2)[of s] unfolding w by simp
  show "\<bar>w ! 4\<bar> \<le> 2 * pi" using two[OF e(3) e(3), of p r] unfolding w by simp
  show "\<bar>w ! 5\<bar> \<le> 2 * pi" using two[OF e(3) e(3), of q s] unfolding w by simp
qed

lemma wrist_ranges:
  assumes "k < 6"
  shows "\<bar>smpl_wrists a b c d ! k\<bar> \<le> (if k = 2 \<or> k = 3 then pi / 2 else 2 * pi)"
proof -
  consider "k = 0" | "k = 1" | "k = 2" | "k = 3" | "k = 4" | "k = 5" using assms by linarith
  then show ?thesis
    by cases (simp_all only: wrist_bounds if_True if_False simp_thms numeral_eq_iff num.simps
        zero_neq_numeral one_eq_numeral_iff)
qed

lemma axis_angle_unit:
  assumes "v3_norm v = 1"
  shows "unit_quat (quat_from_angle_axis t v)"
proof -
  obtain x y z where v: "v = (x, y, z)" by (cases v)
  have n: "x*x + y*y + z*z = 1" using assms by (simp add: v3_norm_def v)
  then have nv: "normalize_vector v = v" by (simp add: v Let_def max_def)
  have "quat_norm2 (cos (t/2), x * sin (t/2), y * sin (t/2), z * sin (t/2))
      = cos (t/2) * cos (t/2) + sin (t/2) * sin (t/2) * (x*x + y*y + z*z)"
    by (simp add: quat_norm2_def algebra_simps)
  then have "unit_quat (cos (t/2), x * sin (t/2), y * sin (t/2), z * sin (t/2))"
    using sin_cos_squared_add2[of "t/2"] by (simp add: unit_quat_def n power2_eq_square)
  with nv show ?thesis
    by (simp add: quat_from_angle_axis_def v Let_def del: normalize_vector.simps quat_unit.simps)
qed

lemma axis_angle_normalises:
  assumes "1 / 10 ^ 12 \<le> v3_norm v"
  shows "quat_from_angle_axis t v = quat_from_angle_axis t (v3_scale v (1 / v3_norm v))"
    "v3_norm (v3_scale v (1 / v3_norm v)) = 1"
proof -
  obtain x y z where v: "v = (x, y, z)" by (cases v)
  have "0 < v3_norm v" using assms by (smt (verit) divide_pos_pos zero_less_power)
  then show one: "v3_norm (v3_scale v (1 / v3_norm v)) = 1" by (simp add: v3_norm_scale)
  have "normalize_vector v = v3_scale v (1 / v3_norm v)"
    using assms by (simp add: v Let_def v3_norm_def max.absorb1)
  moreover have "normalize_vector u = u" if "v3_norm u = 1" for u
    using that by (cases u) (simp add: v3_norm_def Let_def max_def)
  ultimately show "quat_from_angle_axis t v = quat_from_angle_axis t (v3_scale v (1 / v3_norm v))"
    using one by (simp add: quat_from_angle_axis_def)
qed

lemma quat_from_rotvec_unit: "unit_quat (quat_from_rotvec v)"
proof (cases "sqrt (v3_dot v v) < 1 / 10 ^ 12")
  case True
  then show ?thesis by (simp add: quat_from_rotvec_def unit_quat_def quat_norm2_def)
next
  case False
  then have "1 / 10 ^ 12 \<le> v3_norm v" by (simp add: v3_norm_def)
  from axis_angle_normalises[OF this] axis_angle_unit False show ?thesis
    by (simp add: quat_from_rotvec_def Let_def)
qed

lemma anchor_unit: "unit_quat (anchor_quat (smpl_fk b))"
proof -
  have "unit_quat (quat_from_angle_axis (pi / 2) (1, 0, 0))"
    by (rule axis_angle_unit) (simp add: v3_norm_def)
  moreover have "unit_quat kSmplBaseRot" by (simp add: unit_quat_def quat_norm2_def kSmplBaseRot_def)
  ultimately show ?thesis
    by (simp add: smpl_fk_def Let_def smpl_root_def unit_quat_mul unit_quat_conjugate quat_from_rotvec_unit)
qed

lemma local_distance:
  assumes "i < 24" "j < 24"
  shows "v3_norm (v3_sub (joints_local (smpl_fk b) ! i) (joints_local (smpl_fk b) ! j))
    = v3_norm (v3_sub (smpl_fk_chain (smpl_full_pose b) ! (kSmplOutputJoints ! i))
        (smpl_fk_chain (smpl_full_pose b) ! (kSmplOutputJoints ! j)))"
  using assms anchor_unit[of b]
  by (simp add: smpl_fk_def Let_def kSmplNumJoints_def v3_norm_rotate unit_quat_conjugate flip: v3_rotate_sub)

lemma full_pose_rest: "22 \<le> i \<Longrightarrow> i < 55 \<Longrightarrow> smpl_full_pose b ! i = (0, 0, 0)"
  by (simp add: smpl_full_pose_def nth_Cons nth_append split: nat.split)

lemma output_joint: "k < 22 \<Longrightarrow> kSmplOutputJoints ! k = k"
proof -
  have "list_all (\<lambda>k. kSmplOutputJoints ! k = k) [0..<22]" by code_simp
  then show "k < 22 \<Longrightarrow> kSmplOutputJoints ! k = k" by (simp add: list_all_iff)
qed


definition rest_body :: body_pose where
  "rest_body = replicate 24 [0, 0, 0, 0, 0, 0, 1]"


end
