(* ===== verification/Arm_Reach.thy ===== *)
theory Arm_Reach
  imports Smpl_Fk
begin

text \<open>
  The arms rebuilt from the tracked wrists (\<open>src/teleop/smpl_arm_reach.cpp\<close>): the canonical
  two-link arm laid along the operator's shoulder-wrist line, scaled by a running estimate of
  the operator's reach.
\<close>

section \<open>Definitions\<close>

definition kUnityToRobot :: quat where
  "kUnityToRobot = (0, 0, sqrt (1 / 2), sqrt (1 / 2))"

definition kRootYawOffset :: quat where
  "kRootYawOffset = quat_from_angle_axis (- pi / 2) (0, 0, 1)"

text \<open>Headset axes to robot axes, for a position and for an orientation.\<close>

definition pos_robot :: "body_joint \<Rightarrow> vec3" where
  "pos_robot j = (- (j ! 0), j ! 2, j ! 1)"

definition quat_robot :: "body_joint \<Rightarrow> quat" where
  "quat_robot j = quat_mul kUnityToRobot (quat_mul (joint_quat j) (quat_conjugate kUnityToRobot))"

definition tracked_root_relative :: "body_pose \<Rightarrow> nat \<Rightarrow> vec3" where
  "tracked_root_relative body joint =
     (let q_root = quat_mul (quat_robot (body ! 0)) kRootYawOffset
      in quat_rotate (quat_conjugate q_root) (v3_sub (pos_robot (body ! joint)) (pos_robot (body ! 0))))"

definition seg_len :: "nat \<Rightarrow> nat \<Rightarrow> real" where
  "seg_len a b = v3_norm (v3_sub (kSmplXRestJoints ! a) (kSmplXRestJoints ! b))"

definition reach_default :: "real list" where
  "reach_default = [0.55, 0.55]"

text \<open>The unit direction the elbow leaves the line in: toward the elbow of the forward
  kinematics, else down, else across.\<close>

definition swivel :: "vec3 \<Rightarrow> vec3 \<Rightarrow> vec3" where
  "swivel u h =
     (let h1 = v3_sub h (v3_scale u (v3_dot h u));
          h2 = v3_sub (0, 0, - 1) (v3_scale u (v3_dot (0, 0, - 1) u));
          hp = (if v3_norm h1 < 1 / 10 ^ 4
                then (if v3_norm h2 < 1 / 10 ^ 4 then v3_cross u (0, 1, 0) else h2) else h1)
      in v3_scale hp (1 / v3_norm hp))"

text \<open>Elbow and wrist of a two-link arm with segments \<open>a\<close> and \<open>b\<close>, the wrist at distance
  \<open>d\<close> along \<open>u\<close>.\<close>

definition arm_along :: "real \<Rightarrow> real \<Rightarrow> real \<Rightarrow> real" where
  "arm_along a b d = (a * a - b * b + d * d) / (2 * d)"

definition arm_elbow :: "real \<Rightarrow> real \<Rightarrow> real \<Rightarrow> vec3 \<Rightarrow> vec3 \<Rightarrow> vec3 \<Rightarrow> vec3" where
  "arm_elbow a b d u h S =
     (let along = arm_along a b d;
          r = sqrt (max (a * a - along * along) 0)
      in v3_add S (v3_add (v3_scale u along) (v3_scale h r)))"

definition arm_distance :: "real \<Rightarrow> real \<Rightarrow> real \<Rightarrow> real \<Rightarrow> real" where
  "arm_distance a b len max_reach =
     clamp (min (len / max_reach) 1 * (a + b)) (\<bar>a - b\<bar> + 1 / 10 ^ 6) (a + b - 1 / 10 ^ 6)"

definition solve_arm ::
    "body_pose \<Rightarrow> nat \<Rightarrow> nat \<Rightarrow> nat \<Rightarrow> nat \<Rightarrow> nat \<Rightarrow> nat \<Rightarrow> smpl_pose \<times> real list \<Rightarrow> smpl_pose \<times> real list" where
  "solve_arm body side s e w t tw st =
     (case st of (pose, reach) \<Rightarrow>
       let a = seg_len s e; b = seg_len e w;
           v = v3_sub (tracked_root_relative body tw) (tracked_root_relative body s);
           len = v3_norm v
       in if len < 1 / 10 ^ 3 then (pose, reach)
          else let max_reach = max (reach ! side) len;
                   d = arm_distance a b len max_reach;
                   u = v3_scale v (1 / len);
                   jl = joints_local pose;
                   S = jl ! s;
                   thumb_off = v3_sub (jl ! t) (jl ! w);
                   h = swivel u (v3_sub (jl ! e) S);
                   W = v3_add S (v3_scale u d)
               in (pose\<lparr>joints_local := jl[e := arm_elbow a b d u h S, w := W, t := v3_add W thumb_off]\<rparr>,
                   reach[side := max_reach]))"

definition smpl_arms_from_tracked_wrists :: "body_pose \<Rightarrow> smpl_pose \<times> real list \<Rightarrow> smpl_pose \<times> real list" where
  "smpl_arms_from_tracked_wrists body st =
     solve_arm body 1 17 19 21 23 23 (solve_arm body 0 16 18 20 22 22 st)"

section \<open>The two-link arm\<close>

lemma two_link_along:
  fixes a b d :: real
  assumes "0 < d" "0 \<le> a" "\<bar>a - b\<bar> \<le> d" "d \<le> a + b"
  shows "arm_along a b d * arm_along a b d \<le> a * a"
proof -
  have "0 \<le> (b - (a - d)) * (b + (a - d))" using assms by (intro mult_nonneg_nonneg) linarith+
  then have "a * a - b * b + d * d \<le> a * (2 * d)" by (simp add: algebra_simps)
  then have up: "arm_along a b d \<le> a" using assms(1) by (simp add: arm_along_def pos_divide_le_eq)
  have "0 \<le> (a + d - b) * (a + d + b)" using assms by (intro mult_nonneg_nonneg) linarith+
  then have "- a * (2 * d) \<le> a * a - b * b + d * d" by (simp add: algebra_simps)
  then have lo: "- a \<le> arm_along a b d" using assms(1) by (simp add: arm_along_def pos_le_divide_eq)
  have "(arm_along a b d)\<^sup>2 \<le> a\<^sup>2" by (rule abs_le_square_iff[THEN iffD1]) (use up lo assms(2) in linarith)
  then show ?thesis by (simp add: power2_eq_square)
qed

lemma two_link:
  fixes S u h :: vec3 and a b d :: real
  assumes d: "0 < d" "0 \<le> a" "0 \<le> b" "\<bar>a - b\<bar> \<le> d" "d \<le> a + b"
    and u: "v3_dot u u = 1" and h: "v3_dot h h = 1" and uh: "v3_dot u h = 0"
  defines "E \<equiv> arm_elbow a b d u h S" and "W \<equiv> v3_add S (v3_scale u d)"
  shows "v3_norm (v3_sub E S) = a" "v3_norm (v3_sub W E) = b" "v3_norm (v3_sub W S) = d"
proof -
  define l where "l = arm_along a b d"
  define r where "r = sqrt (max (a * a - l * l) 0)"
  have "l * l \<le> a * a" unfolding l_def by (rule two_link_along) (use d in auto)
  then have r: "r * r = a * a - l * l" by (simp add: r_def max_def)
  have ld: "2 * l * d = a * a - b * b + d * d" using d(1) by (simp add: l_def arm_along_def)
  have E: "E = v3_add S (v3_add (v3_scale u l) (v3_scale h r))"
    by (simp add: E_def arm_elbow_def l_def r_def Let_def)
  have hu: "v3_dot h u = 0" using uh by (simp add: v3_dot_commute)
  have "v3_dot (v3_sub E S) (v3_sub E S) = l * l + r * r"
    by (simp add: E v3_dot_linear v3_dot_linear_right u h uh hu)
  then show "v3_norm (v3_sub E S) = a" using d(2) by (simp add: v3_norm_def r)
  have "v3_sub W E = v3_sub (v3_scale u (d - l)) (v3_scale h r)"
    by (cases S; cases u; cases h) (simp add: W_def E algebra_simps)
  then have "v3_dot (v3_sub W E) (v3_sub W E) = (d - l) * (d - l) + r * r"
    by (simp add: v3_dot_linear v3_dot_linear_right u h uh hu)
  also have "\<dots> = b * b" using r ld by (simp add: algebra_simps)
  finally show "v3_norm (v3_sub W E) = b" using d(3) by (simp add: v3_norm_def)
  show "v3_norm (v3_sub W S) = d" using d(1) u by (simp add: W_def v3_norm_scale) (simp add: v3_norm_def)
qed

lemma reject_orthogonal:
  assumes "v3_dot u u = 1"
  shows "v3_dot u (v3_sub h (v3_scale u (v3_dot h u))) = 0"
  using assms by (simp add: v3_dot_linear_right v3_dot_commute[of h u])

lemma swivel_unit:
  assumes u: "v3_dot u u = 1"
  shows "v3_dot (swivel u h) (swivel u h) = 1" "v3_dot u (swivel u h) = 0"
proof -
  let ?h1 = "v3_sub h (v3_scale u (v3_dot h u))"
  let ?h2 = "v3_sub (0, 0, - 1) (v3_scale u (v3_dot (0, 0, - 1) u))"
  let ?h3 = "v3_cross u (0, 1, 0)"
  obtain x y z where xyz: "u = (x, y, z)" by (cases u)
  define hp where "hp = (if v3_norm ?h1 < 1 / 10 ^ 4 then (if v3_norm ?h2 < 1 / 10 ^ 4 then ?h3 else ?h2) else ?h1)"
  have s: "swivel u h = v3_scale hp (1 / v3_norm hp)" by (simp add: swivel_def hp_def Let_def)
  have orth: "v3_dot u hp = 0"
  proof -
    have "v3_dot u ?h3 = 0" by (simp add: xyz)
    then show ?thesis
      unfolding hp_def using reject_orthogonal[OF u, of h] reject_orthogonal[OF u, of "(0, 0, - 1)"]
      by presburger
  qed
  have "v3_norm hp \<noteq> 0"
  proof
    assume z: "v3_norm hp = 0"
    then have "v3_norm ?h2 < 1 / 10 ^ 4" "hp = ?h3"
      unfolding hp_def by (auto split: if_splits)
    then have "v3_dot ?h2 ?h2 < (1 / 10 ^ 4) * (1 / 10 ^ 4)"
      using mult_strict_mono[of "v3_norm ?h2" "1 / 10 ^ 4" "v3_norm ?h2" "1 / 10 ^ 4"]
      by (simp del: v3_sub.simps v3_scale.simps v3_dot.simps)
    moreover have "v3_dot ?h2 ?h2 = 1 - z * z"
      using u by (simp add: xyz) algebra
    moreover have "v3_dot ?h3 ?h3 = x * x + z * z" by (simp add: xyz)
    moreover have "v3_dot ?h3 ?h3 = 0" using z \<open>hp = ?h3\<close> by (simp add: v3_norm_def)
    moreover have "0 \<le> x * x" by simp
    ultimately show False by simp
  qed
  then have "v3_norm (swivel u h) = 1" by (simp add: s v3_norm_scale)
  then show "v3_dot (swivel u h) (swivel u h) = 1" by (metis mult_1 v3_norm_mult)
  show "v3_dot u (swivel u h) = 0" unfolding s using orth by (simp add: v3_dot_linear_right)
qed

lemma seg_long:
  assumes "(s, e, w) \<in> {(16, 18, 20), (17, 19, 21)}"
  shows "1 / 10 \<le> seg_len s e" "1 / 10 \<le> seg_len e w"
proof -
  let ?d = "\<lambda>i j. v3_sub (kSmplXRestJoints ! i) (kSmplXRestJoints ! j)"
  have sq: "(1 / 10)\<^sup>2 \<le> v3_dot (?d s e) (?d s e)" "(1 / 10)\<^sup>2 \<le> v3_dot (?d e w) (?d e w)"
    using assms by (auto simp: kSmplXRestJoints_def power2_eq_square)
  show "1 / 10 \<le> seg_len s e" "1 / 10 \<le> seg_len e w"
    unfolding seg_len_def v3_norm_def by (rule real_le_rsqrt[OF sq(1)], rule real_le_rsqrt[OF sq(2)])
qed

section \<open>The rebuilt arms\<close>

lemma arm_distance_range:
  assumes "1 / 10 \<le> a" "1 / 10 \<le> b"
  shows "0 < arm_distance a b l m" "\<bar>a - b\<bar> \<le> arm_distance a b l m" "arm_distance a b l m \<le> a + b"
proof -
  have lohi: "\<bar>a - b\<bar> + 1 / 10 ^ 6 \<le> a + b - 1 / 10 ^ 6" using assms by (simp add: abs_if)
  have "\<bar>a - b\<bar> + 1 / 10 ^ 6 \<le> arm_distance a b l m" "arm_distance a b l m \<le> a + b - 1 / 10 ^ 6"
    unfolding arm_distance_def by (rule clamp_lower[OF lohi], rule clamp_upper[OF lohi])
  then show "0 < arm_distance a b l m" "\<bar>a - b\<bar> \<le> arm_distance a b l m" "arm_distance a b l m \<le> a + b"
    by simp_all
qed

text \<open>What one arm of the result is, from the operator's wrist, shoulder and reach.\<close>

definition arm_spec ::
    "body_pose \<Rightarrow> smpl_pose \<Rightarrow> real list \<Rightarrow> smpl_pose \<Rightarrow> real list \<Rightarrow> nat \<Rightarrow> nat \<Rightarrow> nat \<Rightarrow> nat \<Rightarrow> nat \<Rightarrow> bool" where
  "arm_spec body p reach p' reach' side s e w t \<longleftrightarrow>
     (let v = v3_sub (tracked_root_relative body t) (tracked_root_relative body s);
          len = v3_norm v; a = seg_len s e; b = seg_len e w;
          J = joints_local p; J' = joints_local p'
      in if len < 1 / 10 ^ 3
         then J' ! e = J ! e \<and> J' ! w = J ! w \<and> J' ! t = J ! t \<and> reach' ! side = reach ! side
         else reach' ! side = max (reach ! side) len
           \<and> v3_norm (v3_sub (J' ! e) (J' ! s)) = a \<and> v3_norm (v3_sub (J' ! w) (J' ! e)) = b
           \<and> v3_sub (J' ! w) (J' ! s) = v3_scale v (arm_distance a b len (reach' ! side) / len)
           \<and> (reach ! side \<le> len \<longrightarrow> v3_norm (v3_sub (J' ! w) (J' ! s)) = a + b - 1 / 10 ^ 6)
           \<and> v3_sub (J' ! t) (J' ! w) = v3_sub (J ! t) (J ! w))"

lemma solve_arm_spec:
  assumes chain: "(side, s, e, w, t) \<in> {(0, 16, 18, 20, 22), (1, 17, 19, 21, 23)}"
    and wf: "length (joints_local p) = 24" "length reach = 2"
    and res: "solve_arm body side s e w t t (p, reach) = (p', reach')"
  shows "arm_spec body p reach p' reach' side s e w t"
    "length (joints_local p') = 24" "length reach' = 2"
    "\<And>j. j \<notin> {e, w, t} \<Longrightarrow> joints_local p' ! j = joints_local p ! j"
    "\<And>k. k \<noteq> side \<Longrightarrow> reach' ! k = reach ! k"
    "anchor_quat p' = anchor_quat p" "wrist_joint_pos p' = wrist_joint_pos p"
proof -
  have ix: "e < 24" "w < 24" "t < 24" "s < 24" "s \<noteq> e" "s \<noteq> w" "s \<noteq> t" "e \<noteq> w" "e \<noteq> t" "w \<noteq> t" "side < 2"
    "(s, e, w) \<in> {(16, 18, 20), (17, 19, 21)}"
    using chain by auto
  show "length (joints_local p') = 24" "length reach' = 2"
    "\<And>j. j \<notin> {e, w, t} \<Longrightarrow> joints_local p' ! j = joints_local p ! j"
    "\<And>k. k \<noteq> side \<Longrightarrow> reach' ! k = reach ! k"
    "anchor_quat p' = anchor_quat p" "wrist_joint_pos p' = wrist_joint_pos p"
    using res wf by (auto simp: solve_arm_def Let_def split: if_splits)
  define v where "v = v3_sub (tracked_root_relative body t) (tracked_root_relative body s)"
  define a where "a = seg_len s e"
  define b where "b = seg_len e w"
  show "arm_spec body p reach p' reach' side s e w t"
  proof (cases "v3_norm v < 1 / 10 ^ 3")
    case True
    then show ?thesis
      using res by (simp add: arm_spec_def solve_arm_def Let_def flip: v_def)
  next
    case False
    then have len: "0 < v3_norm v" by (smt (verit) divide_pos_pos zero_less_power)
    define m where "m = max (reach ! side) (v3_norm v)"
    define d where "d = arm_distance a b (v3_norm v) m"
    define u where "u = v3_scale v (1 / v3_norm v)"
    define S where "S = joints_local p ! s"
    define h where "h = swivel u (v3_sub (joints_local p ! e) S)"
    have J: "joints_local p' = (joints_local p)[e := arm_elbow a b d u h S, w := v3_add S (v3_scale u d),
        t := v3_add (v3_add S (v3_scale u d)) (v3_sub (joints_local p ! t) (joints_local p ! w))]"
      and r: "reach' = reach[side := m]"
      using res False
      by (auto simp: solve_arm_def Let_def m_def d_def u_def S_def h_def a_def b_def simp flip: v_def)
    have at: "joints_local p' ! e = arm_elbow a b d u h S" "joints_local p' ! w = v3_add S (v3_scale u d)"
      "joints_local p' ! s = S" "v3_sub (joints_local p' ! t) (joints_local p' ! w)
        = v3_sub (joints_local p ! t) (joints_local p ! w)" "reach' ! side = m"
      using ix wf by (simp_all add: J r S_def)
    have seg: "1 / 10 \<le> a" "1 / 10 \<le> b" using seg_long[OF ix(12)] by (simp_all add: a_def b_def)
    note d = arm_distance_range[OF seg, of "v3_norm v" m, folded d_def]
    have "v3_norm u = 1" using len by (simp add: u_def v3_norm_scale)
    then have uu: "v3_dot u u = 1" by (metis mult_1 v3_norm_mult)
    note turn = swivel_unit[OF uu, of "v3_sub (joints_local p ! e) S", folded h_def]
    note link = two_link[OF d(1) _ _ d(2,3) uu turn, of S]
    have dir: "v3_scale u d = v3_scale v (d / v3_norm v)" by (cases v) (simp add: u_def)
    have full: "d = a + b - 1 / 10 ^ 6" if "reach ! side \<le> v3_norm v"
    proof -
      have "m = v3_norm v" using that by (simp add: m_def)
      then have "min (v3_norm v / m) 1 = 1" using len by simp
      then show ?thesis using seg by (simp add: d_def arm_distance_def clamp_high)
    qed
    have J's: "v3_norm (v3_sub (joints_local p' ! e) (joints_local p' ! s)) = a"
      "v3_norm (v3_sub (joints_local p' ! w) (joints_local p' ! e)) = b"
      "v3_norm (v3_sub (joints_local p' ! w) (joints_local p' ! s)) = d"
      "v3_sub (joints_local p' ! w) (joints_local p' ! s) = v3_scale v (d / v3_norm v)"
      using link seg dir by (simp_all add: at)
    show ?thesis
      unfolding arm_spec_def Let_def v_def[symmetric] a_def[symmetric] b_def[symmetric] at(5) d_def[symmetric]
      using False J's(1,2,4) at(4) full J's(3) by (simp only: if_False m_def) simp
  qed
qed

lemma arm_spec_cong:
  assumes "joints_local p1 ! s = joints_local p2 ! s" "joints_local p1 ! e = joints_local p2 ! e"
    "joints_local p1 ! w = joints_local p2 ! w" "joints_local p1 ! t = joints_local p2 ! t"
    "joints_local q1 ! s = joints_local q2 ! s" "joints_local q1 ! e = joints_local q2 ! e"
    "joints_local q1 ! w = joints_local q2 ! w" "joints_local q1 ! t = joints_local q2 ! t"
    "r1 ! side = r2 ! side" "t1 ! side = t2 ! side"
  shows "arm_spec body p1 r1 q1 t1 side s e w t \<longleftrightarrow> arm_spec body p2 r2 q2 t2 side s e w t"
  unfolding arm_spec_def Let_def by (simp only: assms)


lemma tracked_length:
  assumes "unit_quat (quat_mul (quat_robot (body ! 0)) kRootYawOffset)"
  shows "v3_norm (v3_sub (tracked_root_relative body i) (tracked_root_relative body j))
    = v3_norm (v3_sub (pos_robot (body ! i)) (pos_robot (body ! j)))"
  using assms unit_quat_conjugate
  by (simp add: tracked_root_relative_def Let_def v3_norm_rotate flip: v3_rotate_sub)

text \<open>The witness: the left wrist is 0.6 m to the side, further than the default reach.\<close>

definition reaching_body :: body_pose where
  "reaching_body = rest_body[22 := [0.6, 0, 0, 0, 0, 0, 1]]"


end
