(* ===== verification/Calibration.thy ===== *)
theory Calibration
  imports Arm_Reach
begin

text \<open>
  The three-point target of the upper-body teleoperation: wrist forward kinematics of the robot
  (\<open>src/teleop/g1_arm_fk.cpp\<close>) and extraction, calibration and application of the raw points
  (\<open>src/teleop/teleop_tracker.cpp\<close>).
\<close>

section \<open>Forward kinematics of the robot's wrists\<close>

record link =
  lk_xyz :: vec3
  lk_rpy :: vec3
  lk_axis :: vec3
  lk_q_idx :: nat

definition mk_link :: "vec3 \<Rightarrow> vec3 \<Rightarrow> vec3 \<Rightarrow> nat \<Rightarrow> link" where
  "mk_link xyz rpy axis k = \<lparr>lk_xyz = xyz, lk_rpy = rpy, lk_axis = axis, lk_q_idx = k\<rparr>"

definition rpy_to_quat :: "vec3 \<Rightarrow> quat" where
  "rpy_to_quat rpy = (case rpy of (r, p, y) \<Rightarrow>
     quat_mul (quat_from_angle_axis y (0, 0, 1))
       (quat_mul (quat_from_angle_axis p (0, 1, 0)) (quat_from_angle_axis r (1, 0, 0))))"

definition kLeftChain :: "link list" where
  "kLeftChain =
    [mk_link (0, 0, 0) (0, 0, 0) (0, 0, 1) 12,
     mk_link (- 0.0039635, 0, 0.035) (0, 0, 0) (1, 0, 0) 13,
     mk_link (0, 0, 0.019) (0, 0, 0) (0, 1, 0) 14,
     mk_link (0.0039563, 0.10022, 0.23778) (0.27931, 0.000054949, - 0.00019159) (0, 1, 0) 15,
     mk_link (0, 0.038, - 0.013831) (- 0.27925, 0, 0) (1, 0, 0) 16,
     mk_link (0, 0.00624, - 0.1032) (0, 0, 0) (0, 0, 1) 17,
     mk_link (0.015783, 0, - 0.080518) (0, 0, 0) (0, 1, 0) 18,
     mk_link (0.1, 0.00188791, - 0.01) (0, 0, 0) (1, 0, 0) 19,
     mk_link (0.038, 0, 0) (0, 0, 0) (0, 1, 0) 20,
     mk_link (0.046, 0, 0) (0, 0, 0) (0, 0, 1) 21]"

definition kRightChain :: "link list" where
  "kRightChain =
    [mk_link (0, 0, 0) (0, 0, 0) (0, 0, 1) 12,
     mk_link (- 0.0039635, 0, 0.035) (0, 0, 0) (1, 0, 0) 13,
     mk_link (0, 0, 0.019) (0, 0, 0) (0, 1, 0) 14,
     mk_link (0.0039563, - 0.10021, 0.23778) (- 0.27931, 0.000054949, 0.00019159) (0, 1, 0) 22,
     mk_link (0, - 0.038, - 0.013831) (0.27925, 0, 0) (1, 0, 0) 23,
     mk_link (0, - 0.00624, - 0.1032) (0, 0, 0) (0, 0, 1) 24,
     mk_link (0.015783, 0, - 0.080518) (0, 0, 0) (0, 1, 0) 25,
     mk_link (0.1, - 0.00188791, - 0.01) (0, 0, 0) (1, 0, 0) 26,
     mk_link (0.038, 0, 0) (0, 0, 0) (0, 1, 0) 27,
     mk_link (0.046, 0, 0) (0, 0, 0) (0, 0, 1) 28]"

definition kLeftOffset :: vec3 where "kLeftOffset = (0.18, - 0.025, 0)"
definition kRightOffset :: vec3 where "kRightOffset = (0.18, 0.025, 0)"

record g1_wrist_pose =
  gw_position :: vec3
  gw_quaternion :: quat

definition wrist_link_step :: "real list \<Rightarrow> link \<Rightarrow> vec3 \<times> quat \<Rightarrow> vec3 \<times> quat" where
  "wrist_link_step q l st =
     (case st of (p, r) \<Rightarrow>
       (v3_add p (quat_rotate r (lk_xyz l)),
        quat_mul (quat_mul r (rpy_to_quat (lk_rpy l))) (quat_from_angle_axis (q ! lk_q_idx l) (lk_axis l))))"

definition g1_wrist_fk :: "real list \<Rightarrow> bool \<Rightarrow> g1_wrist_pose" where
  "g1_wrist_fk q left =
     (case fold (wrist_link_step q) (if left then kLeftChain else kRightChain) ((0, 0, 0), (1, 0, 0, 0)) of
        (p, r) \<Rightarrow> \<lparr>gw_position = v3_add p (quat_rotate r (if left then kLeftOffset else kRightOffset)),
                   gw_quaternion = r\<rparr>)"

lemma basis_unit [simp]: "unit_quat (quat_from_angle_axis t (1, 0, 0))"
  "unit_quat (quat_from_angle_axis t (0, 1, 0))"
  by (rule axis_angle_unit; simp add: v3_norm_def)+

lemma rpy_unit [simp]: "unit_quat (rpy_to_quat rpy)"
  by (cases rpy) (simp add: rpy_to_quat_def unit_quat_mul)

text \<open>Along a chain of unit axes the orientation stays a unit and the position within the links.\<close>

lemma chain_bounds:
  assumes "list_all (\<lambda>l. v3_norm (lk_axis l) = 1) ls" "unit_quat r"
  shows "unit_quat (snd (fold (wrist_link_step q) ls (p, r)))
    \<and> v3_norm (fst (fold (wrist_link_step q) ls (p, r))) \<le> v3_norm p + sum_list (map (\<lambda>l. v3_norm (lk_xyz l)) ls)"
  using assms
proof (induction ls arbitrary: p r)
  case (Cons l ls)
  let ?p = "v3_add p (quat_rotate r (lk_xyz l))"
  let ?r = "quat_mul (quat_mul r (rpy_to_quat (lk_rpy l))) (quat_from_angle_axis (q ! lk_q_idx l) (lk_axis l))"
  have "unit_quat ?r" using Cons.prems by (simp add: unit_quat_mul axis_angle_unit)
  note IH = Cons.IH[OF _ this, of ?p]
  have "v3_norm ?p \<le> v3_norm p + v3_norm (lk_xyz l)"
    using v3_triangle[of p "quat_rotate r (lk_xyz l)"] Cons.prems by (simp add: v3_norm_rotate)
  with IH Cons.prems show ?case by (simp add: wrist_link_step_def)
qed simp

lemma v3_norm_le: "v3_dot v v \<le> r * r \<Longrightarrow> 0 \<le> r \<Longrightarrow> v3_norm v \<le> r"
  unfolding v3_norm_def by (rule real_le_lsqrt) (simp_all add: power2_eq_square)

lemma axes_unit: "list_all (\<lambda>l. v3_norm (lk_axis l) = 1) (if left then kLeftChain else kRightChain)"
  by (simp add: kLeftChain_def kRightChain_def mk_link_def v3_norm_def)

lemma links_short:
  "sum_list (map (\<lambda>l. v3_norm (lk_xyz l)) (if left then kLeftChain else kRightChain))
    \<le> 0 + 0.0353 + 0.019 + 0.2582 + 0.0405 + 0.1034 + 0.0821 + 0.1006 + 0.038 + 0.046"
proof -
  have "v3_norm (0, 0, 0) \<le> (0 :: real)" "v3_norm (- 0.0039635, 0, 0.035) \<le> 0.0353"
    "v3_norm (0, 0, 0.019) \<le> 0.019" "v3_norm (0.0039563, 0.10022, 0.23778) \<le> 0.2582"
    "v3_norm (0.0039563, - 0.10021, 0.23778) \<le> 0.2582"
    "v3_norm (0, 0.038, - 0.013831) \<le> 0.0405" "v3_norm (0, - 0.038, - 0.013831) \<le> 0.0405"
    "v3_norm (0, 0.00624, - 0.1032) \<le> 0.1034" "v3_norm (0, - 0.00624, - 0.1032) \<le> 0.1034"
    "v3_norm (0.015783, 0, - 0.080518) \<le> 0.0821"
    "v3_norm (0.1, 0.00188791, - 0.01) \<le> 0.1006" "v3_norm (0.1, - 0.00188791, - 0.01) \<le> 0.1006"
    "v3_norm (0.038, 0, 0) \<le> 0.038" "v3_norm (0.046, 0, 0) \<le> 0.046"
    by (rule v3_norm_le; simp)+
  then show ?thesis by (simp add: kLeftChain_def kRightChain_def mk_link_def)
qed

lemma offset_short: "v3_norm (if left then kLeftOffset else kRightOffset) \<le> 0.1818"
  by (rule v3_norm_le) (simp_all add: kLeftOffset_def kRightOffset_def)

text \<open>
  Whatever the measured joints, the wrist reference computed for either arm is a pose: its
  orientation is a unit quaternion and it lies within 0.91 m of the pelvis, the length of the
  outstretched chain.
\<close>
theorem wrist_fk_within_reach:
  "unit_quat (gw_quaternion (g1_wrist_fk q left)) \<and> v3_norm (gw_position (g1_wrist_fk q left)) \<le> 0.91"
proof -
  let ?ls = "if left then kLeftChain else kRightChain" and ?o = "if left then kLeftOffset else kRightOffset"
  obtain p r where pr: "fold (wrist_link_step q) ?ls ((0, 0, 0), (1, 0, 0, 0)) = (p, r)"
    by (cases "fold (wrist_link_step q) ?ls ((0, 0, 0), (1, 0, 0, 0))")
  have "unit_quat (1, 0, 0, 0)" by (simp add: unit_quat_def quat_norm2_def)
  from chain_bounds[OF axes_unit[of left] this, of q "(0, 0, 0)"] pr
  have r: "unit_quat r" and p: "v3_norm p \<le> sum_list (map (\<lambda>l. v3_norm (lk_xyz l)) ?ls)"
    by (simp_all add: v3_norm_def[of "(0, 0, 0)"])
  have "v3_norm (v3_add p (quat_rotate r ?o)) \<le> v3_norm p + v3_norm ?o"
    using v3_triangle[of p "quat_rotate r ?o"] by (simp only: v3_norm_rotate[OF r])
  then have "v3_norm (v3_add p (quat_rotate r ?o)) \<le> 0.91"
    using p links_short[of left] offset_short[of left] by simp
  with r pr show ?thesis by (simp add: g1_wrist_fk_def)
qed

section \<open>The raw three points\<close>

definition kDeg :: real where "kDeg = pi / 180"

definition euler_xyz_extrinsic :: "real \<Rightarrow> real \<Rightarrow> real \<Rightarrow> quat" where
  "euler_xyz_extrinsic a b c =
     quat_mul (quat_from_angle_axis c (0, 0, 1))
       (quat_mul (quat_from_angle_axis b (0, 1, 0)) (quat_from_angle_axis a (1, 0, 0)))"

definition kOffsets :: "quat list" where
  "kOffsets = [euler_xyz_extrinsic 0 0 (- 90 * kDeg), euler_xyz_extrinsic (90 * kDeg) 0 0,
     euler_xyz_extrinsic (- 90 * kDeg) 0 (180 * kDeg), euler_xyz_extrinsic 0 0 (- 90 * kDeg)]"

definition kSmplIdx :: "nat list" where "kSmplIdx = [0, 22, 23, 12]"

text \<open>Left wrist, right wrist and neck, relative to the root.\<close>

record raw3point =
  raw_pos :: "vec3 list"
  raw_quat :: "quat list"

definition point_quat :: "body_pose \<Rightarrow> nat \<Rightarrow> quat" where
  "point_quat body k = quat_mul (quat_robot (body ! (kSmplIdx ! k))) (kOffsets ! k)"

definition extract_raw :: "body_pose \<Rightarrow> raw3point" where
  "extract_raw body =
     (let pos = (\<lambda>k. pos_robot (body ! (kSmplIdx ! k)));
          root_inv = quat_conjugate (point_quat body 0)
      in \<lparr>raw_pos = map (\<lambda>k. quat_rotate root_inv (v3_sub (pos k) (pos 0))) [1, 2, 3],
          raw_quat = map (\<lambda>k. quat_mul root_inv (point_quat body k)) [1, 2, 3]\<rparr>)"

section \<open>Calibration\<close>

definition kG1LWristPos :: vec3 where "kG1LWristPos = (0.3797694914, 0.1236272185, 0.0952214409)"
definition kG1RWristPos :: vec3 where "kG1RWristPos = (0.3797694914, - 0.1236172185, 0.0952214409)"
definition kG1LWristQuat :: quat where
  "kG1LWristQuat = (0.9999999946, 0.0000300026, 0.0000274716, - 0.0000957958)"
definition kG1RWristQuat :: quat where
  "kG1RWristQuat = (0.9999999946, - 0.0000300026, 0.0000274716, 0.0000957958)"
definition kTorsoLinkOffsetZ :: real where "kTorsoLinkOffsetZ = 0.05"
definition kNeckLinkLength :: real where "kNeckLinkLength = 0.35"

record calibration =
  have_neck_calib :: bool
  neck_quat_inv :: quat
  lwrist_pos_offset :: vec3
  rwrist_pos_offset :: vec3
  lwrist_rot_offset :: quat
  rwrist_rot_offset :: quat

definition calibration_new :: calibration where
  "calibration_new = \<lparr>have_neck_calib = False, neck_quat_inv = (0, 0, 0, 0), lwrist_pos_offset = (0, 0, 0),
     rwrist_pos_offset = (0, 0, 0), lwrist_rot_offset = (0, 0, 0, 0), rwrist_rot_offset = (0, 0, 0, 0)\<rparr>"

text \<open>The measured-joints provider: not set, set and failing, or giving the joints.\<close>

type_synonym q_provider = "real list option option"

definition wrist_reference :: "q_provider \<Rightarrow> bool \<Rightarrow> vec3 \<times> quat" where
  "wrist_reference provider left =
     (case provider of
        Some (Some q) \<Rightarrow> (gw_position (g1_wrist_fk q left), gw_quaternion (g1_wrist_fk q left))
      | _ \<Rightarrow> (if left then (kG1LWristPos, kG1LWristQuat) else (kG1RWristPos, kG1RWristQuat)))"

definition capture_calibration :: "q_provider \<Rightarrow> raw3point \<Rightarrow> calibration \<Rightarrow> calibration" where
  "capture_calibration provider raw c0 =
     (let c = (if have_neck_calib c0 then c0
               else c0\<lparr>neck_quat_inv := quat_conjugate (raw_quat raw ! 2), have_neck_calib := True\<rparr>);
          n = neck_quat_inv c;
          lw_pos = quat_rotate n (raw_pos raw ! 0); rw_pos = quat_rotate n (raw_pos raw ! 1);
          lw_rot = quat_mul n (raw_quat raw ! 0); rw_rot = quat_mul n (raw_quat raw ! 1)
      in c\<lparr>lwrist_pos_offset := v3_sub lw_pos (fst (wrist_reference provider True)),
           rwrist_pos_offset := v3_sub rw_pos (fst (wrist_reference provider False)),
           lwrist_rot_offset := quat_mul (snd (wrist_reference provider True)) (quat_conjugate lw_rot),
           rwrist_rot_offset := quat_mul (snd (wrist_reference provider False)) (quat_conjugate rw_rot)\<rparr>)"

text \<open>The neck position hangs on the calibrated neck: root to torso, then along its own Z.\<close>

definition neck_point :: "quat \<Rightarrow> vec3" where
  "neck_point neck_q = v3_add (0, 0, kTorsoLinkOffsetZ) (v3_scale (quat_rotate neck_q (0, 0, 1)) kNeckLinkLength)"

definition apply_calibration :: "raw3point \<Rightarrow> calibration \<Rightarrow> vr3_point" where
  "apply_calibration raw c =
     (let n = neck_quat_inv c;
          neck_q = quat_mul n (raw_quat raw ! 2);
          lw_pos = quat_rotate n (raw_pos raw ! 0); rw_pos = quat_rotate n (raw_pos raw ! 1);
          lw_q = quat_mul (lwrist_rot_offset c) (quat_mul n (raw_quat raw ! 0));
          rw_q = quat_mul (rwrist_rot_offset c) (quat_mul n (raw_quat raw ! 1))
      in \<lparr>vr3_position = vec3_list (v3_sub lw_pos (lwrist_pos_offset c))
            @ vec3_list (v3_sub rw_pos (rwrist_pos_offset c)) @ vec3_list (neck_point neck_q),
          vr3_orientation = quat_list lw_q @ quat_list rw_q @ quat_list neck_q\<rparr>)"

section \<open>Where the operator stands does not matter\<close>

lemma unit_unity [simp]: "unit_quat kUnityToRobot"
  by (simp add: unit_quat_def quat_norm2_def kUnityToRobot_def)

lemma unit_offsets: "k < 4 \<Longrightarrow> unit_quat (kOffsets ! k)"
proof -
  have "unit_quat (euler_xyz_extrinsic a b c)" for a b c
    by (simp add: euler_xyz_extrinsic_def unit_quat_mul)
  then show "k < 4 \<Longrightarrow> unit_quat (kOffsets ! k)"
    by (auto simp: kOffsets_def less_Suc_eq numeral_eq_Suc)
qed

text \<open>The axis permutation is the rotation by \<open>kUnityToRobot\<close>.\<close>

lemma rotate_unity: "quat_rotate kUnityToRobot (x, y, z) = (- x, z, y)"
proof -
  have "sqrt (1 / 2) * sqrt (1 / 2) = (1 / 2 :: real)" by simp
  then show ?thesis by (simp add: kUnityToRobot_def Let_def) (simp add: field_simps)
qed

lemma pos_robot_rotate: "pos_robot j = quat_rotate kUnityToRobot (j ! 0, j ! 1, j ! 2)"
  by (simp add: pos_robot_def rotate_unity)

text \<open>The same body somewhere else: every joint turned by \<open>g\<close> and shifted by \<open>t\<close>, in headset axes.\<close>

definition move_joint :: "quat \<Rightarrow> vec3 \<Rightarrow> body_joint \<Rightarrow> body_joint" where
  "move_joint g t j =
     (case v3_add (quat_rotate g (j ! 0, j ! 1, j ! 2)) t of (x, y, z) \<Rightarrow>
      case quat_mul g (joint_quat j) of (w, a, b, c) \<Rightarrow> [x, y, z, a, b, c, w])"

lemma joint_quat_move: "joint_quat (move_joint g t j) = quat_mul g (joint_quat j)"
  by (simp add: move_joint_def joint_quat_def case_prod_unfold)

definition unity_turn :: "quat \<Rightarrow> quat" where
  "unity_turn g = quat_mul kUnityToRobot (quat_mul g (quat_conjugate kUnityToRobot))"

lemma unity_turn_unit: "unit_quat g \<Longrightarrow> unit_quat (unity_turn g)"
  by (simp add: unity_turn_def unit_quat_mul unit_quat_conjugate)

lemma quat_robot_move: "quat_robot (move_joint g t j) = quat_mul (unity_turn g) (quat_robot j)"
proof -
  have "quat_mul (quat_conjugate kUnityToRobot) (quat_mul kUnityToRobot q) = q" for q
    using quat_conjugate_inverse(1)[OF unit_unity] by (simp flip: quat_mul_assoc)
  then show ?thesis
    by (simp add: quat_robot_def unity_turn_def joint_quat_move quat_mul_assoc)
qed

lemma quat_conjugate_mul: "quat_conjugate (quat_mul p q) = quat_mul (quat_conjugate q) (quat_conjugate p)"
  by (cases p; cases q) (simp add: quat_mul_hamilton algebra_simps)

lemma rotate_unity_turn:
  assumes "unit_quat g"
  shows "quat_rotate (unity_turn g) (quat_rotate kUnityToRobot v) = quat_rotate kUnityToRobot (quat_rotate g v)"
proof -
  have "quat_mul (unity_turn g) kUnityToRobot = quat_mul kUnityToRobot g"
    using quat_conjugate_inverse(1)[OF unit_unity] by (simp add: unity_turn_def quat_mul_assoc)
  then show ?thesis
    using assms by (metis quat_rotate_mul unit_unity unity_turn_unit)
qed

lemma pos_robot_move:
  assumes "unit_quat g"
  shows "pos_robot (move_joint g t j) = v3_add (quat_rotate (unity_turn g) (pos_robot j)) (quat_rotate kUnityToRobot t)"
  unfolding pos_robot_rotate rotate_unity_turn[OF assms]
  by (simp add: move_joint_def case_prod_unfold flip: v3_rotate_add)

lemma v3_sub_add_right: "v3_sub (v3_add a c) (v3_add b c) = v3_sub a b"
  by (cases a; cases b; cases c) simp

text \<open>
  C32: The three points depend on the operator's posture only: walking to another place in the room
  and turning there, by any translation and any rotation of the whole body, leaves the raw
  wrists and neck, and with them the target published to the robot, exactly as they were.
\<close>
theorem operator_motion_cancels:
  assumes g: "unit_quat g" and body: "length b = 24" "\<forall>k \<in> {0, 22, 23, 12}. unit_quat (joint_quat (b ! k))"
  shows "extract_raw (map (move_joint g t) b) = extract_raw b
    \<and> apply_calibration (extract_raw (map (move_joint g t) b)) c = apply_calibration (extract_raw b) c"
proof -
  let ?m = "map (move_joint g t) b" and ?G = "unity_turn g"
  have ix: "kSmplIdx ! k < 24" "unit_quat (joint_quat (b ! (kSmplIdx ! k)))" if "k < 4" for k
    using body(2) that by (auto simp: kSmplIdx_def less_Suc_eq numeral_eq_Suc)
  have unit: "unit_quat (quat_robot (b ! (kSmplIdx ! k)))" if "k < 4" for k
    using ix[OF that] by (simp add: quat_robot_def unit_quat_mul unit_quat_conjugate)
  have pq: "point_quat ?m k = quat_mul ?G (point_quat b k)" if "k < 4" for k
    using ix[OF that] body(1) by (simp add: point_quat_def quat_robot_move quat_mul_assoc)
  have pu: "unit_quat (point_quat b k)" if "k < 4" for k
    using unit[OF that] unit_offsets[OF that] by (simp add: point_quat_def unit_quat_mul)
  have G: "unit_quat ?G" using g by (rule unity_turn_unit)
  have inv: "quat_mul (quat_conjugate ?G) (quat_mul ?G q) = q" for q
    using quat_conjugate_inverse(1)[OF G] by (simp flip: quat_mul_assoc)
  have rinv: "quat_rotate (quat_conjugate ?G) (quat_rotate ?G v) = v" for v
    using quat_conjugate_inverse(1)[OF G] G
    by (metis quat_rotate_mul quat_rotate_one unit_quat_conjugate)
  have pos: "v3_sub (pos_robot (?m ! (kSmplIdx ! k))) (pos_robot (?m ! (kSmplIdx ! 0)))
      = quat_rotate ?G (v3_sub (pos_robot (b ! (kSmplIdx ! k))) (pos_robot (b ! (kSmplIdx ! 0))))"
    if "k < 4" for k
    using ix[OF that] ix[of 0] body(1)
    by (simp add: pos_robot_move[OF g] v3_sub_add_right v3_rotate_sub)
  have conj: "quat_conjugate (point_quat ?m 0) = quat_mul (quat_conjugate (point_quat b 0)) (quat_conjugate ?G)"
    by (simp add: pq quat_conjugate_mul)
  have "quat_rotate (quat_conjugate (point_quat ?m 0)) (quat_rotate ?G v)
      = quat_rotate (quat_conjugate (point_quat b 0)) v" for v
    unfolding conj using quat_rotate_mul[OF unit_quat_conjugate[OF pu[of 0]] unit_quat_conjugate[OF G]] rinv
    by simp
  moreover have "quat_mul (quat_conjugate (point_quat ?m 0)) (point_quat ?m k)
      = quat_mul (quat_conjugate (point_quat b 0)) (point_quat b k)" if "k < 4" for k
    using inv by (simp add: pq that quat_conjugate_mul quat_mul_assoc)
  ultimately have "extract_raw ?m = extract_raw b"
    by (simp add: extract_raw_def Let_def pos[of 1] pos[of 2] pos[of 3] del: One_nat_def)
  then show ?thesis by simp
qed

lemma operator_motion_cancels_witness:
  "extract_raw (map (move_joint (3/5, 0, 4/5, 0) (1, 2, 3)) rest_body) = extract_raw rest_body"
proof -
  have "unit_quat (3/5, 0, 4/5, 0)" "length rest_body = 24"
    by (simp_all add: unit_quat_def quat_norm2_def rest_body_def)
  moreover have "\<forall>k \<in> {0, 22, 23, 12}. unit_quat (joint_quat (rest_body ! k))"
    by (simp add: rest_body_def joint_quat_def unit_quat_def quat_norm2_def)
  ultimately show ?thesis using operator_motion_cancels by blast
qed

section \<open>What a calibration achieves\<close>

lemma conj_cancel: "unit_quat n \<Longrightarrow> quat_mul (quat_conjugate n) (quat_mul n q) = q"
  using quat_conjugate_inverse(1)[of n] by (simp flip: quat_mul_assoc)

lemma offset_rotation:
  "unit_quat n \<Longrightarrow> quat_mul (quat_mul r (quat_conjugate (quat_mul n q))) (quat_mul n q2)
     = quat_mul r (quat_mul (quat_conjugate q) q2)"
  by (simp add: quat_conjugate_mul quat_mul_assoc conj_cancel)

lemma offset_position: "v3_sub (quat_rotate n x) (v3_sub (quat_rotate n y) r) = v3_add r (quat_rotate n (v3_sub x y))"
  by (simp add: v3_rotate_sub, cases "quat_rotate n x"; cases "quat_rotate n y"; cases r) simp

text \<open>
  C21: Engaging teleoperation maps the operator's pose at that moment onto the robot's reference
  pose: the wrist targets start exactly at the reference positions and orientations, with a
  fresh neck capture the neck target starts upright 0.4 m above the pelvis, and from there each
  wrist target moves by the operator's own displacement (seen from the calibrated neck) and
  turns by the operator's own rotation since the capture.
\<close>
theorem calibration_anchors_wrists:
  fixes p :: q_provider and raw raw2 :: raw3point and c :: calibration
  assumes "list_all unit_quat (raw_quat raw)" "length (raw_quat raw) = 3"
    and "have_neck_calib c \<longrightarrow> unit_quat (neck_quat_inv c)"
  defines "c' \<equiv> capture_calibration p raw c" and "L \<equiv> wrist_reference p True" and "R \<equiv> wrist_reference p False"
  shows "(\<not> have_neck_calib c \<longrightarrow> apply_calibration raw c' =
       \<lparr>vr3_position = vec3_list (fst L) @ vec3_list (fst R) @ [0, 0, 0.4],
        vr3_orientation = quat_list (snd L) @ quat_list (snd R) @ [1, 0, 0, 0]\<rparr>)
    \<and> apply_calibration raw2 c' =
       \<lparr>vr3_position =
          vec3_list (v3_add (fst L) (quat_rotate (neck_quat_inv c') (v3_sub (raw_pos raw2 ! 0) (raw_pos raw ! 0))))
          @ vec3_list (v3_add (fst R) (quat_rotate (neck_quat_inv c') (v3_sub (raw_pos raw2 ! 1) (raw_pos raw ! 1))))
          @ vec3_list (neck_point (quat_mul (neck_quat_inv c') (raw_quat raw2 ! 2))),
        vr3_orientation =
          quat_list (quat_mul (snd L) (quat_mul (quat_conjugate (raw_quat raw ! 0)) (raw_quat raw2 ! 0)))
          @ quat_list (quat_mul (snd R) (quat_mul (quat_conjugate (raw_quat raw ! 1)) (raw_quat raw2 ! 1)))
          @ quat_list (quat_mul (neck_quat_inv c') (raw_quat raw2 ! 2))\<rparr>"
proof -
  have q: "unit_quat (raw_quat raw ! 0)" "unit_quat (raw_quat raw ! 1)" "unit_quat (raw_quat raw ! 2)"
    using assms(1,2) by (simp_all add: list_all_length)
  define n where "n = (if have_neck_calib c then neck_quat_inv c else quat_conjugate (raw_quat raw ! 2))"
  have n: "unit_quat n" using assms(3) q(3) by (simp add: n_def unit_quat_conjugate)
  have c': "neck_quat_inv c' = n"
    "lwrist_pos_offset c' = v3_sub (quat_rotate n (raw_pos raw ! 0)) (fst L)"
    "rwrist_pos_offset c' = v3_sub (quat_rotate n (raw_pos raw ! 1)) (fst R)"
    "lwrist_rot_offset c' = quat_mul (snd L) (quat_conjugate (quat_mul n (raw_quat raw ! 0)))"
    "rwrist_rot_offset c' = quat_mul (snd R) (quat_conjugate (quat_mul n (raw_quat raw ! 1)))"
    by (simp_all add: c'_def capture_calibration_def Let_def n_def L_def R_def)
  have later: "apply_calibration r c' =
       \<lparr>vr3_position =
          vec3_list (v3_add (fst L) (quat_rotate n (v3_sub (raw_pos r ! 0) (raw_pos raw ! 0))))
          @ vec3_list (v3_add (fst R) (quat_rotate n (v3_sub (raw_pos r ! 1) (raw_pos raw ! 1))))
          @ vec3_list (neck_point (quat_mul n (raw_quat r ! 2))),
        vr3_orientation =
          quat_list (quat_mul (snd L) (quat_mul (quat_conjugate (raw_quat raw ! 0)) (raw_quat r ! 0)))
          @ quat_list (quat_mul (snd R) (quat_mul (quat_conjugate (raw_quat raw ! 1)) (raw_quat r ! 1)))
          @ quat_list (quat_mul n (raw_quat r ! 2))\<rparr>" for r
    by (simp add: apply_calibration_def Let_def c' offset_rotation[OF n] offset_position)
  have zero: "v3_add x (quat_rotate n (v3_sub y y)) = x" for x y
    by (cases x; cases y; cases n) simp
  have "apply_calibration raw c' =
       \<lparr>vr3_position = vec3_list (fst L) @ vec3_list (fst R) @ [0, 0, 0.4],
        vr3_orientation = quat_list (snd L) @ quat_list (snd R) @ [1, 0, 0, 0]\<rparr>" if "\<not> have_neck_calib c"
  proof -
    have "quat_mul n (raw_quat raw ! 2) = (1, 0, 0, 0)"
      using that quat_conjugate_inverse(1)[OF q(3)] by (simp add: n_def)
    moreover have "vec3_list (neck_point (1, 0, 0, 0)) = [0, 0, 0.4]"
      by (simp add: neck_point_def vec3_list_def kTorsoLinkOffsetZ_def kNeckLinkLength_def)
    moreover have "quat_list (1, 0, 0, 0) = [1, 0, 0, 0]" by (simp add: quat_list_def)
    ultimately show ?thesis
      unfolding later zero quat_conjugate_inverse(1)[OF q(1)] quat_conjugate_inverse(1)[OF q(2)] by simp
  qed
  then show ?thesis unfolding c'(1) using later[of raw2] by blast
qed

lemma calibration_anchors_wrists_witness:
  "vr3_position (apply_calibration \<lparr>raw_pos = [(1, 0, 0), (0, 1, 0), (0, 0, 1)], raw_quat = replicate 3 (3/5, 0, 4/5, 0)\<rparr>
     (capture_calibration None \<lparr>raw_pos = [(1, 0, 0), (0, 1, 0), (0, 0, 1)], raw_quat = replicate 3 (3/5, 0, 4/5, 0)\<rparr>
        calibration_new))
   = [0.3797694914, 0.1236272185, 0.0952214409, 0.3797694914, - 0.1236172185, 0.0952214409, 0, 0, 0.4]"
proof -
  let ?r = "\<lparr>raw_pos = [(1, 0, 0), (0, 1, 0), (0, 0, 1)], raw_quat = replicate 3 (3/5, 0, 4/5, 0)\<rparr>"
  have "list_all unit_quat (raw_quat ?r)" "length (raw_quat ?r) = 3"
    by (simp_all add: unit_quat_def quat_norm2_def list_all_length)
  moreover have "\<not> have_neck_calib calibration_new" by (simp add: calibration_new_def)
  ultimately have "apply_calibration ?r (capture_calibration None ?r calibration_new) =
      \<lparr>vr3_position = vec3_list (fst (wrist_reference None True))
         @ vec3_list (fst (wrist_reference None False)) @ [0, 0, 0.4],
       vr3_orientation = quat_list (snd (wrist_reference None True))
         @ quat_list (snd (wrist_reference None False)) @ [1, 0, 0, 0]\<rparr>"
    using calibration_anchors_wrists[of ?r calibration_new None] by blast
  then show ?thesis
    by (simp add: wrist_reference_def vec3_list_def kG1LWristPos_def kG1RWristPos_def del: replicate.simps)
qed

end
