(* ===== verification/Head_Ring.thy ===== *)
theory Head_Ring
  imports Channels
begin

text \<open>
  Rings addressed by the index of their newest element, as the body-pose resampler
  (\<open>include/teleop/smpl_resampler.hpp\<close>) and the delay line of the teleoperation tracker
  (\<open>src/teleop/teleop_tracker.cpp\<close>) keep them: the list such a ring stands for, oldest first,
  and what storing a new element does to it.
\<close>

definition ring_view :: "'a list \<Rightarrow> nat \<Rightarrow> nat \<Rightarrow> 'a list" where
  "ring_view xs head n = map (\<lambda>j. xs ! ((head + length xs - (n - 1 - j)) mod length xs)) [0..<n]"

definition ring_next :: "nat \<Rightarrow> nat \<Rightarrow> nat \<Rightarrow> nat" where
  "ring_next c head n = (if n = 0 then head else (head + 1) mod c)"

lemma length_ring_view [simp]: "length (ring_view xs head n) = n"
  by (simp add: ring_view_def)

text \<open>The element \<open>k\<close> places behind the newest.\<close>

lemma ring_view_behind:
  assumes "k < n"
  shows "xs ! ((head + length xs - k) mod length xs) = ring_view xs head n ! (n - 1 - k)"
  using assms by (simp add: ring_view_def)

lemma ring_view_newest:
  assumes "0 < n" "head < length xs"
  shows "last (ring_view xs head n) = xs ! head"
proof -
  have "last (ring_view xs head n) = ring_view xs head n ! (n - 1)"
    using assms(1) by (simp add: last_conv_nth flip: length_0_conv)
  then show ?thesis using ring_view_behind[of 0 n xs head] assms by simp
qed

lemma ring_slot:
  fixes h k c :: nat
  assumes "h < c" "k < c"
  shows "(h + c - k) mod c = (if k \<le> h then h - k else h + c - k)"
proof (cases "k \<le> h")
  case True
  then have e: "h + c - k = h - k + c" by simp
  have "(h - k + c) mod c = h - k" using assms by (simp only: mod_add_self2) simp
  then show ?thesis using True by (simp only: e if_True)
qed (use assms in simp)

lemma ring_next_slot:
  fixes h k c :: nat
  assumes "h < c" "k < c" "0 < n"
  shows "(ring_next c h n + c - Suc k) mod c = (h + c - k) mod c"
proof (cases "h + 1 = c")
  case True
  then show ?thesis using assms by (auto simp: ring_next_def ring_slot)
next
  case False
  then have "ring_next c h n = h + 1" using assms by (simp add: ring_next_def)
  then show ?thesis using assms by simp
qed

lemma ring_other_slot:
  fixes h k c :: nat
  assumes "h < c" "0 < k" "k < c"
  shows "(h + c - k) mod c \<noteq> h"
  using assms by (auto simp: ring_slot)

lemma ring_view_store:
  assumes "0 < length xs" "head < length xs" "n \<le> length xs"
  shows "ring_view (xs[ring_next (length xs) head n := x]) (ring_next (length xs) head n) (min (length xs) (n + 1))
    = last_n (length xs) (ring_view xs head n @ [x])"
proof (rule nth_equalityI)
  let ?c = "length xs" and ?h = "ring_next (length xs) head n" and ?m = "min (length xs) (n + 1)"
  show "length (ring_view (xs[?h := x]) ?h ?m) = length (last_n ?c (ring_view xs head n @ [x]))" by simp
  fix j
  assume "j < length (ring_view (xs[?h := x]) ?h ?m)"
  then have j: "j < ?m" by simp
  have h: "?h < ?c" using assms by (simp add: ring_next_def)
  define k where "k = ?m - 1 - j"
  have k: "k < ?m" "k < ?c" "j = ?m - 1 - k" using j by (auto simp: k_def)
  have "ring_view (xs[?h := x]) ?h ?m ! j = xs[?h := x] ! ((?h + ?c - k) mod ?c)"
    using ring_view_behind[of k ?m "xs[?h := x]" ?h] k by simp
  also have "\<dots> = last_n ?c (ring_view xs head n @ [x]) ! j"
  proof (cases k)
    case 0
    have "last_n ?c (ring_view xs head n @ [x]) ! j = (ring_view xs head n @ [x]) ! n"
      using k 0 assms by (auto simp: last_n_def min_def nth_append)
    then show ?thesis using h 0 by (simp add: nth_append)
  next
    case (Suc k')
    then have n: "0 < n" "k' < n" using k assms by (auto simp: min_def split: if_splits)
    have "xs[?h := x] ! ((?h + ?c - k) mod ?c) = xs ! ((?h + ?c - k) mod ?c)"
      using ring_other_slot[OF h, of k] k Suc by simp
    also have "\<dots> = ring_view xs head n ! (n - 1 - k')"
      using ring_next_slot[OF assms(2), of k' n] ring_view_behind[OF n(2), of xs head] k Suc n by simp
    also have "\<dots> = last_n ?c (ring_view xs head n @ [x]) ! j"
    proof -
      have "n + 1 - ?c + j = n - 1 - k'" "n - 1 - k' < n" "n + 1 - ?c \<le> n"
        using k Suc n assms by (auto simp: min_def split: if_splits)
      then show ?thesis by (simp add: last_n_def nth_append flip: drop_append)
    qed
    finally show ?thesis .
  qed
  finally show "ring_view (xs[?h := x]) ?h ?m ! j = last_n ?c (ring_view xs head n @ [x]) ! j" .
qed

end
