(* ===== verification/Smpl_Resampler.thy ===== *)
theory Smpl_Resampler
  imports Policy Head_Ring
begin

text \<open>
  The resampling of the irregular headset stream onto the tracker's 50 Hz grid
  (\<open>include/teleop/smpl_resampler.hpp\<close>), and its equivalence with plain interpolation over
  the list of the newest accepted samples.
\<close>

section \<open>The resampler\<close>

record resampler_params =
  rp_delay_factor :: real
  rp_min_delay_s :: real
  rp_max_delay_s :: real
  rp_ema :: real
  rp_seed_interval_s :: real

definition resampler_params_default :: resampler_params where
  "resampler_params_default = \<lparr>rp_delay_factor = 1.5, rp_min_delay_s = 0.02, rp_max_delay_s = 0.1,
     rp_ema = 0.1, rp_seed_interval_s = 1 / 30\<rparr>"

definition kSmplRing :: nat where "kSmplRing = 8"

definition smpl_pose_zero :: smpl_pose where
  "smpl_pose_zero = \<lparr>joints_local = replicate 24 (0, 0, 0), anchor_quat = (0, 0, 0, 0),
     wrist_joint_pos = replicate 6 0\<rparr>"

record resampler =
  rs_params :: resampler_params
  rs_poses :: "smpl_pose list"
  rs_times :: "time list"
  rs_head :: nat
  rs_count :: nat
  rs_interval_s :: real

definition resampler_new :: resampler where
  "resampler_new = \<lparr>rs_params = resampler_params_default, rs_poses = replicate kSmplRing smpl_pose_zero,
     rs_times = replicate kSmplRing 0, rs_head = 0, rs_count = 0, rs_interval_s = 1 / 30\<rparr>"

definition rs_reset :: "resampler \<Rightarrow> resampler" where
  "rs_reset r = r\<lparr>rs_count := 0, rs_head := 0, rs_interval_s := rp_seed_interval_s (rs_params r)\<rparr>"

definition newest_t :: "resampler \<Rightarrow> time" where
  "newest_t r = rs_times r ! rs_head r"

text \<open>The last three lines of \<open>push\<close>.\<close>

definition rs_store :: "smpl_pose \<times> time \<Rightarrow> resampler \<Rightarrow> resampler" where
  "rs_store x r =
     r\<lparr>rs_poses := (rs_poses r)[rs_head r := fst x], rs_times := (rs_times r)[rs_head r := snd x],
       rs_count := (if rs_count r < kSmplRing then rs_count r + 1 else rs_count r)\<rparr>"

definition rs_push :: "smpl_pose \<Rightarrow> time \<Rightarrow> resampler \<Rightarrow> resampler" where
  "rs_push pose t r =
     (if rs_count r > 0 then
        (let dt = real_of_int (t - newest_t r) / 10 ^ 9
         in if dt \<le> 0 then r
            else rs_store (pose, t)
              (r\<lparr>rs_interval_s := (if rs_count r = 1 then dt
                   else (1 - rp_ema (rs_params r)) * rs_interval_s r + rp_ema (rs_params r) * dt),
                 rs_head := (rs_head r + 1) mod kSmplRing\<rparr>))
      else rs_store (pose, t) r)"

definition rs_delay_s :: "resampler \<Rightarrow> real" where
  "rs_delay_s r = clamp (rp_delay_factor (rs_params r) * rs_interval_s r)
     (rp_min_delay_s (rs_params r)) (rp_max_delay_s (rs_params r))"

definition alpha_for :: "time \<Rightarrow> time \<Rightarrow> time \<Rightarrow> real" where
  "alpha_for t0 t1 target =
     (let span = real_of_int (t1 - t0) / 10 ^ 9
      in if span \<le> 0 then 1 else clamp (real_of_int (target - t0) / 10 ^ 9 / span) 0 1)"

definition lerp1 :: "real \<Rightarrow> real \<Rightarrow> real \<Rightarrow> real" where
  "lerp1 alpha a b = a + alpha * (b - a)"

definition lerp3 :: "real \<Rightarrow> vec3 \<Rightarrow> vec3 \<Rightarrow> vec3" where
  "lerp3 alpha a b = (case a of (a0, a1, a2) \<Rightarrow> case b of (b0, b1, b2) \<Rightarrow>
     (lerp1 alpha a0 b0, lerp1 alpha a1 b1, lerp1 alpha a2 b2))"

definition smpl_lerp :: "smpl_pose \<Rightarrow> smpl_pose \<Rightarrow> real \<Rightarrow> smpl_pose" where
  "smpl_lerp a b alpha =
     \<lparr>joints_local = map (\<lambda>j. lerp3 alpha (joints_local a ! j) (joints_local b ! j)) [0..<24],
      anchor_quat = quat_slerp (anchor_quat a) (anchor_quat b) alpha,
      wrist_joint_pos = map (\<lambda>i. lerp1 alpha (wrist_joint_pos a ! i) (wrist_joint_pos b ! i)) [0..<6]\<rparr>"

text \<open>The walk from the newest sample back; \<open>newer\<close> is a ring index.\<close>

fun rs_walk :: "resampler \<Rightarrow> time \<Rightarrow> nat \<Rightarrow> nat list \<Rightarrow> smpl_pose" where
  "rs_walk r target newer [] = rs_poses r ! newer"
| "rs_walk r target newer (k # ks) =
     (let older = (rs_head r + kSmplRing - k) mod kSmplRing
      in if rs_times r ! older \<le> target
         then smpl_lerp (rs_poses r ! older) (rs_poses r ! newer)
                (alpha_for (rs_times r ! older) (rs_times r ! newer) target)
         else rs_walk r target older ks)"

definition rs_target :: "resampler \<Rightarrow> time \<Rightarrow> time" where
  "rs_target r now = now - trunc_real (rs_delay_s r * 10 ^ 9)"

definition rs_sample :: "resampler \<Rightarrow> time \<Rightarrow> smpl_pose option" where
  "rs_sample r now =
     (if rs_count r = 0 then None
      else let target = rs_target r now
           in if target \<ge> newest_t r then Some (rs_poses r ! rs_head r)
              else Some (rs_walk r target (rs_head r) [1..<rs_count r]))"

section \<open>The reference: interpolation over a list of samples\<close>

type_synonym sample = "smpl_pose \<times> time"

text \<open>Newest sample first: held after the newest, before the oldest the oldest.\<close>

fun interpolate :: "sample list \<Rightarrow> time \<Rightarrow> smpl_pose" where
  "interpolate [] t = smpl_pose_zero"
| "interpolate [x] t = fst x"
| "interpolate (x # y # xs) t =
     (if snd x \<le> t then fst x
      else if snd y \<le> t then smpl_lerp (fst y) (fst x) (alpha_for (snd y) (snd x) t)
      else interpolate (y # xs) t)"

text \<open>Only a sample newer than all before it is accepted.\<close>

definition accept :: "sample list \<Rightarrow> sample \<Rightarrow> sample list" where
  "accept hist x = (if hist \<noteq> [] \<and> snd x \<le> snd (last hist) then hist else hist @ [x])"

definition accepted_log :: "sample list \<Rightarrow> sample list" where
  "accepted_log xs = foldl accept [] xs"

section \<open>The ring stands for the newest accepted samples\<close>

definition rs_ok :: "resampler \<Rightarrow> bool" where
  "rs_ok r \<longleftrightarrow> length (rs_poses r) = kSmplRing \<and> length (rs_times r) = kSmplRing
     \<and> rs_head r < kSmplRing \<and> rs_count r \<le> kSmplRing"

definition rs_items :: "resampler \<Rightarrow> sample list" where
  "rs_items r = zip (ring_view (rs_poses r) (rs_head r) (rs_count r))
                    (ring_view (rs_times r) (rs_head r) (rs_count r))"

lemma length_rs_items [simp]: "length (rs_items r) = rs_count r"
  by (simp add: rs_items_def)

definition rs_advance :: "resampler \<Rightarrow> resampler" where
  "rs_advance r = r\<lparr>rs_head := ring_next kSmplRing (rs_head r) (rs_count r)\<rparr>"

definition rs_put :: "sample \<Rightarrow> resampler \<Rightarrow> resampler" where
  "rs_put x r = rs_store x (rs_advance r)"

lemma last_n_zip: "length xs = length ys \<Longrightarrow> last_n n (zip xs ys) = zip (last_n n xs) (last_n n ys)"
  by (simp add: last_n_def drop_zip)

lemma rs_items_put:
  assumes "rs_ok r"
  shows "rs_items (rs_put x r) = last_n kSmplRing (rs_items r @ [x])"
proof -
  let ?h = "ring_next kSmplRing (rs_head r) (rs_count r)"
  have ok: "length (rs_poses r) = kSmplRing" "length (rs_times r) = kSmplRing" "rs_head r < kSmplRing"
    "rs_count r \<le> kSmplRing" "0 < kSmplRing"
    using assms by (auto simp: rs_ok_def kSmplRing_def)
  have fields: "rs_poses (rs_put x r) = (rs_poses r)[?h := fst x]" "rs_times (rs_put x r) = (rs_times r)[?h := snd x]"
    "rs_head (rs_put x r) = ?h" "rs_count (rs_put x r) = min kSmplRing (rs_count r + 1)"
    using ok by (auto simp: rs_put_def rs_store_def rs_advance_def)
  have "rs_items (rs_put x r) = zip (last_n kSmplRing (ring_view (rs_poses r) (rs_head r) (rs_count r) @ [fst x]))
      (last_n kSmplRing (ring_view (rs_times r) (rs_head r) (rs_count r) @ [snd x]))"
    using ring_view_store[of "rs_poses r" "rs_head r" "rs_count r" "fst x"]
      ring_view_store[of "rs_times r" "rs_head r" "rs_count r" "snd x"] ok
    by (simp add: rs_items_def fields)
  also have "\<dots> = last_n kSmplRing (rs_items r @ [x])"
    by (simp add: rs_items_def zip_append flip: last_n_zip)
  finally show ?thesis .
qed

lemma rs_ok_put: "rs_ok r \<Longrightarrow> rs_ok (rs_put x r)"
  by (auto simp: rs_ok_def rs_put_def rs_store_def rs_advance_def ring_next_def kSmplRing_def)

interpretation poses: bounded_log rs_ok rs_items "\<lambda>_. kSmplRing" rs_put
  by unfold_locales (auto simp: rs_ok_put rs_items_put, auto simp: kSmplRing_def rs_ok_def)

lemma newest_item:
  assumes "rs_ok r" "0 < rs_count r"
  shows "last (rs_items r) = (rs_poses r ! rs_head r, newest_t r)"
proof -
  have "rs_items r \<noteq> []" using assms(2) by (simp flip: length_0_conv)
  then have "last (rs_items r) = (last (ring_view (rs_poses r) (rs_head r) (rs_count r)),
      last (ring_view (rs_times r) (rs_head r) (rs_count r)))"
    by (simp add: rs_items_def last_zip flip: length_0_conv)
  then show ?thesis using assms by (simp add: ring_view_newest rs_ok_def newest_t_def)
qed

lemma push_items:
  assumes "rs_ok r"
  shows "rs_ok (rs_push p t r)"
    "rs_items (rs_push p t r) = (if 0 < rs_count r \<and> t \<le> newest_t r then rs_items r
       else last_n kSmplRing (rs_items r @ [(p, t)]))"
proof -
  consider "0 < rs_count r" "t \<le> newest_t r" | "rs_count r = 0" | "0 < rs_count r" "newest_t r < t"
    by linarith
  then have "rs_ok (rs_push p t r) \<and> rs_items (rs_push p t r) =
      (if 0 < rs_count r \<and> t \<le> newest_t r then rs_items r else last_n kSmplRing (rs_items r @ [(p, t)]))"
  proof cases
    case 1
    then show ?thesis using assms by (simp add: rs_push_def divide_le_0_iff)
  next
    case 2
    then have "rs_push p t r = rs_put (p, t) r" by (simp add: rs_push_def rs_put_def rs_advance_def ring_next_def)
    then show ?thesis using assms 2 by (simp add: rs_items_put rs_ok_put)
  next
    case 3
    have "rs_push p t r = rs_put (p, t) r\<lparr>rs_interval_s := rs_interval_s (rs_push p t r)\<rparr>"
      using 3 by (simp add: rs_push_def rs_put_def rs_store_def rs_advance_def ring_next_def Let_def divide_le_0_iff)
    moreover have "rs_items (r'\<lparr>rs_interval_s := i\<rparr>) = rs_items r'" "rs_ok (r'\<lparr>rs_interval_s := i\<rparr>) = rs_ok r'" for r' i
      by (simp_all add: rs_items_def rs_ok_def)
    ultimately show ?thesis using assms 3 rs_items_put rs_ok_put by (metis leD)
  qed
  then show "rs_ok (rs_push p t r)"
    "rs_items (rs_push p t r) = (if 0 < rs_count r \<and> t \<le> newest_t r then rs_items r
       else last_n kSmplRing (rs_items r @ [(p, t)]))" by simp_all
qed

section \<open>Sampling is interpolation\<close>

definition rs_slot :: "resampler \<Rightarrow> nat \<Rightarrow> nat" where
  "rs_slot r k = (rs_head r + kSmplRing - k) mod kSmplRing"

lemma slot_item:
  assumes "rs_ok r" "k < rs_count r"
  shows "rev (rs_items r) ! k = (rs_poses r ! rs_slot r k, rs_times r ! rs_slot r k)"
proof -
  have "rev (rs_items r) ! k = rs_items r ! (rs_count r - 1 - k)"
    using assms(2) by (simp add: rev_nth)
  also have "\<dots> = (ring_view (rs_poses r) (rs_head r) (rs_count r) ! (rs_count r - 1 - k),
      ring_view (rs_times r) (rs_head r) (rs_count r) ! (rs_count r - 1 - k))"
    using assms(2) by (simp add: rs_items_def)
  finally show ?thesis
    using assms ring_view_behind[of k "rs_count r" "rs_poses r" "rs_head r"]
      ring_view_behind[of k "rs_count r" "rs_times r" "rs_head r"]
    by (simp add: rs_ok_def rs_slot_def)
qed

lemma walk_interpolates:
  assumes ok: "rs_ok r" and "k \<le> rs_count r" "0 < k" "target < rs_times r ! rs_slot r (k - 1)"
  shows "rs_walk r target (rs_slot r (k - 1)) [k..<rs_count r] = interpolate (drop (k - 1) (rev (rs_items r))) target"
  using assms(2-)
proof (induction k rule: inc_induct)
  case base
  let ?n = "rs_count r"
  have "drop (?n - 1) (rev (rs_items r)) = [rev (rs_items r) ! (?n - 1)]"
    using base by (metis (no_types) Cons_nth_drop_Suc Suc_diff_1 diff_less drop_all le_refl length_rev
        length_rs_items less_numeral_extra(1))
  then show ?case using slot_item[OF ok, of "?n - 1"] base by simp
next
  case (step k)
  let ?x = "rev (rs_items r) ! (k - 1)" and ?y = "rev (rs_items r) ! k"
  have d: "drop (k - 1) (rev (rs_items r)) = ?x # drop k (rev (rs_items r))"
    "drop k (rev (rs_items r)) = ?y # drop (Suc k) (rev (rs_items r))"
    using step by (metis Cons_nth_drop_Suc Suc_diff_1 less_imp_diff_less length_rev length_rs_items,
        simp add: Cons_nth_drop_Suc)
  have x: "?x = (rs_poses r ! rs_slot r (k - 1), rs_times r ! rs_slot r (k - 1))"
    and y: "?y = (rs_poses r ! rs_slot r k, rs_times r ! rs_slot r k)"
    using step slot_item[OF ok] by auto
  have walk: "[k..<rs_count r] = k # [Suc k..<rs_count r]" using step by (simp add: upt_conv_Cons)
  show ?case
  proof (cases "rs_times r ! rs_slot r k \<le> target")
    case True
    then show ?thesis
      unfolding walk rs_walk.simps d x y interpolate.simps
      using step.prems by (simp add: rs_slot_def Let_def)
  next
    case False
    then have "rs_walk r target (rs_slot r k) [Suc k..<rs_count r]
        = interpolate (drop k (rev (rs_items r))) target"
      using step.IH step.hyps by simp
    then have "rs_walk r target (rs_slot r k) [Suc k..<rs_count r]
        = interpolate ((rs_poses r ! rs_slot r k, rs_times r ! rs_slot r k) # drop (Suc k) (rev (rs_items r))) target"
      unfolding d(2) y .
    then show ?thesis
      unfolding walk rs_walk.simps d x y interpolate.simps
      using False step.prems by (simp add: rs_slot_def Let_def)
  qed
qed

lemma sample_interpolates:
  assumes ok: "rs_ok r"
  shows "rs_sample r now = (if rs_items r = [] then None
    else Some (interpolate (rev (rs_items r)) (rs_target r now)))"
proof (cases "rs_count r = 0")
  case True
  then have "rs_items r = []" by (simp flip: length_0_conv)
  with True show ?thesis by (simp add: rs_sample_def)
next
  case False
  then have ne: "rs_items r \<noteq> []" "0 < rs_count r" by (simp_all flip: length_0_conv)
  have head: "rs_slot r 0 = rs_head r" using ok by (simp add: rs_slot_def rs_ok_def)
  have first: "rev (rs_items r) ! 0 = (rs_poses r ! rs_head r, newest_t r)"
    using slot_item[OF ok ne(2)] by (simp add: head newest_t_def)
  show ?thesis
  proof (cases "newest_t r \<le> rs_target r now")
    case True
    have "interpolate xs t = fst (xs ! 0)" if "xs \<noteq> []" "snd (xs ! 0) \<le> t" for xs t
      using that by (cases "(xs, t)" rule: interpolate.cases) auto
    then have "interpolate (rev (rs_items r)) (rs_target r now) = rs_poses r ! rs_head r"
      using first True ne by simp
    then show ?thesis using True False ne by (simp add: rs_sample_def)
  next
    case late: False
    then have "rs_walk r (rs_target r now) (rs_head r) [1..<rs_count r]
        = interpolate (rev (rs_items r)) (rs_target r now)"
      using walk_interpolates[OF ok, of 1 "rs_target r now"] ne(2) by (simp add: head newest_t_def)
    then show ?thesis using late False ne by (simp add: rs_sample_def Let_def)
  qed
qed

definition rs_pushes :: "sample list \<Rightarrow> resampler \<Rightarrow> resampler" where
  "rs_pushes xs r = fold (\<lambda>(p, t). rs_push p t) xs r"

lemma accepted_snoc: "accepted_log (xs @ [x]) = accept (accepted_log xs) x"
  by (simp add: accepted_log_def)

lemma last_last_n: "xs \<noteq> [] \<Longrightarrow> 0 < n \<Longrightarrow> last (last_n n xs) = last xs"
  by (cases xs rule: rev_cases) (simp_all add: last_n_last)

lemma pushes_items:
  assumes "rs_ok r" "rs_count r = 0"
  shows "rs_ok (rs_pushes xs r) \<and> rs_items (rs_pushes xs r) = last_n kSmplRing (accepted_log xs)"
proof (induction xs rule: rev_induct)
  case Nil
  have "rs_items r = []" using assms(2) by (simp flip: length_0_conv)
  then show ?case using assms by (simp add: rs_pushes_def accepted_log_def last_n_def)
next
  case (snoc x xs)
  let ?r = "rs_pushes xs r" and ?log = "accepted_log xs"
  obtain p t where x: "x = (p, t)" by (cases x)
  have IH: "rs_ok ?r" "rs_items ?r = last_n kSmplRing ?log" using snoc by auto
  have step: "rs_pushes (xs @ [(p, t)]) r = rs_push p t ?r" by (simp add: rs_pushes_def)
  have count: "0 < rs_count ?r \<longleftrightarrow> ?log \<noteq> []"
    using arg_cong[OF IH(2), of length] by (auto simp: kSmplRing_def)
  have newest: "newest_t ?r = snd (last ?log)" if "?log \<noteq> []"
  proof -
    have "snd (last (rs_items ?r)) = newest_t ?r" using newest_item[OF IH(1)] count that by simp
    then show ?thesis using IH(2) last_last_n[OF that, of kSmplRing] by (simp add: kSmplRing_def)
  qed
  show ?case
    using push_items[OF IH(1), of p t] count newest IH(2)
    by (auto simp: step accepted_snoc accept_def x last_n_snoc_absorb)
qed

lemma accepted_increasing: "sorted_wrt (<) (map snd (accepted_log xs))"
proof (induction xs rule: rev_induct)
  case (snoc x xs)
  have "snd y \<le> snd (last (accepted_log xs))" if "y \<in> set (accepted_log xs)" for y
    using snoc that
    by (cases "accepted_log xs" rule: rev_cases) (auto simp: sorted_wrt_append less_imp_le)
  then show ?case using snoc
    by (fastforce simp: accepted_snoc accept_def sorted_wrt_append not_le)
qed (simp add: accepted_log_def)

lemma delay_range:
  assumes "rs_params r = resampler_params_default"
  shows "0.02 \<le> rs_delay_s r" "rs_delay_s r \<le> 0.1"
  unfolding rs_delay_s_def assms resampler_params_default_def resampler_params.simps
  by (rule clamp_lower clamp_upper, simp)+

lemma push_params: "rs_params (rs_push p t r) = rs_params r"
  by (simp add: rs_push_def rs_store_def Let_def)

lemma pushes_params: "rs_params (rs_pushes xs r) = rs_params r"
  by (induction xs arbitrary: r) (auto simp: rs_pushes_def push_params)

text \<open>
  C16: Ring, head index and backward walk compute exactly the textbook thing: after any stream of
  headset samples since the reset, with duplicates and late arrivals in it, the pose sampled is
  the interpolation of the newest eight accepted samples at the delayed grid time; the accepted
  times strictly increase, and the delay stays between 20 and 100 milliseconds.
\<close>
theorem resampler_equals_interpolation:
  fixes xs :: "sample list" and r0 :: resampler
  assumes "rs_ok r0" "rs_params r0 = resampler_params_default"
  defines "r \<equiv> rs_pushes xs (rs_reset r0)"
  shows "rs_sample r now = (if accepted_log xs = [] then None
       else Some (interpolate (rev (last_n 8 (accepted_log xs))) (rs_target r now)))
    \<and> sorted_wrt (<) (map snd (accepted_log xs))
    \<and> now - 100000000 \<le> rs_target r now \<and> rs_target r now \<le> now - 20000000"
proof -
  have reset: "rs_ok (rs_reset r0)" "rs_count (rs_reset r0) = 0"
    using assms(1) by (auto simp: rs_ok_def rs_reset_def kSmplRing_def)
  note items = pushes_items[OF reset, of xs, folded r_def]
  have "last_n 8 (accepted_log xs) = [] \<longleftrightarrow> accepted_log xs = []"
    by (auto simp: min_def simp flip: length_0_conv split: if_splits)
  then have "rs_sample r now = (if accepted_log xs = [] then None
       else Some (interpolate (rev (last_n 8 (accepted_log xs))) (rs_target r now)))"
    using items sample_interpolates[of r now] by (simp add: kSmplRing_def)
  moreover have "rs_params r = resampler_params_default"
    using assms(2) by (simp add: r_def pushes_params rs_reset_def)
  then have d: "0.02 \<le> rs_delay_s r" "rs_delay_s r \<le> 0.1" by (rule delay_range)+
  have "20000000 \<le> \<lfloor>rs_delay_s r * 10 ^ 9\<rfloor>" "\<lfloor>rs_delay_s r * 10 ^ 9\<rfloor> \<le> 100000000"
    using d by (simp_all add: le_floor_iff floor_le_iff)
  then have "now - 100000000 \<le> rs_target r now \<and> rs_target r now \<le> now - 20000000"
    using d by (simp add: rs_target_def trunc_real_def)
  ultimately show ?thesis using accepted_increasing by blast
qed

lemma resampler_equals_interpolation_witness:
  "rs_sample (rs_pushes [(sample_pose, 0), (smpl_pose_zero, 0), (sample_pose, 33000000)] (rs_reset resampler_new)) 0
     = Some sample_pose"
proof -
  let ?xs = "[(sample_pose, 0), (smpl_pose_zero, 0), (sample_pose, 33000000)]"
  have ok: "rs_ok resampler_new" "rs_params resampler_new = resampler_params_default"
    by (simp_all add: rs_ok_def resampler_new_def kSmplRing_def)
  let ?r = "rs_pushes ?xs (rs_reset resampler_new)"
  have log: "accepted_log ?xs = [(sample_pose, 0), (sample_pose, 33000000)]"
    by (simp add: accepted_log_def accept_def)
  have "rs_target ?r 0 \<le> - 20000000"
    using resampler_equals_interpolation[OF ok, where now = 0 and xs = ?xs] by simp
  then show ?thesis
    using resampler_equals_interpolation[OF ok, where now = 0 and xs = ?xs] by (simp add: log)
qed

section \<open>No overshoot\<close>

text \<open>A full pose with a unit root whose coordinates lie between two given poses' bounds.\<close>

definition coord_within :: "real \<Rightarrow> real \<Rightarrow> vec3 \<Rightarrow> bool" where
  "coord_within lo hi v = (case v of (x, y, z) \<Rightarrow> lo \<le> x \<and> x \<le> hi \<and> lo \<le> y \<and> y \<le> hi \<and> lo \<le> z \<and> z \<le> hi)"

definition pose_within :: "real \<Rightarrow> real \<Rightarrow> smpl_pose \<Rightarrow> bool" where
  "pose_within lo hi p \<longleftrightarrow> smpl_wf p \<and> unit_quat (anchor_quat p)
     \<and> (\<forall>j<24. coord_within lo hi (joints_local p ! j))
     \<and> (\<forall>i<6. lo \<le> wrist_joint_pos p ! i \<and> wrist_joint_pos p ! i \<le> hi)"

lemma lerp1_mix: "lerp1 alpha a b = mix alpha a b"
  by (simp add: lerp1_def mix_def algebra_simps)

lemma lerp3_within:
  assumes "0 \<le> alpha" "alpha \<le> 1" "coord_within lo hi a" "coord_within lo hi b"
  shows "coord_within lo hi (lerp3 alpha a b)"
  using assms by (auto simp: coord_within_def lerp3_def lerp1_mix intro: mix_between)

lemma smpl_lerp_within:
  assumes "0 \<le> alpha" "alpha \<le> 1" "pose_within lo hi a" "pose_within lo hi b"
  shows "pose_within lo hi (smpl_lerp a b alpha)"
  unfolding pose_within_def
proof (intro conjI allI impI)
  have in_ab: "unit_quat (anchor_quat a)" "unit_quat (anchor_quat b)"
    "\<And>j. j < 24 \<Longrightarrow> coord_within lo hi (joints_local a ! j) \<and> coord_within lo hi (joints_local b ! j)"
    "\<And>i. i < 6 \<Longrightarrow> lo \<le> wrist_joint_pos a ! i \<and> wrist_joint_pos a ! i \<le> hi
       \<and> lo \<le> wrist_joint_pos b ! i \<and> wrist_joint_pos b ! i \<le> hi"
    using assms(3,4) by (auto simp: pose_within_def)
  show "smpl_wf (smpl_lerp a b alpha)" by (simp add: smpl_lerp_def smpl_wf_def)
  show "unit_quat (anchor_quat (smpl_lerp a b alpha))"
    using quat_slerp_unit[OF in_ab(1,2) assms(1,2)] by (simp add: smpl_lerp_def)
  show "coord_within lo hi (joints_local (smpl_lerp a b alpha) ! j)" if "j < 24" for j
    using lerp3_within[OF assms(1,2)] in_ab(3)[OF that] that by (simp add: smpl_lerp_def)
  show "lo \<le> wrist_joint_pos (smpl_lerp a b alpha) ! i" "wrist_joint_pos (smpl_lerp a b alpha) ! i \<le> hi"
    if "i < 6" for i
    using mix_between[OF assms(1,2), of lo "wrist_joint_pos a ! i" hi "wrist_joint_pos b ! i"] in_ab(4)[OF that] that
    by (simp_all add: smpl_lerp_def lerp1_mix)
qed

lemma alpha_range: "0 \<le> alpha_for t0 t1 t \<and> alpha_for t0 t1 t \<le> 1"
  by (simp add: alpha_for_def Let_def clamp_lower clamp_upper)

lemma interpolate_within:
  "xs \<noteq> [] \<Longrightarrow> list_all (\<lambda>x. pose_within lo hi (fst x)) xs \<Longrightarrow> pose_within lo hi (interpolate xs t)"
  by (induction xs t rule: interpolate.induct) (auto simp: alpha_range smpl_lerp_within)

lemma accepted_subset: "set (accepted_log xs) \<subseteq> set xs"
  by (induction xs rule: rev_induct) (auto simp: accepted_snoc accept_def accepted_log_def)

text \<open>
  Resampling never overshoots: if every pose received lies within some bounds and has a unit
  root orientation, so does every pose sampled, whatever the arrival times; it never
  extrapolates, however late the data is.
\<close>
theorem resampling_never_overshoots:
  assumes "rs_ok r0" "list_all (\<lambda>x. pose_within lo hi (fst x)) xs"
    and "rs_sample (rs_pushes xs (rs_reset r0)) now = Some p"
  shows "pose_within lo hi p"
proof -
  have reset: "rs_ok (rs_reset r0)" "rs_count (rs_reset r0) = 0"
    using assms(1) by (auto simp: rs_ok_def rs_reset_def kSmplRing_def)
  note items = pushes_items[OF reset, of xs]
  have "set (last_n kSmplRing (accepted_log xs)) \<subseteq> set xs"
    using accepted_subset[of xs] last_n_suffix[of "accepted_log xs" kSmplRing]
    by (metis (no_types, lifting) Un_iff set_append subset_iff)
  then have "list_all (\<lambda>x. pose_within lo hi (fst x)) (rev (last_n kSmplRing (accepted_log xs)))"
    using assms(2) by (auto simp: list_all_iff)
  then show ?thesis
    using assms(3) items sample_interpolates[of "rs_pushes xs (rs_reset r0)" now]
    by (auto intro: interpolate_within split: if_splits)
qed

lemma resampling_never_overshoots_witness:
  "\<exists>p. rs_sample (rs_pushes [(sample_pose, 0)] (rs_reset resampler_new)) 40000000 = Some p \<and> pose_within 0 3 p"
proof -
  have ok: "rs_ok resampler_new" by (simp add: rs_ok_def resampler_new_def kSmplRing_def)
  have within: "list_all (\<lambda>x. pose_within 0 3 (fst x)) [(sample_pose, 0 :: time)]"
    by (simp add: pose_within_def sample_pose_def smpl_wf_def unit_quat_def quat_norm2_def coord_within_def)
  have "rs_sample (rs_pushes [(sample_pose, 0)] (rs_reset resampler_new)) 40000000 \<noteq> None"
    by (simp add: rs_pushes_def rs_push_def rs_store_def rs_reset_def resampler_new_def rs_sample_def Let_def kSmplRing_def)
  then obtain p where "rs_sample (rs_pushes [(sample_pose, 0)] (rs_reset resampler_new)) 40000000 = Some p" by blast
  with resampling_never_overshoots[OF ok within] show ?thesis by blast
qed

end
