(* ===== verification/Teleop.thy ===== *)
theory Teleop
  imports Calibration Smpl_Resampler Input_Handler
begin

text \<open>
  The teleoperation tracker (\<open>src/teleop/teleop_tracker.cpp\<close>): its 50 Hz loop with the two
  engage gestures, the upper-body and the full-body flavor, the delay line and the two buffers
  the controller reads. Log lines, and the latches that only guard them, are left out.
\<close>

section \<open>State\<close>

definition kHistory :: nat where "kHistory = 16"
definition kCalibHoldTicks :: int where "kCalibHoldTicks = 50"
definition kLookaheadTicks :: int where "kLookaheadTicks = 5"
definition kFrames :: nat where "kFrames = 10"
definition kFullBodyStaleMs :: real where "kFullBodyStaleMs = 500"

record tracker =
  tk_calib :: calibration
  tk_last_body_time :: time
  tk_calib_hold :: int
  tk_calib_latched :: bool
  tk_fb_hold :: int
  tk_fb_latched :: bool
  tk_resampler :: resampler
  tk_history :: "smpl_pose list"
  tk_hist_count :: nat
  tk_hist_head :: nat
  tk_fullbody :: bool
  tk_arm_reach :: "real list"
  tk_calibrated :: bool
  tk_calibrate_request :: bool
  tk_reset_request :: bool
  tk_vr3point_buf :: "vr3_point data_buffer"
  tk_smpl_window_buf :: "smpl_pose list data_buffer"

definition tracker_new :: tracker where
  "tracker_new = \<lparr>tk_calib = calibration_new, tk_last_body_time = 0, tk_calib_hold = 0,
     tk_calib_latched = False, tk_fb_hold = 0, tk_fb_latched = False, tk_resampler = resampler_new,
     tk_history = replicate kHistory smpl_pose_zero, tk_hist_count = 0, tk_hist_head = 0,
     tk_fullbody = False, tk_arm_reach = reach_default, tk_calibrated = False,
     tk_calibrate_request = False, tk_reset_request = False, tk_vr3point_buf = buf_empty,
     tk_smpl_window_buf = buf_empty\<rparr>"

definition request_calibration :: "tracker \<Rightarrow> tracker" where
  "request_calibration t = t\<lparr>tk_calibrate_request := True\<rparr>"

definition reset_calibration :: "tracker \<Rightarrow> tracker" where
  "reset_calibration t = t\<lparr>tk_reset_request := True\<rparr>"

definition calibrated :: "tracker \<Rightarrow> bool" where
  "calibrated t \<longleftrightarrow> tk_calibrated t \<or> tk_fullbody t"

definition tracker_stop :: "tracker \<Rightarrow> tracker" where
  "tracker_stop t = t\<lparr>tk_vr3point_buf := clear_buf (tk_vr3point_buf t),
     tk_smpl_window_buf := clear_buf (tk_smpl_window_buf t)\<rparr>"

section \<open>Gestures\<close>

definition teleop_off :: "tracker \<Rightarrow> tracker" where
  "teleop_off t = t\<lparr>tk_calib := (tk_calib t)\<lparr>have_neck_calib := False\<rparr>, tk_calibrated := False,
     tk_vr3point_buf := clear_buf (tk_vr3point_buf t)\<rparr>"

definition disengage_fullbody :: "tracker \<Rightarrow> tracker" where
  "disengage_fullbody t = t\<lparr>tk_fullbody := False, tk_hist_count := 0,
     tk_smpl_window_buf := clear_buf (tk_smpl_window_buf t)\<rparr>"

definition handle_reset :: "tracker \<Rightarrow> tracker" where
  "handle_reset t =
     (if tk_reset_request t then
        (let t1 = teleop_off (t\<lparr>tk_reset_request := False\<rparr>)
         in if tk_fullbody t1 then disengage_fullbody t1 else t1)
      else t)"

definition vla_holds :: "arb_mode \<Rightarrow> bool" where
  "vla_holds m \<longleftrightarrow> m = KVla \<or> m = KRecovering"

definition b_alone :: "pico_controller option \<Rightarrow> bool" where
  "b_alone ctrl = (case ctrl of None \<Rightarrow> False
     | Some c \<Rightarrow> btn_b c \<and> \<not> btn_a c \<and> \<not> btn_x c \<and> \<not> btn_y c)"

definition a_only :: "pico_controller option \<Rightarrow> bool" where
  "a_only ctrl = (case ctrl of None \<Rightarrow> False
     | Some c \<Rightarrow> btn_a c \<and> \<not> btn_b c \<and> \<not> btn_x c \<and> \<not> btn_y c)"

definition check_calibration_gesture :: "arb_mode \<Rightarrow> pico_controller option \<Rightarrow> tracker \<Rightarrow> tracker" where
  "check_calibration_gesture m ctrl t =
     (if vla_holds m \<or> tk_fullbody t \<or> \<not> b_alone ctrl
      then t\<lparr>tk_calib_hold := 0, tk_calib_latched := False\<rparr>
      else if tk_calib_latched t then t
      else let t1 = t\<lparr>tk_calib_hold := tk_calib_hold t + 1\<rparr>
           in if tk_calib_hold t1 \<ge> kCalibHoldTicks
              then (let t2 = t1\<lparr>tk_calib_latched := True\<rparr>
                    in if tk_calibrated t2 then teleop_off t2 else request_calibration t2)
              else t1)"

definition engage_fullbody :: "tracker \<Rightarrow> tracker" where
  "engage_fullbody t = t\<lparr>tk_hist_count := 0, tk_arm_reach := reach_default,
     tk_resampler := rs_reset (tk_resampler t), tk_fullbody := True\<rparr>"

text \<open>\<open>seen\<close>: the body buffer holds a sample when the gesture reads it.\<close>

definition check_fullbody_gesture ::
    "arb_mode \<Rightarrow> pico_controller option \<Rightarrow> int \<Rightarrow> bool \<Rightarrow> tracker \<Rightarrow> tracker" where
  "check_fullbody_gesture m ctrl loco seen t =
     (if vla_holds m \<or> tk_calibrated t \<or> \<not> a_only ctrl
      then t\<lparr>tk_fb_hold := 0, tk_fb_latched := False\<rparr>
      else if tk_fb_latched t then t
      else let t1 = t\<lparr>tk_fb_hold := tk_fb_hold t + 1\<rparr>
           in if tk_fb_hold t1 \<ge> kCalibHoldTicks
              then (let t2 = t1\<lparr>tk_fb_latched := True\<rparr>
                    in if tk_fullbody t2 then disengage_fullbody t2
                       else if loco \<noteq> loc_code IDLE then t2
                       else if \<not> seen then t2
                       else engage_fullbody t2)
              else t1)"

section \<open>The two flavors\<close>

definition process_body :: "q_provider \<Rightarrow> time \<Rightarrow> body_pose \<Rightarrow> tracker \<Rightarrow> tracker" where
  "process_body provider now body t =
     (let raw = extract_raw body;
          t1 = (if tk_calibrate_request t
                then t\<lparr>tk_calibrate_request := False,
                       tk_calib := capture_calibration provider raw (tk_calib t), tk_calibrated := True\<rparr>
                else t)
      in if \<not> tk_calibrated t1 then t1
         else t1\<lparr>tk_vr3point_buf := set_data now (apply_calibration raw (tk_calib t1)) (tk_vr3point_buf t1)\<rparr>)"

definition ingest_fullbody_sample :: "body_pose \<Rightarrow> time \<Rightarrow> tracker \<Rightarrow> tracker" where
  "ingest_fullbody_sample body stamp t =
     (case smpl_arms_from_tracked_wrists body (smpl_fk body, tk_arm_reach t) of
        (pose, reach) \<Rightarrow> t\<lparr>tk_arm_reach := reach, tk_resampler := rs_push pose stamp (tk_resampler t)\<rparr>)"

definition history_put :: "smpl_pose \<Rightarrow> tracker \<Rightarrow> tracker" where
  "history_put pose t =
     (let head = (if tk_hist_count t = 0 then 0 else (tk_hist_head t + 1) mod kHistory)
      in t\<lparr>tk_hist_head := head, tk_history := (tk_history t)[head := pose],
           tk_hist_count := (if tk_hist_count t < kHistory then tk_hist_count t + 1 else tk_hist_count t)\<rparr>)"

definition frame_depth :: "nat \<Rightarrow> nat \<Rightarrow> int" where
  "frame_depth count f = max 0 (min (kLookaheadTicks - int f) (int count - 1))"

definition build_window :: "tracker \<Rightarrow> smpl_pose list" where
  "build_window t =
     map (\<lambda>f. tk_history t ! nat ((int (tk_hist_head t) - frame_depth (tk_hist_count t) f + int kHistory) mod int kHistory))
       [0..<kFrames]"

definition process_fullbody :: "time \<Rightarrow> time \<Rightarrow> tracker \<Rightarrow> tracker" where
  "process_fullbody grid now t =
     (case rs_sample (tk_resampler t) grid of
        None \<Rightarrow> t
      | Some pose \<Rightarrow>
          (let t1 = history_put pose t
           in t1\<lparr>tk_smpl_window_buf := set_data now (build_window t1) (tk_smpl_window_buf t1)\<rparr>))"

section \<open>The loop\<close>

text \<open>
  What one tick reads. Each gesture reads the arbiter's mode and the controller buffer for
  itself, and the reader may write between the two; \<open>ti_grid\<close> is the tick's start and
  \<open>ti_now\<close> the time its buffers are written and ages taken.
\<close>

record tracker_in =
  ti_grid :: time
  ti_now :: time
  ti_calib_mode :: arb_mode
  ti_calib_ctrl :: "pico_controller option"
  ti_fb_mode :: arb_mode
  ti_fb_ctrl :: "pico_controller option"
  ti_loco :: int
  ti_body_seen :: bool
  ti_body :: "body_pose timestamped"
  ti_provider :: q_provider

definition take_body :: "tracker_in \<Rightarrow> tracker \<Rightarrow> tracker" where
  "take_body i t =
     (case ts_data (ti_body i) of
        None \<Rightarrow> t\<lparr>tk_vr3point_buf := clear_buf (tk_vr3point_buf t)\<rparr>
      | Some body \<Rightarrow>
          if ts_time (ti_body i) \<noteq> tk_last_body_time t then
            (let t1 = process_body (ti_provider i) (ti_now i) body
                        (t\<lparr>tk_last_body_time := ts_time (ti_body i)\<rparr>)
             in if tk_fullbody t1 then ingest_fullbody_sample body (ts_time (ti_body i)) t1 else t1)
          else t)"

definition drive_fullbody :: "tracker_in \<Rightarrow> tracker \<Rightarrow> tracker" where
  "drive_fullbody i t =
     (if \<not> tk_fullbody t then t
      else case ts_data (ti_body i) of
        None \<Rightarrow> disengage_fullbody t
      | Some body \<Rightarrow>
          if get_age_ms (ti_now i) (ti_body i) > kFullBodyStaleMs then disengage_fullbody t
          else process_fullbody (ti_grid i) (ti_now i)
                 (if rs_count (tk_resampler t) = 0
                  then ingest_fullbody_sample body (ts_time (ti_body i)) t else t))"

definition tracker_tick :: "tracker_in \<Rightarrow> tracker \<Rightarrow> tracker" where
  "tracker_tick i t =
     drive_fullbody i
       (take_body i
         (check_fullbody_gesture (ti_fb_mode i) (ti_fb_ctrl i) (ti_loco i) (ti_body_seen i)
           (check_calibration_gesture (ti_calib_mode i) (ti_calib_ctrl i)
             (handle_reset t))))"

section \<open>The delay line\<close>

definition history_ok :: "tracker \<Rightarrow> bool" where
  "history_ok t \<longleftrightarrow> length (tk_history t) = kHistory \<and> tk_hist_head t < kHistory \<and> tk_hist_count t \<le> kHistory"

definition history_items :: "tracker \<Rightarrow> smpl_pose list" where
  "history_items t = ring_view (tk_history t) (tk_hist_head t) (tk_hist_count t)"

lemma length_history_items [simp]: "length (history_items t) = tk_hist_count t"
  by (simp add: history_items_def)

lemma history_items_put:
  assumes "history_ok t"
  shows "history_items (history_put p t) = last_n kHistory (history_items t @ [p])"
proof -
  define t0 where "t0 = (if tk_hist_count t = 0 then t\<lparr>tk_hist_head := 0\<rparr> else t)"
  have same: "history_items t0 = history_items t" "history_put p t0 = history_put p t"
    by (auto simp: t0_def history_items_def ring_view_def history_put_def)
  have ok: "length (tk_history t0) = kHistory" "tk_hist_head t0 < kHistory" "tk_hist_count t0 \<le> kHistory"
    "0 < kHistory" "tk_hist_count t0 = 0 \<Longrightarrow> tk_hist_head t0 = 0"
    using assms by (auto simp: history_ok_def t0_def kHistory_def)
  let ?h = "ring_next kHistory (tk_hist_head t0) (tk_hist_count t0)"
  have "tk_history (history_put p t0) = (tk_history t0)[?h := p]" "tk_hist_head (history_put p t0) = ?h"
    "tk_hist_count (history_put p t0) = min kHistory (tk_hist_count t0 + 1)"
    using ok by (auto simp: history_put_def ring_next_def Let_def)
  then have "history_items (history_put p t0) = last_n kHistory (history_items t0 @ [p])"
    using ring_view_store[of "tk_history t0" "tk_hist_head t0" "tk_hist_count t0" p] ok
    by (simp add: history_items_def)
  then show ?thesis by (simp add: same)
qed

lemma history_ok_put: "history_ok t \<Longrightarrow> history_ok (history_put p t)"
  by (auto simp: history_ok_def history_put_def Let_def kHistory_def)

interpretation delay_line: bounded_log history_ok history_items "\<lambda>_. kHistory" history_put
  by unfold_locales (auto simp: history_ok_put history_items_put, auto simp: kHistory_def history_ok_def)

text \<open>The window of ten frames over a plain list of grid poses, the newest last.\<close>

definition delayed_frames :: "smpl_pose list \<Rightarrow> smpl_pose list" where
  "delayed_frames ps = map (\<lambda>f. ps ! (length ps - 1 - min (5 - f) (length ps - 1))) [0..<10]"

lemma frame_depth_nat: "0 < n \<Longrightarrow> frame_depth n f = int (min (5 - f) (n - 1))"
  by (auto simp: frame_depth_def kLookaheadTicks_def min_def max_def)

lemma window_from_items:
  assumes "history_ok t" "0 < tk_hist_count t"
  shows "build_window t = delayed_frames (history_items t)"
proof -
  have "tk_history t ! nat ((int (tk_hist_head t) - frame_depth (tk_hist_count t) f + int kHistory) mod int kHistory)
      = history_items t ! (tk_hist_count t - 1 - min (5 - f) (tk_hist_count t - 1))" for f
  proof -
    define d where "d = min (5 - f) (tk_hist_count t - 1)"
    have d: "d < tk_hist_count t" "d < kHistory" using assms by (auto simp: kHistory_def d_def)
    have depth: "frame_depth (tk_hist_count t) f = int d" unfolding d_def by (rule frame_depth_nat[OF assms(2)])
    have "int (tk_hist_head t) - int d + int kHistory = int (tk_hist_head t + kHistory - d)"
      using d(2) by linarith
    then have ix: "nat ((int (tk_hist_head t) - int d + int kHistory) mod int kHistory)
        = (tk_hist_head t + kHistory - d) mod kHistory"
      by (simp only: nat_int of_nat_mod[symmetric])
    have len: "length (tk_history t) = kHistory" using assms(1) by (simp add: history_ok_def)
    show ?thesis
      unfolding depth ix history_items_def d_def[symmetric]
      using ring_view_behind[OF d(1), of "tk_history t" "tk_hist_head t"] by (simp only: len)
  qed
  then show ?thesis by (simp add: build_window_def delayed_frames_def kFrames_def)
qed

lemma delayed_frames_last_n:
  assumes "6 \<le> n"
  shows "delayed_frames (last_n n ps) = delayed_frames ps"
proof (cases "length ps \<le> n")
  case False
  have "last_n n ps ! (n - 1 - min (5 - f) (n - 1)) = ps ! (length ps - 1 - min (5 - f) (length ps - 1))" for f
    using False assms by (auto simp: last_n_def intro!: arg_cong[of _ _ "nth ps"])
  then show ?thesis using False by (simp add: delayed_frames_def)
qed simp

text \<open>One event of an engaged session: a device sample, or a tick of the grid.\<close>

datatype fb_event = Device body_pose time | Grid time time

primrec fb_event_step :: "fb_event \<Rightarrow> tracker \<Rightarrow> tracker" where
  "fb_event_step (Device b s) t = ingest_fullbody_sample b s t"
| "fb_event_step (Grid g n) t = process_fullbody g n t"

text \<open>The poses the grid ticks of a session draw from the resampler.\<close>

fun grid_poses :: "fb_event list \<Rightarrow> tracker \<Rightarrow> smpl_pose list" where
  "grid_poses [] t = []"
| "grid_poses (e # es) t =
     (case e of
        Device _ _ \<Rightarrow> []
      | Grid g n \<Rightarrow> (case rs_sample (tk_resampler t) g of None \<Rightarrow> [] | Some p \<Rightarrow> [p]))
     @ grid_poses es (fb_event_step e t)"

lemma ingest_keeps:
  "history_ok (ingest_fullbody_sample b s t) = history_ok t"
  "history_items (ingest_fullbody_sample b s t) = history_items t"
  "tk_smpl_window_buf (ingest_fullbody_sample b s t) = tk_smpl_window_buf t"
  by (auto simp: ingest_fullbody_sample_def history_ok_def history_items_def split: prod.split)

lemma session_window:
  assumes "history_ok t" "history_items t = last_n kHistory ps"
    and "get_data (tk_smpl_window_buf t) = (if ps = [] then None else Some (delayed_frames ps))"
  shows "get_data (tk_smpl_window_buf (fold fb_event_step es t))
      = (let qs = ps @ grid_poses es t in if qs = [] then None else Some (delayed_frames qs))"
  using assms
proof (induction es arbitrary: t ps)
  case (Cons e es)
  show ?case
  proof (cases e)
    case (Device b s)
    then show ?thesis
      using Cons.IH[of "ingest_fullbody_sample b s t" ps] Cons.prems by (simp add: ingest_keeps)
  next
    case (Grid g n)
    show ?thesis
    proof (cases "rs_sample (tk_resampler t) g")
      case None
      then show ?thesis using Grid Cons.IH[OF Cons.prems] by (simp add: process_fullbody_def)
    next
      case (Some p)
      let ?t = "process_fullbody g n t"
      have put: "history_ok (history_put p t)" "history_items (history_put p t) = last_n kHistory (ps @ [p])"
        using Cons.prems by (simp_all add: history_ok_put history_items_put last_n_snoc_absorb)
      then have "0 < tk_hist_count (history_put p t)"
        by (metis delay_line.put_nonempty Cons.prems(1) length_greater_0_conv length_history_items)
      then have "build_window (history_put p t) = delayed_frames (ps @ [p])"
        using put by (simp add: window_from_items delayed_frames_last_n kHistory_def)
      then have t: "history_ok ?t" "history_items ?t = last_n kHistory (ps @ [p])"
        "get_data (tk_smpl_window_buf ?t) = Some (delayed_frames (ps @ [p]))"
        using put Some by (simp_all add: process_fullbody_def Let_def history_ok_def history_items_def)
      then show ?thesis using Cons.IH[of ?t "ps @ [p]"] Some Grid by (simp add: Let_def)
    qed
  qed
qed (auto simp: Let_def)

text \<open>
  C17: The full-body window is the operator's motion five ticks late, whatever the stream does: in a
  session that starts with an engage, after any interleaving of device samples and grid ticks,
  the ten frames published are exactly those of the plain list of grid poses: frame f is
  the pose 5 - f ticks behind the newest, the oldest pose during warm-up, the newest from
  frame 5 on; nothing is published before the first grid pose.
\<close>
theorem window_is_delayed_motion:
  fixes t0 :: tracker and es :: "fb_event list"
  assumes "history_ok t0" "get_data (tk_smpl_window_buf t0) = None"
  defines "t \<equiv> engage_fullbody t0" and "ps \<equiv> grid_poses es (engage_fullbody t0)"
  shows "get_data (tk_smpl_window_buf (fold fb_event_step es t)) =
      (if ps = [] then None else Some (delayed_frames ps))
    \<and> (ps \<noteq> [] \<longrightarrow> drop 5 (delayed_frames ps) = replicate 5 (last ps))"
proof -
  have "history_ok t" "history_items t = last_n kHistory []" "get_data (tk_smpl_window_buf t) = None"
    using assms by (simp_all add: engage_fullbody_def history_ok_def history_items_def ring_view_def)
  from session_window[OF this(1,2), of es] this(3)
  have "get_data (tk_smpl_window_buf (fold fb_event_step es t)) =
      (if ps = [] then None else Some (delayed_frames ps))"
    by (simp add: Let_def t_def ps_def)
  moreover have "drop 5 (delayed_frames ps) = replicate 5 (last ps)" if "ps \<noteq> []"
    using that by (intro nth_equalityI) (simp_all add: delayed_frames_def last_conv_nth)
  ultimately show ?thesis by blast
qed

lemma window_is_delayed_motion_witness:
  "\<exists>p. get_data (tk_smpl_window_buf (fold fb_event_step [Device rest_body 0, Grid 0 0] (engage_fullbody tracker_new)))
     = Some (replicate 10 p)"
proof -
  let ?t = "engage_fullbody tracker_new" and ?es = "[Device rest_body 0, Grid 0 0]"
  have new: "history_ok tracker_new" "get_data (tk_smpl_window_buf tracker_new) = None"
    by (simp_all add: tracker_new_def history_ok_def kHistory_def buf_empty_def get_data_def)
  obtain p r where arms: "smpl_arms_from_tracked_wrists rest_body (smpl_fk rest_body, reach_default) = (p, r)"
    by (cases "smpl_arms_from_tracked_wrists rest_body (smpl_fk rest_body, reach_default)")
  have "tk_resampler (ingest_fullbody_sample rest_body 0 ?t) = rs_push p 0 (rs_reset resampler_new)"
    by (simp add: ingest_fullbody_sample_def engage_fullbody_def tracker_new_def arms)
  moreover have "rs_sample (rs_push p 0 (rs_reset resampler_new)) 0 = Some p"
    by (simp add: rs_sample_def rs_push_def rs_store_def rs_reset_def resampler_new_def kSmplRing_def Let_def)
  ultimately have "grid_poses ?es ?t = [p]" by simp
  moreover have "delayed_frames [p] = replicate 10 p"
    by (simp add: delayed_frames_def upt_rec numeral_eq_Suc)
  ultimately show ?thesis using window_is_delayed_motion[OF new, of ?es] by auto
qed

section \<open>What reaches the buffers\<close>

text \<open>
  A consistent tracker: the three-point target is published only while calibrated, the window
  only while the full-body flavor is engaged, and what is published has the shape the encoder
  reads.
\<close>

definition resampler_wf :: "resampler \<Rightarrow> bool" where
  "resampler_wf r \<longleftrightarrow> rs_ok r \<and> list_all smpl_wf (rs_poses r)"

definition tracker_wf :: "tracker \<Rightarrow> bool" where
  "tracker_wf t \<longleftrightarrow> history_ok t \<and> list_all smpl_wf (tk_history t) \<and> resampler_wf (tk_resampler t)
     \<and> pred_option (\<lambda>v. vr3_wf v \<and> tk_calibrated t) (get_data (tk_vr3point_buf t))
     \<and> pred_option (\<lambda>w. window_wf w \<and> tk_fullbody t) (get_data (tk_smpl_window_buf t))"

lemma smpl_fk_shape: "smpl_wf (smpl_fk b)"
  by (simp add: smpl_wf_def smpl_fk_def Let_def kSmplNumJoints_def wrist_bounds)

lemma solve_arm_shape:
  "smpl_wf (fst st) \<Longrightarrow> smpl_wf (fst (solve_arm b side s e w x tw st))"
  by (cases st) (simp add: solve_arm_def smpl_wf_def Let_def)

lemma arms_shape: "smpl_wf p \<Longrightarrow> smpl_wf (fst (smpl_arms_from_tracked_wrists b (p, r)))"
  by (simp add: smpl_arms_from_tracked_wrists_def solve_arm_shape)

lemma list_all_update: "list_all P xs \<Longrightarrow> P x \<Longrightarrow> list_all P (xs[i := x])"
  using set_update_subset_insert[of xs i x] by (auto simp: list_all_iff)

lemma push_shape:
  assumes "resampler_wf r" "smpl_wf p"
  shows "resampler_wf (rs_push p s r)"
  using assms push_items(1)[of r p s]
  by (auto simp: resampler_wf_def rs_push_def rs_store_def Let_def list_all_update)

lemma lerp_shape: "smpl_wf (smpl_lerp a b x)"
  by (simp add: smpl_wf_def smpl_lerp_def)

lemma walk_shape:
  "resampler_wf r \<Longrightarrow> newer < kSmplRing \<Longrightarrow> smpl_wf (rs_walk r target newer ks)"
  by (induction r target newer ks rule: rs_walk.induct)
    (auto simp: resampler_wf_def rs_ok_def list_all_length Let_def lerp_shape kSmplRing_def)

lemma sample_shape: "resampler_wf r \<Longrightarrow> rs_sample r now = Some p \<Longrightarrow> smpl_wf p"
  by (auto simp: rs_sample_def Let_def walk_shape list_all_length resampler_wf_def rs_ok_def
      split: if_splits)

lemma window_shape:
  assumes "history_ok t" "0 < tk_hist_count t" "list_all smpl_wf (tk_history t)"
  shows "window_wf (build_window t)"
proof -
  have "list_all smpl_wf (history_items t)"
    using assms by (auto simp: list_all_length history_items_def ring_view_def history_ok_def kHistory_def)
  then have "list_all smpl_wf (delayed_frames (history_items t))"
    using assms(2) by (auto simp: list_all_length delayed_frames_def)
  then show ?thesis using window_from_items[OF assms(1,2)] by (simp add: window_wf_def delayed_frames_def)
qed

lemma apply_shape: "vr3_wf (apply_calibration raw c)"
  by (simp add: vr3_wf_def apply_calibration_def Let_def)

lemmas tracker_ops = request_calibration_def reset_calibration_def tracker_stop_def teleop_off_def
  disengage_fullbody_def engage_fullbody_def

lemma wf_off [intro]: "tracker_wf t \<Longrightarrow> tracker_wf (teleop_off t)"
  by (simp add: tracker_wf_def teleop_off_def history_ok_def)

lemma wf_disengage [intro]: "tracker_wf t \<Longrightarrow> tracker_wf (disengage_fullbody t)"
  by (simp add: tracker_wf_def disengage_fullbody_def history_ok_def)

lemma wf_engage [intro]:
  assumes "tracker_wf t" shows "tracker_wf (engage_fullbody t)"
proof -
  have "resampler_wf (rs_reset (tk_resampler t))"
    using assms by (simp add: tracker_wf_def resampler_wf_def rs_ok_def rs_reset_def kSmplRing_def)
  then show ?thesis using assms
    by (auto simp: tracker_wf_def engage_fullbody_def history_ok_def pred_option_def)
qed

lemma wf_counters [simp]:
  "tracker_wf (t\<lparr>tk_calib_hold := n\<rparr>) = tracker_wf t" "tracker_wf (t\<lparr>tk_calib_latched := b\<rparr>) = tracker_wf t"
  "tracker_wf (t\<lparr>tk_fb_hold := n\<rparr>) = tracker_wf t" "tracker_wf (t\<lparr>tk_fb_latched := b\<rparr>) = tracker_wf t"
  "tracker_wf (t\<lparr>tk_calibrate_request := b\<rparr>) = tracker_wf t" "tracker_wf (t\<lparr>tk_reset_request := b\<rparr>) = tracker_wf t"
  "tracker_wf (t\<lparr>tk_last_body_time := s\<rparr>) = tracker_wf t" "tracker_wf (t\<lparr>tk_arm_reach := a\<rparr>) = tracker_wf t"
  "tracker_wf (t\<lparr>tk_calib := c\<rparr>) = tracker_wf t"
  by (simp_all add: tracker_wf_def history_ok_def)

lemma wf_reset [intro]: "tracker_wf t \<Longrightarrow> tracker_wf (handle_reset t)"
  by (simp add: handle_reset_def Let_def wf_off wf_disengage)

lemma wf_calib_gesture [intro]: "tracker_wf t \<Longrightarrow> tracker_wf (check_calibration_gesture m c t)"
  by (auto simp: check_calibration_gesture_def Let_def request_calibration_def)

lemma wf_fb_gesture [intro]: "tracker_wf t \<Longrightarrow> tracker_wf (check_fullbody_gesture m c l s t)"
  by (auto simp: check_fullbody_gesture_def Let_def)

lemma wf_process [intro]: "tracker_wf t \<Longrightarrow> tracker_wf (process_body q now b t)"
  by (auto simp: process_body_def Let_def tracker_wf_def history_ok_def apply_shape pred_option_def)

lemma wf_ingest [intro]:
  assumes "tracker_wf t" shows "tracker_wf (ingest_fullbody_sample b s t)"
proof -
  obtain p r where arms: "smpl_arms_from_tracked_wrists b (smpl_fk b, tk_arm_reach t) = (p, r)"
    by (cases "smpl_arms_from_tracked_wrists b (smpl_fk b, tk_arm_reach t)")
  have "smpl_wf p" using arms_shape[OF smpl_fk_shape[of b], of b "tk_arm_reach t"] arms by simp
  then have "resampler_wf (rs_push p s (tk_resampler t))"
    using assms by (simp add: push_shape tracker_wf_def)
  then show ?thesis using assms arms
    by (simp add: ingest_fullbody_sample_def tracker_wf_def history_ok_def)
qed

lemma wf_grid [intro]:
  assumes "tracker_wf t" "tk_fullbody t" shows "tracker_wf (process_fullbody g now t)"
proof (cases "rs_sample (tk_resampler t) g")
  case None
  then show ?thesis using assms by (simp add: process_fullbody_def)
next
  case (Some p)
  let ?h = "history_put p t"
  have t: "history_ok t" "list_all smpl_wf (tk_history t)" "smpl_wf p"
    using assms Some sample_shape by (auto simp: tracker_wf_def)
  then have h: "history_ok ?h" "list_all smpl_wf (tk_history ?h)" "0 < tk_hist_count ?h"
    using history_ok_put by (auto simp: history_put_def Let_def list_all_update kHistory_def)
  then have "window_wf (build_window ?h)" by (intro window_shape)
  then show ?thesis using Some assms h
    by (simp add: process_fullbody_def Let_def tracker_wf_def history_ok_def history_put_def)
qed

lemma wf_take [intro]: "tracker_wf t \<Longrightarrow> tracker_wf (take_body i t)"
proof -
  assume wf: "tracker_wf t"
  have "tracker_wf (t\<lparr>tk_vr3point_buf := clear_buf (tk_vr3point_buf t)\<rparr>)"
    using wf by (simp add: tracker_wf_def history_ok_def)
  with wf show ?thesis by (simp add: take_body_def Let_def wf_process wf_ingest split: option.split)
qed

lemma fullbody_ingest [simp]: "tk_fullbody (ingest_fullbody_sample b s t) = tk_fullbody t"
  by (simp add: ingest_fullbody_sample_def split: prod.split)

lemma wf_drive [intro]: "tracker_wf t \<Longrightarrow> tracker_wf (drive_fullbody i t)"
  by (auto simp: drive_fullbody_def split: option.split)

lemma wf_tick [intro]: "tracker_wf t \<Longrightarrow> tracker_wf (tracker_tick i t)"
  unfolding tracker_tick_def by (intro wf_drive wf_take wf_fb_gesture wf_calib_gesture wf_reset)

section \<open>Runs of the tracker\<close>

text \<open>Everything that touches the tracker: its own loop, requests of other threads, the stop.\<close>

inductive tracker_step :: "tracker \<Rightarrow> tracker \<Rightarrow> bool" where
  tick: "tracker_step t (tracker_tick i t)"
| request: "tracker_step t (request_calibration t)"
| reset: "tracker_step t (reset_calibration t)"
| halt: "tracker_step t (tracker_stop t)"

inductive tracker_reachable :: "tracker \<Rightarrow> bool" where
  start: "tracker_reachable tracker_new"
| step: "tracker_reachable t \<Longrightarrow> tracker_step t t' \<Longrightarrow> tracker_reachable t'"

inductive_cases tracker_stepE: "tracker_step t t'"

lemma wf_step: "tracker_step t t' \<Longrightarrow> tracker_wf t \<Longrightarrow> tracker_wf t'"
proof (induction rule: tracker_step.induct)
  case (halt t)
  then show ?case by (simp add: tracker_stop_def tracker_wf_def history_ok_def)
qed (auto simp: request_calibration_def reset_calibration_def)

lemma reachable_wf: "tracker_reachable t \<Longrightarrow> tracker_wf t"
proof (induction rule: tracker_reachable.induct)
  case start
  show ?case
    by (simp add: tracker_wf_def tracker_new_def history_ok_def kHistory_def kSmplRing_def buf_empty_def
        get_data_def resampler_wf_def rs_ok_def resampler_new_def smpl_wf_def smpl_pose_zero_def list_all_length)
qed (rule wf_step)

text \<open>
  C12: In every reachable state of the tracker, whatever the operator presses, whatever the headset
  delivers and whenever other threads request or reset: a three-point target is published only
  while upper-body teleoperation is calibrated and a window only while the full-body flavor is
  engaged, so a released flavor never leaves a target behind; and both have the full shape the
  token encoder reads, ten complete frames or nine and twelve numbers.
\<close>
theorem teleop_targets_gated:
  assumes "tracker_reachable t"
  shows "(\<forall>v. get_data (tk_vr3point_buf t) = Some v \<longrightarrow> tk_calibrated t \<and> vr3_wf v)
    \<and> (\<forall>w. get_data (tk_smpl_window_buf t) = Some w \<longrightarrow> tk_fullbody t \<and> window_wf w)
    \<and> (\<not> calibrated t \<longrightarrow> get_data (tk_vr3point_buf t) = None \<and> get_data (tk_smpl_window_buf t) = None)"
  using reachable_wf[OF assms] unfolding tracker_wf_def calibrated_def
  by (cases "get_data (tk_vr3point_buf t)"; cases "get_data (tk_smpl_window_buf t)") auto

lemma teleop_targets_gated_witness:
  "get_data (tk_vr3point_buf (tracker_stop (request_calibration tracker_new))) = None"
proof -
  have "tracker_reachable (request_calibration tracker_new)"
    by (rule tracker_reachable.step[OF tracker_reachable.start tracker_step.request])
  then have "tracker_reachable (tracker_stop (request_calibration tracker_new))"
    by (rule tracker_reachable.step[OF _ tracker_step.halt])
  moreover have "\<not> calibrated (tracker_stop (request_calibration tracker_new))"
    by (simp add: calibrated_def tracker_ops tracker_new_def)
  ultimately show ?thesis using teleop_targets_gated by blast
qed

section \<open>Effect of each step on the engage state\<close>

lemma reset_effect [simp]:
  "tk_calibrated (handle_reset t) = (tk_calibrated t \<and> \<not> tk_reset_request t)"
  "tk_fullbody (handle_reset t) = (tk_fullbody t \<and> \<not> tk_reset_request t)"
  "tk_calibrate_request (handle_reset t) = tk_calibrate_request t"
  "\<not> tk_reset_request (handle_reset t)"
  "tk_calib_hold (handle_reset t) = tk_calib_hold t" "tk_calib_latched (handle_reset t) = tk_calib_latched t"
  "tk_fb_hold (handle_reset t) = tk_fb_hold t" "tk_last_body_time (handle_reset t) = tk_last_body_time t"
  by (auto simp: handle_reset_def tracker_ops Let_def)

lemma calib_gesture_effect [simp]:
  "tk_fullbody (check_calibration_gesture m c t) = tk_fullbody t"
  "tk_fb_hold (check_calibration_gesture m c t) = tk_fb_hold t"
  "tk_reset_request (check_calibration_gesture m c t) = tk_reset_request t"
  "tk_last_body_time (check_calibration_gesture m c t) = tk_last_body_time t"
  by (auto simp: check_calibration_gesture_def tracker_ops Let_def)

lemma fb_gesture_effect [simp]:
  "tk_calibrated (check_fullbody_gesture m c l s t) = tk_calibrated t"
  "tk_calibrate_request (check_fullbody_gesture m c l s t) = tk_calibrate_request t"
  "tk_reset_request (check_fullbody_gesture m c l s t) = tk_reset_request t"
  "tk_calib_hold (check_fullbody_gesture m c l s t) = tk_calib_hold t"
  "tk_calib_latched (check_fullbody_gesture m c l s t) = tk_calib_latched t"
  "tk_last_body_time (check_fullbody_gesture m c l s t) = tk_last_body_time t"
  by (auto simp: check_fullbody_gesture_def tracker_ops Let_def)

lemma process_effect [simp]:
  "tk_calibrated (process_body q n b t) = (tk_calibrated t \<or> tk_calibrate_request t)"
  "\<not> tk_calibrate_request (process_body q n b t)"
  "tk_fullbody (process_body q n b t) = tk_fullbody t"
  "tk_reset_request (process_body q n b t) = tk_reset_request t"
  "tk_fb_hold (process_body q n b t) = tk_fb_hold t"
  "tk_calib_hold (process_body q n b t) = tk_calib_hold t"
  "tk_calib_latched (process_body q n b t) = tk_calib_latched t"
  "tk_last_body_time (process_body q n b t) = tk_last_body_time t"
  by (auto simp: process_body_def Let_def)

lemma ingest_effect [simp]:
  "tk_calibrated (ingest_fullbody_sample b s t) = tk_calibrated t"
  "tk_calibrate_request (ingest_fullbody_sample b s t) = tk_calibrate_request t"
  "tk_reset_request (ingest_fullbody_sample b s t) = tk_reset_request t"
  "tk_fb_hold (ingest_fullbody_sample b s t) = tk_fb_hold t"
  "tk_calib_hold (ingest_fullbody_sample b s t) = tk_calib_hold t"
  "tk_calib_latched (ingest_fullbody_sample b s t) = tk_calib_latched t"
  "tk_last_body_time (ingest_fullbody_sample b s t) = tk_last_body_time t"
  by (simp_all add: ingest_fullbody_sample_def split: prod.split)

text \<open>A tick meets a new body sample.\<close>

definition new_body :: "tracker_in \<Rightarrow> tracker \<Rightarrow> bool" where
  "new_body i t \<longleftrightarrow> has_data (ti_body i) \<and> ts_time (ti_body i) \<noteq> tk_last_body_time t"

lemma take_effect [simp]:
  "tk_calibrated (take_body i t) = (tk_calibrated t \<or> (tk_calibrate_request t \<and> new_body i t))"
  "tk_calibrate_request (take_body i t) = (tk_calibrate_request t \<and> \<not> new_body i t)"
  "tk_fullbody (take_body i t) = tk_fullbody t"
  "tk_reset_request (take_body i t) = tk_reset_request t"
  "tk_fb_hold (take_body i t) = tk_fb_hold t"
  "tk_calib_hold (take_body i t) = tk_calib_hold t"
  "tk_calib_latched (take_body i t) = tk_calib_latched t"
  "tk_last_body_time (take_body i t) = (if new_body i t then ts_time (ti_body i) else tk_last_body_time t)"
  by (auto simp: take_body_def Let_def new_body_def has_data_def split: option.split)

definition live_body :: "tracker_in \<Rightarrow> bool" where
  "live_body i \<longleftrightarrow> has_data (ti_body i) \<and> get_age_ms (ti_now i) (ti_body i) \<le> kFullBodyStaleMs"

lemma grid_effect [simp]:
  "tk_calibrated (process_fullbody g n t) = tk_calibrated t"
  "tk_calibrate_request (process_fullbody g n t) = tk_calibrate_request t"
  "tk_fullbody (process_fullbody g n t) = tk_fullbody t"
  "tk_reset_request (process_fullbody g n t) = tk_reset_request t"
  "tk_fb_hold (process_fullbody g n t) = tk_fb_hold t"
  "tk_calib_hold (process_fullbody g n t) = tk_calib_hold t"
  "tk_calib_latched (process_fullbody g n t) = tk_calib_latched t"
  "tk_last_body_time (process_fullbody g n t) = tk_last_body_time t"
  by (simp_all add: process_fullbody_def history_put_def Let_def split: option.split)

lemma drive_effect [simp]:
  "tk_calibrated (drive_fullbody i t) = tk_calibrated t"
  "tk_calibrate_request (drive_fullbody i t) = tk_calibrate_request t"
  "tk_fullbody (drive_fullbody i t) = (tk_fullbody t \<and> live_body i)"
  "tk_reset_request (drive_fullbody i t) = tk_reset_request t"
  "tk_fb_hold (drive_fullbody i t) = tk_fb_hold t"
  "tk_calib_hold (drive_fullbody i t) = tk_calib_hold t"
  "tk_calib_latched (drive_fullbody i t) = tk_calib_latched t"
  "tk_last_body_time (drive_fullbody i t) = tk_last_body_time t"
  by (auto simp: drive_fullbody_def disengage_fullbody_def live_body_def has_data_def split: option.split)

section \<open>Gestures over time\<close>

datatype tracker_event = LoopTick tracker_in | CalibrationRequest | CalibrationReset | TrackerStop

primrec tracker_event_step :: "tracker_event \<Rightarrow> tracker \<Rightarrow> tracker" where
  "tracker_event_step (LoopTick i) t = tracker_tick i t"
| "tracker_event_step CalibrationRequest t = request_calibration t"
| "tracker_event_step CalibrationReset t = reset_calibration t"
| "tracker_event_step TrackerStop t = tracker_stop t"

primrec ticks_of :: "tracker_event list \<Rightarrow> tracker_in list" where
  "ticks_of [] = []"
| "ticks_of (e # es) = (case e of LoopTick i \<Rightarrow> [i] | _ \<Rightarrow> []) @ ticks_of es"

lemma ticks_of_append [simp]: "ticks_of (xs @ ys) = ticks_of xs @ ticks_of ys"
  by (induction xs) auto

definition a_held :: "tracker_in \<Rightarrow> bool" where
  "a_held i \<longleftrightarrow> a_only (ti_fb_ctrl i) \<and> \<not> vla_holds (ti_fb_mode i)"

lemma fb_hold_effect:
  "tk_fb_hold (check_fullbody_gesture m c l s t) =
     (if vla_holds m \<or> tk_calibrated t \<or> \<not> a_only c then 0
      else if tk_fb_latched t then tk_fb_hold t else tk_fb_hold t + 1)"
  by (auto simp: check_fullbody_gesture_def tracker_ops Let_def)

lemma fb_engage_effect:
  "tk_fullbody (check_fullbody_gesture m c l s t) \<Longrightarrow> \<not> tk_fullbody t \<Longrightarrow>
     a_only c \<and> \<not> vla_holds m \<and> l = loc_code IDLE \<and> s \<and> \<not> tk_calibrated t \<and> 49 \<le> tk_fb_hold t"
  by (auto simp: check_fullbody_gesture_def tracker_ops Let_def kCalibHoldTicks_def split: if_splits)

lemma hold_within_trailing:
  "0 \<le> tk_fb_hold (fold tracker_event_step es tracker_new)
   \<and> tk_fb_hold (fold tracker_event_step es tracker_new) \<le> int (length (takeWhile a_held (rev (ticks_of es))))"
proof (induction es rule: rev_induct)
  case (snoc e es)
  then show ?case
    by (cases e) (auto simp: tracker_tick_def fb_hold_effect a_held_def tracker_ops)
qed (simp add: tracker_new_def)

lemma trailing_all:
  assumes "n \<le> length (takeWhile P (rev xs))"
  shows "n \<le> length xs" "list_all P (last_n n xs)"
proof -
  show n: "n \<le> length xs"
    using assms length_takeWhile_le[of P "rev xs"] by simp
  have "last_n n xs = rev (take n (rev xs))" by (simp add: last_n_def rev_take)
  also have "take n (rev xs) = take n (takeWhile P (rev xs))"
    using assms by (metis append_take_drop_id take_append takeWhile_eq_take diff_is_0_eq take0 append_Nil2)
  finally show "list_all P (last_n n xs)"
    by (auto simp: list_all_iff dest: in_set_takeD set_takeWhileD)
qed


lemma fb_latch_effects [simp]:
  "tk_fb_latched (handle_reset t) = tk_fb_latched t"
  "tk_fb_latched (check_calibration_gesture m c t) = tk_fb_latched t"
  "tk_fb_latched (take_body i t) = tk_fb_latched t" "tk_fb_latched (drive_fullbody i t) = tk_fb_latched t"
  by (auto simp: handle_reset_def check_calibration_gesture_def tracker_ops take_body_def process_body_def
      drive_fullbody_def process_fullbody_def history_put_def ingest_fullbody_sample_def Let_def
      split: option.split prod.split)

definition pressing :: "bool \<Rightarrow> bool \<Rightarrow> pico_controller option" where
  "pressing a b = Some (pico_neutral\<lparr>btn_a := a, btn_b := b\<rparr>)"

definition sample_tick :: "bool \<Rightarrow> bool \<Rightarrow> time \<Rightarrow> tracker_in" where
  "sample_tick a b s = \<lparr>ti_grid = s, ti_now = s, ti_calib_mode = KNormal, ti_calib_ctrl = pressing a b,
     ti_fb_mode = KNormal, ti_fb_ctrl = pressing a b, ti_loco = loc_code IDLE, ti_body_seen = True,
     ti_body = \<lparr>ts_data = Some rest_body, ts_time = s\<rparr>, ti_provider = None\<rparr>"

lemma sample_tick_simps [simp]:
  "a_only (ti_fb_ctrl (sample_tick a b s)) = (a \<and> \<not> b)" "b_alone (ti_calib_ctrl (sample_tick a b s)) = (b \<and> \<not> a)"
  "\<not> vla_holds (ti_fb_mode (sample_tick a b s))" "\<not> vla_holds (ti_calib_mode (sample_tick a b s))"
  "ti_loco (sample_tick a b s) = loc_code IDLE" "ti_body_seen (sample_tick a b s)"
  "live_body (sample_tick a b s)" "new_body (sample_tick a b s) t = (s \<noteq> tk_last_body_time t)"
  "ti_body (sample_tick a b s) = \<lparr>ts_data = Some rest_body, ts_time = s\<rparr>"
  by (simp_all add: sample_tick_def a_only_def b_alone_def pressing_def pico_neutral_def vla_holds_def
      live_body_def has_data_def get_age_ms_def kFullBodyStaleMs_def new_body_def)

text \<open>The calibration gesture's own counters and requests.\<close>

lemma calib_gesture_run:
  "tk_calib_hold (check_calibration_gesture m c t) =
     (if vla_holds m \<or> tk_fullbody t \<or> \<not> b_alone c then 0
      else if tk_calib_latched t then tk_calib_hold t else tk_calib_hold t + 1)"
  "tk_calib_latched (check_calibration_gesture m c t) =
     (\<not> vla_holds m \<and> \<not> tk_fullbody t \<and> b_alone c \<and> (tk_calib_latched t \<or> 49 \<le> tk_calib_hold t))"
  "tk_calibrated (check_calibration_gesture m c t) =
     (tk_calibrated t \<and> \<not> (\<not> vla_holds m \<and> \<not> tk_fullbody t \<and> b_alone c \<and> \<not> tk_calib_latched t \<and> 49 \<le> tk_calib_hold t))"
  "tk_calibrate_request (check_calibration_gesture m c t) =
     (tk_calibrate_request t \<or>
      (\<not> tk_calibrated t \<and> \<not> vla_holds m \<and> \<not> tk_fullbody t \<and> b_alone c \<and> \<not> tk_calib_latched t \<and> 49 \<le> tk_calib_hold t))"
  by (auto simp: check_calibration_gesture_def tracker_ops Let_def kCalibHoldTicks_def)

lemma fb_gesture_run:
  "tk_fullbody (check_fullbody_gesture m c l s t) =
     (if \<not> vla_holds m \<and> \<not> tk_calibrated t \<and> a_only c \<and> \<not> tk_fb_latched t \<and> 49 \<le> tk_fb_hold t
      then \<not> tk_fullbody t \<and> l = loc_code IDLE \<and> s else tk_fullbody t)"
  "tk_fb_latched (check_fullbody_gesture m c l s t) =
     (\<not> vla_holds m \<and> \<not> tk_calibrated t \<and> a_only c \<and> (tk_fb_latched t \<or> 49 \<le> tk_fb_hold t))"
  by (auto simp: check_fullbody_gesture_def tracker_ops Let_def kCalibHoldTicks_def)

lemma a_held_run:
  fixes s :: time
  assumes "n \<le> 49"
  defines "t \<equiv> fold tracker_event_step (replicate n (LoopTick (sample_tick True False s))) tracker_new"
  shows "tk_fb_hold t = int n \<and> \<not> tk_fb_latched t \<and> \<not> tk_fullbody t \<and> \<not> tk_calibrated t
    \<and> \<not> tk_calibrate_request t \<and> \<not> tk_reset_request t"
  using assms(1) unfolding t_def
proof (induction n)
  case (Suc n)
  then show ?case
    unfolding replicate_Suc replicate_append_same[symmetric]
    by (simp add: tracker_tick_def fb_hold_effect calib_gesture_run fb_gesture_run)
qed (simp add: tracker_new_def)


text \<open>A run of ticks in which B is held alone and every tick brings a new body sample.\<close>

definition b_hold_ticks :: "time \<Rightarrow> tracker_in list \<Rightarrow> bool" where
  "b_hold_ticks since is \<longleftrightarrow>
     list_all (\<lambda>i. b_alone (ti_calib_ctrl i) \<and> \<not> vla_holds (ti_calib_mode i) \<and> \<not> a_only (ti_fb_ctrl i)
       \<and> has_data (ti_body i)) is
     \<and> sorted_wrt (<) (since # map (\<lambda>i. ts_time (ti_body i)) is)"

lemma b_hold_snoc:
  "b_hold_ticks since (is @ [i]) \<Longrightarrow> b_hold_ticks since is \<and> b_alone (ti_calib_ctrl i) \<and> \<not> vla_holds (ti_calib_mode i)
     \<and> \<not> a_only (ti_fb_ctrl i) \<and> has_data (ti_body i)
     \<and> (is = [] \<longrightarrow> since < ts_time (ti_body i)) \<and> (is \<noteq> [] \<longrightarrow> ts_time (ti_body (last is)) < ts_time (ti_body i))"
  by (auto simp: b_hold_ticks_def sorted_wrt_append)

lemma b_hold_run:
  assumes "\<not> tk_fullbody t" "\<not> tk_reset_request t" "\<not> tk_calibrate_request t" "tk_calib_hold t = 0" "\<not> tk_calib_latched t"
    and "b_hold_ticks (tk_last_body_time t) is"
  defines "t' \<equiv> fold tracker_tick is t"
  shows "tk_calib_hold t' = int (min (length is) 50) \<and> (tk_calib_latched t' \<longleftrightarrow> 50 \<le> length is)
    \<and> (tk_calibrated t' \<longleftrightarrow> (if length is < 50 then tk_calibrated t else \<not> tk_calibrated t))
    \<and> \<not> tk_fullbody t' \<and> \<not> tk_reset_request t' \<and> \<not> tk_calibrate_request t'
    \<and> tk_last_body_time t' = (if is = [] then tk_last_body_time t else ts_time (ti_body (last is)))"
  using assms(6) unfolding t'_def
proof (induction "is" rule: rev_induct)
  case (snoc i "is")
  note i = b_hold_snoc[OF snoc.prems]
  note IH = snoc.IH[OF conjunct1[OF i]]
  have "new_body i (fold tracker_tick is t)"
    using IH i by (cases "is = []") (auto simp: new_body_def)
  then show ?case
    using IH i by (auto simp: tracker_tick_def calib_gesture_run fb_gesture_run new_body_def)
qed (use assms in simp)

text \<open>
  C19: Holding B alone toggles upper-body teleoperation exactly once: before the fiftieth tick nothing
  changes, at the fiftieth the calibrated state flips (the next sample, already there, is captured,
  or teleoperation is off), and holding on any longer changes nothing more.
\<close>
theorem b_hold_toggles_teleop_once:
  assumes "\<not> tk_fullbody t" "\<not> tk_reset_request t" "\<not> tk_calibrate_request t" "tk_calib_hold t = 0" "\<not> tk_calib_latched t"
    and "b_hold_ticks (tk_last_body_time t) is"
  shows "tk_calibrated (fold tracker_tick is t) \<longleftrightarrow>
      (if length is < 50 then tk_calibrated t else \<not> tk_calibrated t)"
  using b_hold_run[OF assms] by blast

lemma b_hold_toggles_teleop_once_witness:
  "tk_calibrated (fold tracker_tick (map (\<lambda>k. sample_tick False True (int k + 1)) [0..<60]) tracker_new)"
proof -
  have "b_hold_ticks 0 (map (\<lambda>k. sample_tick False True (int k + 1)) [0..<60])"
    by (auto simp: b_hold_ticks_def list_all_iff has_data_def sorted_wrt_map sorted_wrt_iff_nth_less nth_Cons' simp del: upt_rec_numeral)
  then show ?thesis
    using b_hold_toggles_teleop_once[of tracker_new "map (\<lambda>k. sample_tick False True (int k + 1)) [0..<60]"]
    by (simp add: tracker_new_def del: upt_rec_numeral)
qed

section \<open>One flavor at a time\<close>

text \<open>
  The flavors are exclusive: from a tick with at most one flavor on and no calibration pending, a
  tick leaves at most one on, whatever buttons are held, provided both gestures of the tick see
  the same controller sample. The first engaged wins: with full-body on, B cannot calibrate or
  even request it, and with upper-body on, A cannot engage.
\<close>
theorem flavors_exclusive:
  assumes "\<not> (tk_calibrated t \<and> tk_fullbody t)" "\<not> tk_calibrate_request t" "ti_fb_ctrl i = ti_calib_ctrl i"
  shows "\<not> (tk_calibrated (tracker_tick i t) \<and> tk_fullbody (tracker_tick i t))
    \<and> (tk_fullbody t \<and> \<not> tk_reset_request t \<longrightarrow>
         \<not> tk_calibrated (tracker_tick i t) \<and> \<not> tk_calibrate_request (tracker_tick i t))
    \<and> (tk_calibrated t \<and> \<not> tk_reset_request t \<longrightarrow> \<not> tk_fullbody (tracker_tick i t))"
proof -
  have "\<not> (a_only c \<and> b_alone c)" for c by (auto simp: a_only_def b_alone_def split: option.split)
  then show ?thesis
    using assms by (auto simp: tracker_tick_def calib_gesture_run fb_gesture_run)
qed

lemma flavors_exclusive_witness:
  "\<not> (tk_calibrated (tracker_tick (sample_tick False True 5) (engage_fullbody tracker_new))
      \<and> tk_fullbody (tracker_tick (sample_tick False True 5) (engage_fullbody tracker_new)))"
proof -
  have "ti_fb_ctrl (sample_tick False True 5) = ti_calib_ctrl (sample_tick False True 5)"
    by (simp add: sample_tick_def)
  then show ?thesis
    using flavors_exclusive[of "engage_fullbody tracker_new" "sample_tick False True 5"]
    by (simp add: engage_fullbody_def tracker_new_def)
qed



end
