(* ===== verification/Vr_Reader.thy ===== *)
theory Vr_Reader
  imports Input_Handler
begin

text \<open>
  The headset reader (\<open>src/pico/pico_vr_reader.cpp\<close>): decoding of a state message into a body
  pose and a controller sample, with its exceptions, the daemon probe's role at start, and the
  watchdog of the controller stream. The JSON parser is a parameter, a function from a text to
  the parsed value or nothing for a parse error; conversions of the standard library are written
  out on exact values.
\<close>

section \<open>JSON values\<close>

text \<open>A library value; the keys of an object are distinct there, so the first match is the only one.\<close>

datatype json = JNull | JBool bool | JNum real | JStr string | JArr "json list" | JObj "(string \<times> json) list"

datatype vr_error = JsonException | StodInvalid | StodRange

definition contains :: "json \<Rightarrow> string \<Rightarrow> bool" where
  "contains j k = (case j of JObj m \<Rightarrow> map_of m k \<noteq> None | _ \<Rightarrow> False)"

text \<open>\<open>operator[]\<close> with a key: a missing key or a null value reads as null.\<close>

definition member :: "json \<Rightarrow> string \<Rightarrow> vr_error + json" where
  "member j k = (case j of
     JObj m \<Rightarrow> Inr (case map_of m k of None \<Rightarrow> JNull | Some v \<Rightarrow> v)
   | JNull \<Rightarrow> Inr JNull
   | _ \<Rightarrow> Inl JsonException)"

definition get_string :: "json \<Rightarrow> vr_error + string" where
  "get_string j = (case j of JStr s \<Rightarrow> Inr s | _ \<Rightarrow> Inl JsonException)"

definition value_real :: "json \<Rightarrow> string \<Rightarrow> vr_error + real" where
  "value_real j k = (case j of
     JObj m \<Rightarrow> (case map_of m k of None \<Rightarrow> Inr 0 | Some (JNum x) \<Rightarrow> Inr x | Some _ \<Rightarrow> Inl JsonException)
   | _ \<Rightarrow> Inl JsonException)"

definition value_bool :: "json \<Rightarrow> string \<Rightarrow> vr_error + bool" where
  "value_bool j k = (case j of
     JObj m \<Rightarrow> (case map_of m k of None \<Rightarrow> Inr False | Some (JBool b) \<Rightarrow> Inr b | Some _ \<Rightarrow> Inl JsonException)
   | _ \<Rightarrow> Inl JsonException)"

text \<open>An exception ends the computation.\<close>

definition and_then :: "'e + 'a \<Rightarrow> ('a \<Rightarrow> 'e + 'b) \<Rightarrow> 'e + 'b" where
  "and_then x f = (case x of Inl e \<Rightarrow> Inl e | Inr a \<Rightarrow> f a)"

lemma and_then_simps [simp]: "and_then (Inl e) f = Inl e" "and_then (Inr a) f = f a"
  by (simp_all add: and_then_def)

primrec traverse :: "('a \<Rightarrow> 'e + 'b) \<Rightarrow> 'a list \<Rightarrow> 'e + 'b list" where
  "traverse f [] = Inr []"
| "traverse f (x # xs) = and_then (f x) (\<lambda>y. and_then (traverse f xs) (\<lambda>ys. Inr (y # ys)))"

lemma traverse_Inr: "traverse f xs = Inr ys \<Longrightarrow> length ys = length xs \<and> (\<forall>i<length xs. f (xs ! i) = Inr (ys ! i))"
proof (induction xs arbitrary: ys)
  case (Cons x xs)
  then show ?case
    by (auto simp: and_then_def nth_Cons' less_Suc_eq_0_disj split: sum.splits)
qed simp

lemma traverse_Inl: "traverse f xs = Inl e \<Longrightarrow> \<exists>x \<in> set xs. f x = Inl e"
  by (induction xs) (auto simp: and_then_def split: sum.splits)

lemma traverse_map: "list_all (\<lambda>x. f (g x) = Inr (h x)) xs \<Longrightarrow> traverse f (map g xs) = Inr (map h xs)"
  by (induction xs) auto

section \<open>Numbers in text\<close>

definition is_space :: "char \<Rightarrow> bool" where
  "is_space c \<longleftrightarrow> of_char c \<in> {9, 10, 11, 12, 13, 32 :: nat}"

definition digit_value :: "char \<Rightarrow> nat" where
  "digit_value c =
     (let k = of_char c :: nat
      in if 48 \<le> k \<and> k \<le> 57 then k - 48
         else if 65 \<le> k \<and> k \<le> 90 then k - 55
         else if 97 \<le> k \<and> k \<le> 122 then k - 87
         else 99)"

definition is_digit :: "nat \<Rightarrow> char \<Rightarrow> bool" where
  "is_digit base c \<longleftrightarrow> digit_value c < base"

definition digits_value :: "nat \<Rightarrow> string \<Rightarrow> nat" where
  "digits_value base ds = foldl (\<lambda>n c. base * n + digit_value c) 0 ds"

text \<open>An optional sign, and the rest.\<close>

definition take_sign :: "string \<Rightarrow> bool \<times> string" where
  "take_sign s = (case s of [] \<Rightarrow> (False, [])
     | c # r \<Rightarrow> if c = CHR ''-'' then (True, r) else if c = CHR ''+'' then (False, r) else (False, s))"

definition exponent_of :: "string \<Rightarrow> string \<Rightarrow> int" where
  "exponent_of letters s = (case s of [] \<Rightarrow> 0
     | c # r \<Rightarrow> if c \<notin> set letters then 0
         else (case take_sign r of (neg, r') \<Rightarrow>
                 (let n = int (digits_value 10 (takeWhile (is_digit 10) r')) in if neg then - n else n)))"

text \<open>The longest numeral at the front of a text: digits with an optional point, then an exponent.\<close>

definition numeral_at :: "nat \<Rightarrow> real \<Rightarrow> string \<Rightarrow> string \<Rightarrow> real option" where
  "numeral_at base ebase letters s =
     (let ip = takeWhile (is_digit base) s;
          r = dropWhile (is_digit base) s;
          (fp, r2) = (case r of [] \<Rightarrow> ([], []) | c # r' \<Rightarrow>
             if c = CHR ''.'' then (takeWhile (is_digit base) r', dropWhile (is_digit base) r') else ([], r))
      in if ip @ fp = [] then None
         else Some (real (digits_value base (ip @ fp)) / real base ^ length fp * (ebase powi exponent_of letters r2)))"

definition starts_ci :: "string \<Rightarrow> string \<Rightarrow> bool" where
  "starts_ci low s \<longleftrightarrow> length low \<le> length s
     \<and> list_all2 (\<lambda>a b. digit_value a = digit_value b \<and> digit_value a \<ge> 10 \<and> digit_value a \<noteq> 99) low (take (length low) s)"

definition hex_at :: "string \<Rightarrow> real option" where
  "hex_at s = (case s of z # x # r \<Rightarrow>
       if z = CHR ''0'' \<and> (x = CHR ''x'' \<or> x = CHR ''X'') then numeral_at 16 2 ''pP'' r else None
     | _ \<Rightarrow> None)"

text \<open>
  \<open>std::stod\<close>: an \<open>invalid_argument\<close> when nothing converts, an \<open>out_of_range\<close> when the value
  overflows or is below the least normal double.
\<close>

definition in_double_range :: "real \<Rightarrow> bool" where
  "in_double_range x \<longleftrightarrow> x = 0 \<or> (2 powi (- 1022) \<le> \<bar>x\<bar> \<and> \<bar>x\<bar> < 2 powi 1024 - 2 powi 970)"

definition stod :: "string \<Rightarrow> vr_error + wire_float" where
  "stod s = (case take_sign (dropWhile is_space s) of (neg, r) \<Rightarrow>
     if starts_ci ''inf'' r then Inr (if neg then NegInf else PosInf)
     else if starts_ci ''nan'' r then Inr NaN
     else (case (case hex_at r of None \<Rightarrow> numeral_at 10 10 ''eE'' r | Some v \<Rightarrow> Some v) of
             None \<Rightarrow> Inl StodInvalid
           | Some v \<Rightarrow> if in_double_range v then Inr (Fin (if neg then - v else v)) else Inl StodRange))"

text \<open>The tokens \<open>std::getline\<close> yields with a comma as delimiter; a trailing comma ends no token.\<close>

fun comma_tokens :: "string \<Rightarrow> string list" where
  "comma_tokens [] = []"
| "comma_tokens (c # s) =
     (let tok = takeWhile (\<lambda>x. x \<noteq> CHR '','') (c # s)
      in tok # comma_tokens (drop (length tok + 1) (c # s)))"

definition zero_pose :: "wire_float list" where
  "zero_pose = replicate 7 (Fin 0)"

text \<open>The first seven numbers; missing ones stay zero.\<close>

definition parse_pose :: "string \<Rightarrow> vr_error + wire_float list" where
  "parse_pose s = and_then (traverse stod (take 7 (comma_tokens s)))
     (\<lambda>xs. Inr (xs @ replicate (7 - length xs) (Fin 0)))"

section \<open>The SDK callback\<close>

record vr_reader =
  vr_body_buf :: "wire_float list list data_buffer"
  vr_ctrl_buf :: "pico_controller data_buffer"
  vr_stop_watchdog :: bool
  vr_watchdog_running :: bool
  vr_sdk_open :: bool

definition vr_reader_new :: vr_reader where
  "vr_reader_new = \<lparr>vr_body_buf = buf_empty, vr_ctrl_buf = buf_empty, vr_stop_watchdog = False,
     vr_watchdog_running = False, vr_sdk_open = False\<rparr>"

definition on_body_update :: "time \<Rightarrow> wire_float list list \<Rightarrow> vr_reader \<Rightarrow> vr_reader" where
  "on_body_update now pose r = r\<lparr>vr_body_buf := set_data now pose (vr_body_buf r)\<rparr>"

definition on_controller_update :: "time \<Rightarrow> pico_controller \<Rightarrow> vr_reader \<Rightarrow> vr_reader" where
  "on_controller_update now ctrl r = r\<lparr>vr_ctrl_buf := set_data now ctrl (vr_ctrl_buf r)\<rparr>"

definition parse_joint :: "json \<Rightarrow> vr_error + wire_float list" where
  "parse_joint j =
     (if contains j ''p'' then and_then (member j ''p'') (\<lambda>v. and_then (get_string v) parse_pose)
      else Inr zero_pose)"

text \<open>The first 24 joints; a shorter list leaves the rest zero.\<close>

definition parse_joints :: "json list \<Rightarrow> vr_error + wire_float list list" where
  "parse_joints js = and_then (traverse parse_joint (take 24 js))
     (\<lambda>ps. Inr (ps @ replicate (24 - length ps) zero_pose))"

definition body_section :: "json \<Rightarrow> vr_error + wire_float list list option" where
  "body_section v =
     (if contains v ''Body'' then
        and_then (member v ''Body'') (\<lambda>body.
          if contains body ''joints'' then
            and_then (member body ''joints'') (\<lambda>joints. case joints of
                JArr js \<Rightarrow> and_then (parse_joints js) (\<lambda>p. Inr (Some p))
              | _ \<Rightarrow> Inr None)
          else Inr None)
      else Inr None)"

definition left_hand :: "json \<Rightarrow> pico_controller \<Rightarrow> vr_error + pico_controller" where
  "left_hand l c =
     and_then (value_real l ''axisX'') (\<lambda>x. and_then (value_real l ''axisY'') (\<lambda>y.
     and_then (value_real l ''trigger'') (\<lambda>t. and_then (value_real l ''grip'') (\<lambda>g.
     and_then (value_bool l ''primaryButton'') (\<lambda>p. and_then (value_bool l ''secondaryButton'') (\<lambda>s.
     Inr (c\<lparr>left_axis := (x, y), left_trigger := t, left_grip := g, btn_x := p, btn_y := s\<rparr>)))))))"

definition right_hand :: "json \<Rightarrow> pico_controller \<Rightarrow> vr_error + pico_controller" where
  "right_hand l c =
     and_then (value_real l ''axisX'') (\<lambda>x. and_then (value_real l ''axisY'') (\<lambda>y.
     and_then (value_real l ''trigger'') (\<lambda>t. and_then (value_real l ''grip'') (\<lambda>g.
     and_then (value_bool l ''primaryButton'') (\<lambda>p. and_then (value_bool l ''secondaryButton'') (\<lambda>s.
     Inr (c\<lparr>right_axis := (x, y), right_trigger := t, right_grip := g, btn_a := p, btn_b := s\<rparr>)))))))"

text \<open>One hand, if the message has it; the flag says whether either was there.\<close>

definition controller_side ::
    "json \<Rightarrow> string \<Rightarrow> (json \<Rightarrow> pico_controller \<Rightarrow> vr_error + pico_controller) \<Rightarrow>
     pico_controller \<times> bool \<Rightarrow> vr_error + pico_controller \<times> bool" where
  "controller_side v side read st =
     and_then (member v ''Controller'') (\<lambda>c.
       if contains c side
       then and_then (member c side) (\<lambda>h. and_then (read h (fst st)) (\<lambda>c'. Inr (c', True)))
       else Inr st)"

definition ctrl_section :: "json \<Rightarrow> vr_error + pico_controller option" where
  "ctrl_section v =
     and_then (controller_side v ''left'' left_hand (pico_neutral, False)) (\<lambda>st1.
     and_then (controller_side v ''right'' right_hand st1) (\<lambda>st2.
       Inr (if snd st2 then Some (fst st2) else None)))"

text \<open>The callback returns, logs a JSON exception, or lets another exception escape.\<close>

datatype vr_outcome = VrReturned | VrLogged | VrEscaped vr_error

definition report :: "vr_error \<Rightarrow> vr_outcome" where
  "report e = (if e = JsonException then VrLogged else VrEscaped e)"

definition state_message :: "(string \<Rightarrow> json option) \<Rightarrow> string \<Rightarrow> vr_error + json option" where
  "state_message parse msg =
     (case parse msg of None \<Rightarrow> Inl JsonException
      | Some data \<Rightarrow>
          if \<not> contains data ''value'' then Inr None
          else and_then (member data ''value'') (\<lambda>v. and_then (get_string v) (\<lambda>s.
            case parse s of None \<Rightarrow> Inl JsonException | Some value \<Rightarrow> Inr (Some value))))"

definition pxrea_callback ::
    "(string \<Rightarrow> json option) \<Rightarrow> time \<Rightarrow> bool \<Rightarrow> string \<Rightarrow> vr_reader \<Rightarrow> vr_outcome \<times> vr_reader" where
  "pxrea_callback parse now is_state_json msg r =
     (if \<not> is_state_json then (VrReturned, r)
      else case state_message parse msg of
        Inl e \<Rightarrow> (report e, r)
      | Inr None \<Rightarrow> (VrReturned, r)
      | Inr (Some value) \<Rightarrow>
          (case body_section value of
             Inl e \<Rightarrow> (report e, r)
           | Inr b \<Rightarrow>
               (let r1 = (case b of None \<Rightarrow> r | Some pose \<Rightarrow> on_body_update now pose r)
                in case ctrl_section value of
                     Inl e \<Rightarrow> (report e, r1)
                   | Inr None \<Rightarrow> (VrReturned, r1)
                   | Inr (Some ctrl) \<Rightarrow> (VrReturned, on_controller_update now ctrl r1))))"

section \<open>Start, stop and watchdog\<close>

text \<open>\<open>daemon\<close>: the probe found the service's port open; \<open>init_ok\<close>: the SDK initialised.\<close>

definition vr_start :: "bool \<Rightarrow> bool \<Rightarrow> vr_reader \<Rightarrow> bool \<times> vr_reader" where
  "vr_start daemon init_ok r =
     (if \<not> daemon then (False, r)
      else if \<not> init_ok then (False, r)
      else (True, r\<lparr>vr_sdk_open := True, vr_stop_watchdog := False, vr_watchdog_running := True\<rparr>))"

definition vr_stop :: "vr_reader \<Rightarrow> vr_reader" where
  "vr_stop r = r\<lparr>vr_stop_watchdog := True, vr_watchdog_running := False, vr_sdk_open := False\<rparr>"

definition kVrStaleMs :: real where "kVrStaleMs = 350"

definition vr_watchdog_pass :: "time \<Rightarrow> vr_reader \<Rightarrow> vr_reader" where
  "vr_watchdog_pass now r = r\<lparr>vr_ctrl_buf := watchdog_pass kVrStaleMs now (vr_ctrl_buf r)\<rparr>"

section \<open>What the callback publishes\<close>

definition pose_shape :: "wire_float list list \<Rightarrow> bool" where
  "pose_shape p \<longleftrightarrow> length p = 24 \<and> list_all (\<lambda>j. length j = 7) p"

lemma parse_pose_length: "parse_pose s = Inr p \<Longrightarrow> length p = 7"
  by (auto simp: parse_pose_def and_then_def dest: traverse_Inr split: sum.splits)

lemma parse_joint_length: "parse_joint j = Inr p \<Longrightarrow> length p = 7"
  by (auto simp: parse_joint_def and_then_def zero_pose_def dest: parse_pose_length split: sum.splits if_splits)

lemma parse_joints_shape:
  assumes "parse_joints js = Inr p" shows "pose_shape p"
proof -
  obtain ps where ps: "traverse parse_joint (take 24 js) = Inr ps" "p = ps @ replicate (24 - length ps) zero_pose"
    using assms by (auto simp: parse_joints_def and_then_def split: sum.splits)
  then have "list_all (\<lambda>j. length j = 7) ps"
    using traverse_Inr[OF ps(1)] by (auto simp: list_all_length dest: parse_joint_length)
  then show ?thesis
    using ps traverse_Inr[OF ps(1)] by (auto simp: pose_shape_def list_all_iff zero_pose_def)
qed

lemma body_section_shape: "body_section v = Inr (Some p) \<Longrightarrow> pose_shape p"
  by (auto simp: body_section_def and_then_def parse_joints_shape split: sum.splits if_splits json.splits)

lemma no_stod_in_members:
  "member j k = Inl e \<Longrightarrow> e = JsonException" "get_string j = Inl e \<Longrightarrow> e = JsonException"
  "value_real j k = Inl e \<Longrightarrow> e = JsonException" "value_bool j k = Inl e \<Longrightarrow> e = JsonException"
  by (auto simp: member_def get_string_def value_real_def value_bool_def split: json.splits option.splits)

lemma ctrl_error: "ctrl_section v = Inl e \<Longrightarrow> e = JsonException"
  by (auto simp: ctrl_section_def controller_side_def left_hand_def right_hand_def and_then_def
      dest: no_stod_in_members split: sum.splits if_splits)

lemma state_message_error: "state_message parse msg = Inl e \<Longrightarrow> e = JsonException"
  by (auto simp: state_message_def and_then_def dest: no_stod_in_members
      split: sum.splits if_splits option.splits)

lemma callback_cases:
  assumes "pxrea_callback parse now f msg r = (out, r')"
  obtains (nothing) "r' = r" "out = VrReturned"
  | (message) e where "state_message parse msg = Inl e" "out = report e" "r' = r"
  | (body) v e where "body_section v = Inl e" "out = report e" "r' = r"
  | (ctrl) v b e where "body_section v = Inr b" "ctrl_section v = Inl e" "out = report e"
      "r' = (case b of None \<Rightarrow> r | Some pose \<Rightarrow> on_body_update now pose r)"
  | (both) v b c where "body_section v = Inr b" "ctrl_section v = Inr c" "out = VrReturned"
      "r' = (case c of None \<Rightarrow> id | Some ctrl \<Rightarrow> on_controller_update now ctrl)
              (case b of None \<Rightarrow> r | Some pose \<Rightarrow> on_body_update now pose r)"
proof (cases f)
  case False
  then show thesis using assms by - (rule nothing, simp_all add: pxrea_callback_def)
next
  case True
  note run = assms[unfolded pxrea_callback_def, simplified True simp_thms if_False, unfolded Let_def]
  show thesis
  proof (cases "state_message parse msg")
    case (Inl e)
    then show thesis using run by - (rule message[OF Inl], simp_all)
  next
    case (Inr m)
    show thesis
    proof (cases m)
      case None
      then show thesis using run Inr by - (rule nothing, simp_all)
    next
      case (Some v)
      show thesis
      proof (cases "body_section v")
        case (Inl e)
        then show thesis using run Inr Some by - (rule body[OF Inl], simp_all)
      next
        case b: (Inr b)
        show thesis
        proof (cases "ctrl_section v")
          case (Inl e)
          then show thesis using run Inr Some b by - (rule ctrl[OF b Inl], simp_all)
        next
          case c: (Inr c)
          then show thesis using run Inr Some b by - (rule both[OF b c], (cases c; simp)+)
        qed
      qed
    qed
  qed
qed

text \<open>
  C35: How a message can fail, exhaustively. A message that returns normally or is logged as a JSON
  error never leaves a malformed sample: what enters the body buffer is a full pose of 24 joints
  with seven numbers each. A logged error keeps the previous controller sample. The only
  exception that escapes the callback is a failed number conversion, and then nothing of the
  message was published.
\<close>
theorem callback_failure_modes:
  assumes "pxrea_callback parse now f msg r = (out, r')"
  shows "(\<forall>e. out = VrEscaped e \<longrightarrow> e \<in> {StodInvalid, StodRange} \<and> r' = r)
    \<and> (out \<noteq> VrReturned \<longrightarrow> vr_ctrl_buf r' = vr_ctrl_buf r)
    \<and> (vr_body_buf r' = vr_body_buf r \<or> (\<exists>p. pose_shape p \<and> vr_body_buf r' = set_data now p (vr_body_buf r)))
    \<and> (vr_ctrl_buf r' = vr_ctrl_buf r \<or> (\<exists>c. vr_ctrl_buf r' = set_data now c (vr_ctrl_buf r)))"
proof -
  have err: "e \<in> {JsonException, StodInvalid, StodRange}" for e by (cases e) auto
  from assms show ?thesis
  proof (cases rule: callback_cases)
    case (message e)
    then show ?thesis using state_message_error[of parse msg e] by (auto simp: report_def)
  next
    case (body v e)
    then show ?thesis using err[of e] by (auto simp: report_def)
  next
    case (ctrl v b e)
    then show ?thesis using ctrl_error[of v e] body_section_shape[of v]
      by (auto simp: report_def on_body_update_def split: option.splits)
  next
    case (both v b c)
    then show ?thesis using body_section_shape[of v]
      by (auto simp: on_body_update_def on_controller_update_def split: option.splits)
  qed simp
qed

text \<open>A message with one malformed joint text: the conversion error leaves the callback.\<close>

definition sample_parse :: "json \<Rightarrow> string \<Rightarrow> json option" where
  "sample_parse v s = (if s = ''m'' then Some (JObj [(''value'', JStr ''v'')]) else if s = ''v'' then Some v else None)"

definition pose_frame :: "string list \<Rightarrow> json" where
  "pose_frame texts = JObj [(''Body'', JObj [(''joints'', JArr (map (\<lambda>s. JObj [(''p'', JStr s)]) texts))])]"

lemma callback_failure_modes_witness:
  "pxrea_callback (sample_parse (pose_frame [''0.5,oops''])) 7 True ''m'' vr_reader_new = (VrEscaped StodInvalid, vr_reader_new)"
proof -
  let ?f = "sample_parse (pose_frame [''0.5,oops''])"
  have "is_digit 10 CHR ''0''" "is_digit 10 CHR ''5''" "\<not> is_digit 10 CHR ''.''" "\<not> is_digit 10 CHR ''o''"
    by (simp_all add: is_digit_def digit_value_def)
  then have "traverse stod (take 7 (comma_tokens ''0.5,oops'')) = Inl StodInvalid"
    by (simp add: stod_def is_space_def take_sign_def starts_ci_def hex_at_def numeral_at_def digit_value_def
        exponent_of_def digits_value_def in_double_range_def power_int_minus)
  then have "body_section (pose_frame [''0.5,oops'']) = Inl StodInvalid"
    by (simp add: body_section_def pose_frame_def contains_def member_def parse_joints_def parse_joint_def
        get_string_def parse_pose_def)
  then have out: "fst (pxrea_callback ?f 7 True ''m'' vr_reader_new) = VrEscaped StodInvalid"
    by (simp add: pxrea_callback_def state_message_def sample_parse_def contains_def member_def get_string_def report_def)
  obtain o' r' where run: "pxrea_callback ?f 7 True ''m'' vr_reader_new = (o', r')"
    by (cases "pxrea_callback ?f 7 True ''m'' vr_reader_new")
  with out callback_failure_modes[OF run] show ?thesis by auto
qed

section \<open>A well-formed message arrives as sent\<close>

text \<open>Decimal numerals as a serializer writes them, and a joint's text.\<close>

type_synonym decimal = "bool \<times> string \<times> string"

definition dec_text :: "decimal \<Rightarrow> string" where
  "dec_text d = (case d of (neg, ip, fp) \<Rightarrow>
     (if neg then ''-'' else []) @ ip @ (if fp = [] then [] else CHR ''.'' # fp))"

definition dec_value :: "decimal \<Rightarrow> real" where
  "dec_value d = (case d of (neg, ip, fp) \<Rightarrow>
     (let v = real (digits_value 10 (ip @ fp)) / 10 ^ length fp in if neg then - v else v))"

definition dec_ok :: "decimal \<Rightarrow> bool" where
  "dec_ok d = (case d of (neg, ip, fp) \<Rightarrow>
     ip \<noteq> [] \<and> list_all (is_digit 10) (ip @ fp) \<and> in_double_range (dec_value d))"

fun commas :: "string list \<Rightarrow> string" where
  "commas [] = []"
| "commas [s] = s"
| "commas (s # t # ss) = s @ CHR '','' # commas (t # ss)"

lemma digit_not:
  assumes "is_digit 10 c"
  shows "c \<noteq> CHR '',''" "c \<noteq> CHR ''.''" "c \<noteq> CHR ''-''" "c \<noteq> CHR ''+''" "c \<noteq> CHR ''x''" "c \<noteq> CHR ''X''"
    "\<not> is_space c" "digit_value c < 10"
  using assms by (auto simp: is_digit_def digit_value_def is_space_def Let_def split: if_splits)

lemma take_digits:
  assumes "list_all (is_digit 10) ds" "r = [] \<or> \<not> is_digit 10 (hd r)"
  shows "takeWhile (is_digit 10) (ds @ r) = ds" "dropWhile (is_digit 10) (ds @ r) = r"
  using assms by (induction ds; cases r; simp)+

lemma point_no_digit: "\<not> is_digit 10 CHR ''.''"
  by (simp add: is_digit_def digit_value_def)

lemma numeral_decimal:
  assumes "ip \<noteq> []" "list_all (is_digit 10) (ip @ fp)"
  shows "numeral_at 10 10 ''eE'' (ip @ (if fp = [] then [] else CHR ''.'' # fp))
    = Some (real (digits_value 10 (ip @ fp)) / 10 ^ length fp)"
proof (cases "fp = []")
  case True
  have t: "takeWhile (is_digit 10) ip = ip" "dropWhile (is_digit 10) ip = []"
    using assms take_digits[of ip "[]"] by simp_all
  show ?thesis
    unfolding True simp_thms if_True append_Nil2 numeral_at_def t using assms(1) by (simp add: exponent_of_def)
next
  case False
  have t: "takeWhile (is_digit 10) (ip @ CHR ''.'' # fp) = ip" "dropWhile (is_digit 10) (ip @ CHR ''.'' # fp) = CHR ''.'' # fp"
    "takeWhile (is_digit 10) fp = fp" "dropWhile (is_digit 10) fp = []"
    using assms take_digits[of ip "CHR ''.'' # fp"] take_digits[of fp "[]"] by (simp_all add: point_no_digit)
  have r: "ip @ (if fp = [] then [] else CHR ''.'' # fp) = ip @ CHR ''.'' # fp" using False by simp
  show ?thesis unfolding numeral_at_def r t Let_def list.case simp_thms if_True prod.case
    using assms(1) by (simp add: exponent_of_def)
qed

lemma stod_decimal:
  assumes "dec_ok d"
  shows "stod (dec_text d) = Inr (Fin (dec_value d))"
proof -
  obtain neg ip fp where d: "d = (neg, ip, fp)" by (cases d)
  then have ok: "ip \<noteq> []" "list_all (is_digit 10) (ip @ fp)" "in_double_range (dec_value d)"
    using assms by (auto simp: dec_ok_def)
  obtain c cs where ip: "ip = c # cs" using ok(1) by (cases ip) auto
  let ?r = "ip @ (if fp = [] then [] else CHR ''.'' # fp)"
  let ?v = "real (digits_value 10 (ip @ fp)) / 10 ^ length fp"
  have c: "is_digit 10 c" and cs: "list_all (is_digit 10) cs" using ok(2) ip by auto
  have sign: "take_sign (dropWhile is_space (dec_text d)) = (neg, ?r)"
    using digit_not[OF c] by (simp add: d dec_text_def take_sign_def ip is_space_def)
  have "\<not> starts_ci ''inf'' ?r" "\<not> starts_ci ''nan'' ?r"
    using digit_not(8)[OF c] by (auto simp: starts_ci_def ip digit_value_def[of "CHR ''i''"] digit_value_def[of "CHR ''n''"])
  moreover have "hex_at ?r = None"
    using digit_not cs by (cases cs; cases fp) (auto simp: hex_at_def ip)
  moreover have "in_double_range ?v"
    using ok(3) by (auto simp: d dec_value_def in_double_range_def Let_def split: if_splits)
  ultimately show ?thesis
    unfolding stod_def sign using numeral_decimal[OF ok(1,2)] by (simp add: d dec_value_def Let_def)
qed

lemma dec_text_plain:
  assumes "dec_ok d"
  shows "dec_text d \<noteq> []" "CHR '','' \<notin> set (dec_text d)"
proof -
  obtain neg ip fp where d: "d = (neg, ip, fp)" by (cases d)
  have "CHR '','' \<notin> set (ip @ fp)" "ip \<noteq> []"
    using assms digit_not(1) by (auto simp: d dec_ok_def list_all_iff)
  then show "dec_text d \<noteq> []" "CHR '','' \<notin> set (dec_text d)" by (simp_all add: d dec_text_def)
qed

lemma tokens_commas:
  assumes "list_all (\<lambda>s. s \<noteq> [] \<and> CHR '','' \<notin> set s) ss"
  shows "comma_tokens (commas ss) = ss"
  using assms
proof (induction ss rule: commas.induct)
  case (2 s)
  then obtain c r where s: "s = c # r" by (cases s) auto
  have "takeWhile (\<lambda>x. x \<noteq> CHR '','') s = s" using 2 by (auto simp: takeWhile_eq_all_conv)
  then show ?case by (simp add: s Let_def)
next
  case (3 s t ss)
  then obtain c r where s: "s = c # r" by (cases s) auto
  have "takeWhile (\<lambda>x. x \<noteq> CHR '','') (s @ CHR '','' # commas (t # ss)) = s"
    using 3 by (simp add: takeWhile_append)
  then have "comma_tokens (s @ CHR '','' # commas (t # ss)) = s # comma_tokens (commas (t # ss))"
    by (simp add: s Let_def)
  then show ?case using 3 by simp
qed simp

lemma parse_pose_decimals:
  assumes "list_all dec_ok ds" "length ds = 7"
  shows "parse_pose (commas (map dec_text ds)) = Inr (map (\<lambda>d. Fin (dec_value d)) ds)"
proof -
  have "comma_tokens (commas (map dec_text ds)) = map dec_text ds"
    using assms(1) by (intro tokens_commas) (auto simp: list_all_iff dec_text_plain)
  moreover have "traverse stod (map dec_text ds) = Inr (map (\<lambda>d. Fin (dec_value d)) ds)"
    using assms(1) by (intro traverse_map) (auto simp: list_all_iff stod_decimal)
  ultimately show ?thesis using assms(2) by (simp add: parse_pose_def)
qed

definition hand_json :: "real \<times> real \<Rightarrow> real \<Rightarrow> real \<Rightarrow> bool \<Rightarrow> bool \<Rightarrow> json" where
  "hand_json ax t g p s = JObj [(''axisX'', JNum (fst ax)), (''axisY'', JNum (snd ax)), (''trigger'', JNum t),
     (''grip'', JNum g), (''primaryButton'', JBool p), (''secondaryButton'', JBool s)]"

definition frame_json :: "decimal list list \<Rightarrow> pico_controller \<Rightarrow> json" where
  "frame_json poses c = JObj
     [(''Body'', JObj [(''joints'', JArr (map (\<lambda>ds. JObj [(''p'', JStr (commas (map dec_text ds)))]) poses))]),
      (''Controller'', JObj
        [(''left'', hand_json (left_axis c) (left_trigger c) (left_grip c) (btn_x c) (btn_y c)),
         (''right'', hand_json (right_axis c) (right_trigger c) (right_grip c) (btn_a c) (btn_b c))])]"

lemma frame_body:
  assumes "length poses = 24" "list_all (\<lambda>ds. length ds = 7 \<and> list_all dec_ok ds) poses"
  shows "body_section (frame_json poses c) = Inr (Some (map (map (\<lambda>d. Fin (dec_value d))) poses))"
proof -
  have "traverse parse_joint (map (\<lambda>ds. JObj [(''p'', JStr (commas (map dec_text ds)))]) poses)
      = Inr (map (map (\<lambda>d. Fin (dec_value d))) poses)"
    using assms(2)
    by (intro traverse_map)
      (auto simp: list_all_iff parse_joint_def contains_def member_def get_string_def parse_pose_decimals)
  then show ?thesis using assms(1)
    by (simp add: body_section_def frame_json_def contains_def member_def parse_joints_def)
qed

lemma frame_ctrl: "ctrl_section (frame_json poses c) = Inr (Some c)"
  by (cases c) (simp add: ctrl_section_def controller_side_def frame_json_def contains_def member_def left_hand_def
      right_hand_def hand_json_def value_real_def value_bool_def pico_neutral_def)

text \<open>
  C36: A well-formed headset message arrives exactly as sent: for a message whose inner value has a
  24-joint body with seven decimal numerals per joint and both controllers, the callback returns
  and the two buffers hold precisely the numbers written in the texts and the controller's axes,
  triggers and buttons, left and right in their places.
\<close>
theorem vr_frame_roundtrip:
  assumes "parse msg = Some (JObj [(''value'', JStr inner)])" "parse inner = Some (frame_json poses c)"
    and "length poses = 24" "list_all (\<lambda>ds. length ds = 7 \<and> list_all dec_ok ds) poses"
  shows "pxrea_callback parse now True msg r =
    (VrReturned, r\<lparr>vr_body_buf := set_data now (map (map (\<lambda>d. Fin (dec_value d))) poses) (vr_body_buf r),
                   vr_ctrl_buf := set_data now c (vr_ctrl_buf r)\<rparr>)"
proof -
  have "state_message parse msg = Inr (Some (frame_json poses c))"
    using assms(1,2) by (simp add: state_message_def contains_def member_def get_string_def)
  then show ?thesis
    using frame_body[OF assms(3,4)]
    by (simp add: pxrea_callback_def frame_ctrl on_body_update_def on_controller_update_def)
qed

lemma vr_frame_roundtrip_witness:
  "pxrea_callback (sample_parse (frame_json (replicate 24 (replicate 7 (True, ''1'', ''5''))) pico_neutral)) 3 True ''m'' vr_reader_new
    = (VrReturned, vr_reader_new\<lparr>vr_body_buf := set_data 3 (replicate 24 (replicate 7 (Fin (- 3 / 2)))) buf_empty,
         vr_ctrl_buf := set_data 3 pico_neutral buf_empty\<rparr>)"
proof -
  let ?d = "(True, ''1'', ''5'')" and ?p = "replicate 24 (replicate 7 (True, ''1'', ''5''))"
  have v: "dec_value ?d = - 3 / 2"
    by (simp add: dec_value_def digits_value_def digit_value_def)
  have "(2 :: real) powi (- 1022) \<le> 3 / 2" by (simp add: power_int_minus field_simps)
  moreover have "(3 / 2 :: real) < 2 powi 1024 - 2 powi 970" by simp
  ultimately have "dec_ok ?d"
    unfolding dec_ok_def prod.case v in_double_range_def by (simp add: is_digit_def digit_value_def)
  then have "length ?p = 24" "list_all (\<lambda>ds. length ds = 7 \<and> list_all dec_ok ds) ?p"
    by (simp_all add: list_all_length del: replicate.simps)
  from vr_frame_roundtrip[OF _ _ this, of "sample_parse (frame_json ?p pico_neutral)" "''m''" "''v''" pico_neutral 3 vr_reader_new]
  show ?thesis by (simp add: sample_parse_def v vr_reader_new_def del: replicate.simps)
qed

section \<open>Losing the link\<close>

text \<open>
  C37: Losing the headset stops the robot's walking and nothing else: once the controller stream is
  older than 350 ms the watchdog's next pass clears it, and the input handler's next tick then
  commands IDLE with no direction and no taps; a fresher stream is left alone, and the body pose
  always holds its last sample.
\<close>
theorem link_loss_stops_walking:
  fixes r :: vr_reader and h :: input_handler and now :: time
  defines "r' \<equiv> vr_watchdog_pass now r"
  shows "vr_body_buf r' = vr_body_buf r
    \<and> (get_age_ms now (get_data_with_time (vr_ctrl_buf r)) \<le> 350 \<longrightarrow> r' = r)
    \<and> (get_age_ms now (get_data_with_time (vr_ctrl_buf r)) > 350 \<longrightarrow>
         (case input_tick \<lparr>in_ctrl = get_data (vr_ctrl_buf r'), in_mode = m, in_nav = n, in_now = now\<rparr> h of
            ((mv, taps), h') \<Rightarrow> locomotion_mode mv = loc_code IDLE \<and> movement_direction mv = (0, 0, 0) \<and> taps = []))"
proof -
  have "has_data t" if "get_age_ms now t > 350" for t :: "pico_controller timestamped"
    using that by (auto simp: get_age_ms_def split: if_splits)
  then show ?thesis
    by (auto simp: r'_def vr_watchdog_pass_def watchdog_pass_keeps kVrStaleMs_def input_tick_def watchdog_pass_def Let_def)
qed

lemma link_loss_stops_walking_witness:
  "vr_watchdog_pass 100000000 (vr_reader_new\<lparr>vr_ctrl_buf := set_data 0 pico_neutral buf_empty\<rparr>)
     = vr_reader_new\<lparr>vr_ctrl_buf := set_data 0 pico_neutral buf_empty\<rparr>
   \<and> get_data (vr_ctrl_buf (vr_watchdog_pass 400000000 (vr_reader_new\<lparr>vr_ctrl_buf := set_data 0 pico_neutral buf_empty\<rparr>))) = None"
proof -
  have "get_age_ms 100000000 (get_data_with_time (set_data 0 pico_neutral buf_empty)) \<le> 350"
    by (simp add: get_age_ms_def has_data_def)
  moreover have "get_data (vr_ctrl_buf (vr_watchdog_pass 400000000 (vr_reader_new\<lparr>vr_ctrl_buf := set_data 0 pico_neutral buf_empty\<rparr>))) = None"
    by (simp add: vr_watchdog_pass_def watchdog_pass_def get_age_ms_def has_data_def kVrStaleMs_def)
  ultimately show ?thesis
    using link_loss_stops_walking[of 100000000 "vr_reader_new\<lparr>vr_ctrl_buf := set_data 0 pico_neutral buf_empty\<rparr>"]
    by simp
qed

end
