(* ===== verification/Tensor_Engine.thy ===== *)
theory Tensor_Engine
  imports Policy
begin

text \<open>
  The engine wrapper (\<open>src/tensorrt/InferenceEngine.cpp\<close>): the cache of converted models, the
  allocation of the tensor buffers with its 64-bit arithmetic, and the size-checked transfers.
  TensorRT and CUDA are parameters: what deserialising, building, allocating and executing
  answer. A transfer on the stream is modelled at the place the stream orders it.
\<close>

section \<open>Converted models and their cache\<close>

datatype precision = FP32 | FP16

primrec precision_code :: "precision \<Rightarrow> string" where
  "precision_code FP32 = ''0''"
| "precision_code FP16 = ''1''"

type_synonym axis_names = "string \<rightharpoonup> (nat \<rightharpoonup> string)"
type_synonym sizes3 = "int \<times> int \<times> int"

record trt_options =
  opt_precision :: precision
  dynamic_axes_names :: axis_names
  dynamic_axes_sizes :: "string \<rightharpoonup> sizes3"
  shape_tensor_sizes :: "string \<rightharpoonup> int list \<times> int list \<times> int list"
  default_sizes :: sizes3

definition trt_options_default :: trt_options where
  "trt_options_default = \<lparr>opt_precision = FP32, dynamic_axes_names = Map.empty, dynamic_axes_sizes = Map.empty,
     shape_tensor_sizes = Map.empty, default_sizes = (1, 8, 16)\<rparr>"

text \<open>An input of the parsed network, and the optimisation profile built for it.\<close>

record net_input =
  ni_name :: string
  ni_dims :: "int list"
  ni_shape_tensor :: bool

record profile_entry =
  pe_name :: string
  pe_dims :: "int list \<times> int list \<times> int list"
  pe_values :: "(int list \<times> int list \<times> int list) option"

text \<open>The sizes of one axis: kept when static, else looked up by the axis' name.\<close>

definition axis_sizes_for :: "trt_options \<Rightarrow> string \<Rightarrow> nat \<Rightarrow> int \<Rightarrow> sizes3 option" where
  "axis_sizes_for o' name n d =
     (if d \<noteq> -1 then Some (d, d, d)
      else case dynamic_axes_names o' name of
        None \<Rightarrow> Some (default_sizes o')
      | Some names \<Rightarrow> (case names n of None \<Rightarrow> None | Some axis \<Rightarrow> dynamic_axes_sizes o' axis))"

fun profile_dims :: "trt_options \<Rightarrow> string \<Rightarrow> nat \<Rightarrow> int list \<Rightarrow> (int list \<times> int list \<times> int list) option" where
  "profile_dims o' name n [] = Some ([], [], [])"
| "profile_dims o' name n (d # ds) =
     (case axis_sizes_for o' name n d of
        None \<Rightarrow> None
      | Some (a, b, c) \<Rightarrow>
          (case profile_dims o' name (n + 1) ds of
             None \<Rightarrow> None
           | Some (as, bs, cs) \<Rightarrow> Some (a # as, b # bs, c # cs)))"

definition profile_entry_for :: "trt_options \<Rightarrow> net_input \<Rightarrow> profile_entry option" where
  "profile_entry_for o' t =
     (case profile_dims o' (ni_name t) 0 (ni_dims t) of
        None \<Rightarrow> None
      | Some dims \<Rightarrow>
          if ni_shape_tensor t then
            (case shape_tensor_sizes o' (ni_name t) of
               None \<Rightarrow> None
             | Some vs \<Rightarrow> Some \<lparr>pe_name = ni_name t, pe_dims = dims, pe_values = Some vs\<rparr>)
          else Some \<lparr>pe_name = ni_name t, pe_dims = dims, pe_values = None\<rparr>)"

fun build_profile :: "trt_options \<Rightarrow> net_input list \<Rightarrow> profile_entry list option" where
  "build_profile o' [] = Some []"
| "build_profile o' (t # ts) =
     (case profile_entry_for o' t of
        None \<Rightarrow> None
      | Some e \<Rightarrow> (case build_profile o' ts of None \<Rightarrow> None | Some es \<Rightarrow> Some (e # es)))"

text \<open>What the libraries answer: the hash, the device's name, and the builder's steps.\<close>

record trt_env =
  env_hash :: "string \<Rightarrow> string"
  env_device :: string
  env_builder_ok :: bool
  env_network_ok :: bool
  env_parser_ok :: bool
  env_parse :: "string \<Rightarrow> net_input list option"
  env_config_ok :: bool
  env_build :: "string \<Rightarrow> profile_entry list \<Rightarrow> bool \<Rightarrow> string option"

type_synonym files = "string \<rightharpoonup> string"

definition model_hash :: "trt_env \<Rightarrow> precision \<Rightarrow> string \<Rightarrow> string" where
  "model_hash env p onnx =
     env_hash env (env_hash env (env_hash env onnx @ env_device env) @ precision_code p)"

text \<open>\<open>find_last_of\<close>: the position of the last occurrence.\<close>

definition find_last_of :: "string \<Rightarrow> char \<Rightarrow> nat option" where
  "find_last_of s c = (let k = length (takeWhile (\<lambda>x. x \<noteq> c) (rev s))
     in if k = length s then None else Some (length s - 1 - k))"

text \<open>
  The path of the converted model: directory, prefix, stem, extension. The stem's length is an
  unsigned difference; without a dot after the last slash it runs to the end.
\<close>

definition trt_path :: "string \<Rightarrow> string \<Rightarrow> string" where
  "trt_path prefix path =
     (let pos = (case find_last_of path CHR ''/'' of None \<Rightarrow> 0 | Some k \<Rightarrow> k + 1);
          stem = (case find_last_of path CHR ''.'' of
                    None \<Rightarrow> drop pos path
                  | Some k \<Rightarrow> if k < pos then drop pos path else take (k - pos) (drop pos path))
      in take pos path @ prefix @ stem @ ''.trt'')"

definition hash_in_file :: "nat \<Rightarrow> string \<Rightarrow> string" where
  "hash_in_file n content = take n content @ replicate (n - length content) (CHR 0x00)"

text \<open>The build, from a fresh builder to the serialised engine.\<close>

definition build_engine :: "trt_env \<Rightarrow> trt_options \<Rightarrow> string \<Rightarrow> string option" where
  "build_engine env o' onnx =
     (if \<not> env_builder_ok env then None
      else if \<not> env_network_ok env then None
      else if \<not> env_parser_ok env then None
      else case env_parse env onnx of
        None \<Rightarrow> None
      | Some inputs \<Rightarrow>
          if length inputs < 1 then None
          else case build_profile o' inputs of
            None \<Rightarrow> None
          | Some profile \<Rightarrow>
              if \<not> env_config_ok env then None
              else env_build env onnx profile (opt_precision o' = FP16))"

text \<open>The answer, the generated path (set only once the model was found), and the files.\<close>

definition convert_onnx_to_trt ::
    "trt_env \<Rightarrow> trt_options \<Rightarrow> string \<Rightarrow> string \<Rightarrow> bool \<Rightarrow> files \<Rightarrow> bool \<times> string option \<times> files" where
  "convert_onnx_to_trt env o' path prefix force fs =
     (case fs path of
        None \<Rightarrow> (False, None, fs)
      | Some onnx \<Rightarrow>
          (let h = model_hash env (opt_precision o') onnx;
               out = trt_path prefix path;
               cached = (case fs out of None \<Rightarrow> False | Some c \<Rightarrow> \<not> force \<and> hash_in_file (length h) c = h)
           in if cached then (True, Some out, fs)
              else case build_engine env o' onnx of
                None \<Rightarrow> (False, Some out, fs)
              | Some engine \<Rightarrow> (True, Some out, fs(out \<mapsto> h @ engine))))"

lemma convert_cases:
  assumes "convert_onnx_to_trt env o' path prefix force fs = (ok, trt, fs')" "fs path = Some onnx"
  obtains (cached) c where "fs (trt_path prefix path) = Some c"
      "hash_in_file (length (model_hash env (opt_precision o') onnx)) c = model_hash env (opt_precision o') onnx"
      "ok" "trt = Some (trt_path prefix path)" "fs' = fs"
  | (failed) "\<not> ok" "fs' = fs"
  | (built) engine where "ok" "trt = Some (trt_path prefix path)"
      "fs' = fs(trt_path prefix path \<mapsto> model_hash env (opt_precision o') onnx @ engine)"
proof -
  let ?h = "model_hash env (opt_precision o') onnx" and ?out = "trt_path prefix path"
  let ?cached = "case fs ?out of None \<Rightarrow> False | Some c \<Rightarrow> \<not> force \<and> hash_in_file (length ?h) c = ?h"
  have run: "(if ?cached then (True, Some ?out, fs)
      else case build_engine env o' onnx of None \<Rightarrow> (False, Some ?out, fs)
      | Some engine \<Rightarrow> (True, Some ?out, fs(?out \<mapsto> ?h @ engine))) = (ok, trt, fs')"
    using assms by (simp add: convert_onnx_to_trt_def Let_def)
  show thesis
  proof (cases ?cached)
    case True
    then obtain c where "fs ?out = Some c" "hash_in_file (length ?h) c = ?h" by (cases "fs ?out") auto
    then show thesis using run True by - (rule cached, auto)
  next
    case False
    then show thesis using run failed built by (cases "build_engine env o' onnx") auto
  qed
qed

lemma hash_prefix:
  assumes "CHR 0x00 \<notin> set h" "hash_in_file (length h) c = h"
  obtains e where "c = h @ e"
proof -
  have "replicate (length h - length c) (CHR 0x00) = []"
    using assms by (metis hash_in_file_def Un_iff in_set_replicate replicate_empty set_append)
  then have "take (length h) c = h" using assms(2) by (simp add: hash_in_file_def)
  then show thesis using that[of "drop (length h) c"] by (metis append_take_drop_id)
qed

lemma convert_again:
  assumes "trt_path prefix path \<noteq> path" "fs path = Some onnx"
    and "fs (trt_path prefix path) = Some (h @ engine)" "length (model_hash env (opt_precision o') onnx) = length h"
    and "\<not> env_builder_ok env"
  shows "convert_onnx_to_trt env o' path prefix False fs
      = (h = model_hash env (opt_precision o') onnx, Some (trt_path prefix path), fs)"
  using assms by (auto simp: convert_onnx_to_trt_def Let_def hash_in_file_def build_engine_def)

text \<open>
  The cache of converted models is sound. A conversion that reports success leaves the file it
  names starting with the hash of this model, device and precision, and touches no other file; a
  failed one touches nothing. Asking again succeeds without building anything, whatever
  state the builder is in. And a stale file is never used: once the model or the precision
  changes so that the hash differs, an answer of success means a new build was written.
\<close>
theorem converted_model_cache:
  assumes hex: "\<forall>x. CHR 0x00 \<notin> set (env_hash env x)" and out: "trt_path prefix path \<noteq> path"
    and run: "convert_onnx_to_trt env o' path prefix force fs = (ok, trt, fs')"
  defines "out \<equiv> trt_path prefix path"
  shows "(\<not> ok \<longrightarrow> fs' = fs) \<and> (\<forall>g. g \<noteq> out \<longrightarrow> fs' g = fs g)
    \<and> (ok \<longrightarrow> trt = Some out
        \<and> (\<exists>onnx engine. fs path = Some onnx \<and> fs' out = Some (model_hash env (opt_precision o') onnx @ engine))
        \<and> convert_onnx_to_trt (env\<lparr>env_builder_ok := False\<rparr>) o' path prefix False fs' = (True, Some out, fs')
        \<and> (\<forall>onnx onnx2 p. fs path = Some onnx \<and> model_hash env p onnx2 \<noteq> model_hash env (opt_precision o') onnx
             \<and> length (model_hash env p onnx2) = length (model_hash env (opt_precision o') onnx) \<longrightarrow>
             convert_onnx_to_trt (env\<lparr>env_builder_ok := False\<rparr>) (o'\<lparr>opt_precision := p\<rparr>) path prefix False (fs'(path \<mapsto> onnx2))
               = (False, Some out, fs'(path \<mapsto> onnx2))))"
proof (cases "fs path")
  case None
  then show ?thesis using run by (simp add: convert_onnx_to_trt_def)
next
  case (Some onnx)
  define h where "h = model_hash env (opt_precision o') onnx"
  have nul: "CHR 0x00 \<notin> set h" using hex by (simp add: h_def model_hash_def)
  note ways = convert_cases[OF run Some, folded h_def out_def]
  have kept: "\<not> ok \<longrightarrow> fs' = fs" "\<forall>g. g \<noteq> out \<longrightarrow> fs' g = fs g" by (rule ways; simp)+
  have written: "trt = Some out \<and> (\<exists>engine. fs' out = Some (h @ engine))" if ok
  proof (rule ways)
    fix c assume c: "fs out = Some c" "hash_in_file (length h) c = h" "trt = Some out" "fs' = fs"
    obtain e where "c = h @ e" using hash_prefix[OF nul c(2)] .
    with c show ?thesis by simp
  qed (use that in simp_all)
  have "path \<noteq> out" using out by (simp add: out_def)
  have path: "fs' path = Some onnx" using kept(2) Some \<open>path \<noteq> out\<close> by simp
  have hash: "model_hash (env\<lparr>env_builder_ok := False\<rparr>) q x = model_hash env q x" for q x
    by (simp add: model_hash_def)
  have again: "convert_onnx_to_trt (env\<lparr>env_builder_ok := False\<rparr>) o' path prefix False fs' = (True, Some out, fs')"
    if "fs' out = Some (h @ engine)" for engine
    using convert_again[OF out, of fs' onnx h engine "env\<lparr>env_builder_ok := False\<rparr>" o'] that path
    by (simp add: out_def hash h_def)
  have stale: "convert_onnx_to_trt (env\<lparr>env_builder_ok := False\<rparr>) (o'\<lparr>opt_precision := p\<rparr>) path prefix False (fs'(path \<mapsto> onnx2))
      = (False, Some out, fs'(path \<mapsto> onnx2))"
    if "fs' out = Some (h @ engine)" "model_hash env p onnx2 \<noteq> h" "length (model_hash env p onnx2) = length h"
    for engine p onnx2
    using convert_again[OF out, of "fs'(path \<mapsto> onnx2)" onnx2 h engine "env\<lparr>env_builder_ok := False\<rparr>" "o'\<lparr>opt_precision := p\<rparr>"]
      that \<open>path \<noteq> out\<close> by (simp add: out_def hash)
  show ?thesis
  proof (intro conjI impI)
    assume ok
    then obtain engine where e: "trt = Some out" "fs' out = Some (h @ engine)" using written by blast
    show "trt = Some out" by fact
    show "\<exists>onnx engine. fs path = Some onnx \<and> fs' out = Some (model_hash env (opt_precision o') onnx @ engine)"
      using Some e(2) h_def by blast
    show "convert_onnx_to_trt (env\<lparr>env_builder_ok := False\<rparr>) o' path prefix False fs' = (True, Some out, fs')"
      by (rule again[OF e(2)])
    show "\<forall>onnx onnx2 p. fs path = Some onnx \<and> model_hash env p onnx2 \<noteq> model_hash env (opt_precision o') onnx
             \<and> length (model_hash env p onnx2) = length (model_hash env (opt_precision o') onnx) \<longrightarrow>
             convert_onnx_to_trt (env\<lparr>env_builder_ok := False\<rparr>) (o'\<lparr>opt_precision := p\<rparr>) path prefix False (fs'(path \<mapsto> onnx2))
               = (False, Some out, fs'(path \<mapsto> onnx2))"
      using stale[OF e(2)] Some by (simp add: h_def)
  qed (use kept in auto)
qed

definition sample_env :: trt_env where
  "sample_env = \<lparr>env_hash = (\<lambda>_. ''h''), env_device = ''gpu'', env_builder_ok = True, env_network_ok = True,
     env_parser_ok = True, env_parse = (\<lambda>_. Some [\<lparr>ni_name = ''x'', ni_dims = [-1, 4], ni_shape_tensor = False\<rparr>]),
     env_config_ok = True, env_build = (\<lambda>_ _ _. Some ''E'')\<rparr>"

lemma converted_model_cache_witness:
  "convert_onnx_to_trt sample_env trt_options_default ''d/m.onnx'' [] False [''d/m.onnx'' \<mapsto> ''x'']
      = (True, Some ''d/m.trt'', [''d/m.onnx'' \<mapsto> ''x'', ''d/m.trt'' \<mapsto> ''hE''])
   \<and> convert_onnx_to_trt (sample_env\<lparr>env_builder_ok := False\<rparr>) trt_options_default ''d/m.onnx'' [] False
        [''d/m.onnx'' \<mapsto> ''x'', ''d/m.trt'' \<mapsto> ''hE'']
      = (True, Some ''d/m.trt'', [''d/m.onnx'' \<mapsto> ''x'', ''d/m.trt'' \<mapsto> ''hE''])"
proof -
  have path: "trt_path [] ''d/m.onnx'' = ''d/m.trt''"
    by (simp add: trt_path_def find_last_of_def Let_def)
  have run: "convert_onnx_to_trt sample_env trt_options_default ''d/m.onnx'' [] False [''d/m.onnx'' \<mapsto> ''x'']
      = (True, Some ''d/m.trt'', [''d/m.onnx'' \<mapsto> ''x'', ''d/m.trt'' \<mapsto> ''hE''])"
    by (simp add: convert_onnx_to_trt_def path model_hash_def sample_env_def build_engine_def profile_entry_for_def
        axis_sizes_for_def trt_options_default_def Let_def)
  have "\<forall>x. CHR 0x00 \<notin> set (env_hash sample_env x)" "trt_path [] ''d/m.onnx'' \<noteq> ''d/m.onnx''"
    by (simp_all add: sample_env_def path)
  from converted_model_cache[OF this run] run show ?thesis by (simp add: path)
qed

section \<open>The engine and its buffers\<close>

datatype trt_type = KFLOAT | KHALF | KINT8 | KINT32 | KBOOL | KUINT8 | KFP8 | KBF16 | KINT64 | KOTHER

primrec size_of_tensor_data_type :: "trt_type \<Rightarrow> int" where
  "size_of_tensor_data_type KINT64 = 8"
| "size_of_tensor_data_type KINT32 = 4"
| "size_of_tensor_data_type KFLOAT = 4"
| "size_of_tensor_data_type KHALF = 2"
| "size_of_tensor_data_type KBF16 = 2"
| "size_of_tensor_data_type KFP8 = 1"
| "size_of_tensor_data_type KINT8 = 1"
| "size_of_tensor_data_type KBOOL = 1"
| "size_of_tensor_data_type KUINT8 = 1"
| "size_of_tensor_data_type KOTHER = -1"

text \<open>The wrapper's own type code; half-width floats have none, although their size is known.\<close>

datatype data_type = DtFloat | DtHalf | DtInt8 | DtInt32 | DtBool | DtUint8 | DtInt64 | DtUnknown

definition get_tensor_data_type :: "trt_type \<Rightarrow> data_type" where
  "get_tensor_data_type ty = (case ty of
     KFLOAT \<Rightarrow> DtFloat | KHALF \<Rightarrow> DtHalf | KINT8 \<Rightarrow> DtInt8 | KINT32 \<Rightarrow> DtInt32 | KBOOL \<Rightarrow> DtBool
   | KUINT8 \<Rightarrow> DtUint8 | KINT64 \<Rightarrow> DtInt64 | _ \<Rightarrow> DtUnknown)"

lemma types_without_code:
  "get_tensor_data_type ty = DtUnknown \<and> size_of_tensor_data_type ty \<noteq> -1 \<longleftrightarrow> ty = KFP8 \<or> ty = KBF16"
  by (cases ty) (simp_all add: get_tensor_data_type_def)

text \<open>A tensor of the deserialised engine; the profile bounds are the engine's answers.\<close>

record io_tensor =
  it_name :: string
  it_input :: bool
  it_shape :: "int list"
  it_type :: trt_type
  it_min :: "int list"
  it_max :: "int list"

type_synonym bytes = "8 word list"

text \<open>A device buffer is its contents; a null pointer is \<^const>\<open>None\<close>.\<close>

record trt_engine =
  te_tensors :: "io_tensor list option"
  te_shapes :: "string \<rightharpoonup> int list"
  te_inputs :: "string \<rightharpoonup> bytes option"
  te_outputs :: "string \<rightharpoonup> bytes option"
  te_type_sizes :: "string \<rightharpoonup> int"
  te_axis_names :: axis_names

definition trt_engine_new :: trt_engine where
  "trt_engine_new = \<lparr>te_tensors = None, te_shapes = Map.empty, te_inputs = Map.empty, te_outputs = Map.empty,
     te_type_sizes = Map.empty, te_axis_names = Map.empty\<rparr>"

definition destroy_buffers :: "trt_engine \<Rightarrow> trt_engine" where
  "destroy_buffers s = s\<lparr>te_inputs := Map.empty, te_outputs := Map.empty, te_shapes := Map.empty\<rparr>"

definition engine_destroy :: "trt_engine \<Rightarrow> trt_engine" where
  "engine_destroy s = (destroy_buffers s)\<lparr>te_tensors := None\<rparr>"

text \<open>
  \<open>Initialize\<close>: the file's contents if readable, whether runtime, device and context come up, and
  the deserialised engine. The first 64 characters are the hash; a shorter file makes the
  unsigned size wrap and the read run past the buffer, the outcome \<open>EngineTrap\<close>.
\<close>

text \<open>\<open>EngineThrow\<close>: an exception leaves the call.\<close>

datatype engine_outcome = EngineOk | EngineFail | EngineTrap | EngineThrow

definition engine_initialize ::
    "(string \<Rightarrow> io_tensor list option) \<Rightarrow> bool \<Rightarrow> bool \<Rightarrow> bool \<Rightarrow> string option \<Rightarrow> axis_names \<Rightarrow>
     trt_engine \<Rightarrow> engine_outcome \<times> trt_engine" where
  "engine_initialize deserialize runtime device context content names s =
     (let s1 = engine_destroy s
      in case content of
           None \<Rightarrow> (EngineFail, s1)
         | Some c \<Rightarrow>
             if \<not> runtime then (EngineFail, s1)
             else if \<not> device then (EngineFail, s1)
             else if length c < 64 then (EngineTrap, s1)
             else case deserialize (drop 64 c) of
               None \<Rightarrow> (EngineFail, s1)
             | Some ts \<Rightarrow>
                 if \<not> context then (EngineFail, s1\<lparr>te_tensors := Some ts\<rparr>)
                 else (EngineOk, s1\<lparr>te_tensors := Some ts, te_axis_names := names,
                        te_type_sizes := te_type_sizes s1 ++
                          map_of (map (\<lambda>t. (it_name t, size_of_tensor_data_type (it_type t))) ts)\<rparr>))"

text \<open>The size chosen for a dynamic axis; \<open>sizes\<close> lists the map in key order.\<close>

definition dynamic_size :: "axis_names \<Rightarrow> (string \<times> int) list \<Rightarrow> string \<Rightarrow> nat \<Rightarrow> int option" where
  "dynamic_size names sizes tensor n =
     (case names tensor of
        Some axes \<Rightarrow> (case axes n of None \<Rightarrow> None | Some axis \<Rightarrow> map_of sizes axis)
      | None \<Rightarrow> Some (if sizes = [] then 1 else snd (hd sizes)))"

fun resolve_shape :: "axis_names \<Rightarrow> (string \<times> int) list \<Rightarrow> io_tensor \<Rightarrow> nat \<Rightarrow> int list \<Rightarrow> int list option" where
  "resolve_shape names sizes t n [] = Some []"
| "resolve_shape names sizes t n (d # ds) =
     (if d \<noteq> -1 then map_option (\<lambda>r. d # r) (resolve_shape names sizes t (n + 1) ds)
      else case dynamic_size names sizes (it_name t) n of
        None \<Rightarrow> None
      | Some b \<Rightarrow>
          if it_input t \<and> (b < it_min t ! n \<or> b > it_max t ! n) then None
          else map_option (\<lambda>r. b # r) (resolve_shape names sizes t (n + 1) ds))"

text \<open>
  The element count in 64 bits, guarded by a comparison with \<open>INT64_MAX / d\<close>; a zero
  dimension divides by zero.
\<close>

definition int64_max :: int where "int64_max = 2 ^ 63 - 1"

fun count_elements :: "int list \<Rightarrow> 64 word \<Rightarrow> engine_outcome \<times> 64 word" where
  "count_elements [] n = (EngineOk, n)"
| "count_elements (d # ds) n =
     (if d = 0 then (EngineTrap, n)
      else if n > word_of_int (int64_max sdiv d) then (EngineFail, n)
      else count_elements ds (n * word_of_int d))"

text \<open>The types the log line of \<open>InitInputs\<close> can name; another type indexes past the table.\<close>

definition data_type_str :: "trt_type list" where
  "data_type_str = [KFLOAT, KHALF, KINT8, KINT32, KBOOL, KUINT8, KFP8, KBF16, KINT64]"

lemma named_types [simp]: "ty \<in> set data_type_str \<longleftrightarrow> ty \<noteq> KOTHER"
  by (cases ty) (simp_all add: data_type_str_def)

text \<open>One tensor of \<open>InitInputs\<close>; \<open>alloc\<close> answers whether the device has the memory.\<close>

definition init_tensor ::
    "(string \<Rightarrow> 64 word \<Rightarrow> bool) \<Rightarrow> (string \<times> int) list \<Rightarrow> io_tensor \<Rightarrow> trt_engine \<Rightarrow> engine_outcome \<times> trt_engine" where
  "init_tensor alloc sizes t s =
     (case resolve_shape (te_axis_names s) sizes t 0 (it_shape t) of
        None \<Rightarrow> (EngineFail, s)
      | Some shape \<Rightarrow>
          (let s1 = s\<lparr>te_shapes := (te_shapes s)(it_name t \<mapsto> shape)\<rparr>
           in case count_elements shape 1 of
                (EngineOk, n) \<Rightarrow>
                  if it_type t \<notin> set data_type_str then (EngineTrap, s1)
                  else if size_of_tensor_data_type (it_type t) = -1 then (EngineFail, s1)
                  else (let size = n * word_of_int (size_of_tensor_data_type (it_type t));
                            zeros = Some (replicate (unat size) 0)
                        in if \<not> alloc (it_name t) size then (EngineFail, s1)
                           else if it_input t
                           then (EngineOk, s1\<lparr>te_inputs := (te_inputs s1)(it_name t \<mapsto> zeros)\<rparr>)
                           else (EngineOk, s1\<lparr>te_outputs := (te_outputs s1)(it_name t \<mapsto> zeros)\<rparr>))
              | (o', _) \<Rightarrow> (o', s1)))"

text \<open>
  The guard against an unknown data type comes after the log line that names it: a tensor of such a
  type reads past the table, and the error the guard reports is never reached.
\<close>
lemma unknown_type_reads_past_table:
  assumes "resolve_shape (te_axis_names s) sizes t 0 (it_shape t) = Some shape"
    and "count_elements shape 1 = (EngineOk, n)" "it_type t = KOTHER"
  shows "fst (init_tensor alloc sizes t s) = EngineTrap"
  using assms by (simp add: init_tensor_def Let_def)

fun init_tensors ::
    "(string \<Rightarrow> 64 word \<Rightarrow> bool) \<Rightarrow> (string \<times> int) list \<Rightarrow> io_tensor list \<Rightarrow> trt_engine \<Rightarrow> engine_outcome \<times> trt_engine" where
  "init_tensors alloc sizes [] s = (EngineOk, s)"
| "init_tensors alloc sizes (t # ts) s =
     (case init_tensor alloc sizes t s of
        (EngineOk, s1) \<Rightarrow> init_tensors alloc sizes ts s1
      | (o', s1) \<Rightarrow> (o', s1))"

text \<open>Without an engine the source dereferences null.\<close>

definition init_inputs ::
    "(string \<Rightarrow> 64 word \<Rightarrow> bool) \<Rightarrow> (string \<times> int) list \<Rightarrow> trt_engine \<Rightarrow> engine_outcome \<times> trt_engine" where
  "init_inputs alloc sizes s =
     (let s1 = destroy_buffers s
      in case te_tensors s1 of None \<Rightarrow> (EngineTrap, s1) | Some ts \<Rightarrow> init_tensors alloc sizes ts s1)"

text \<open>The byte count of a transfer must be exactly the tensor's.\<close>

definition expected_bytes :: "int list \<Rightarrow> int \<Rightarrow> 64 word" where
  "expected_bytes shape sz = foldl (\<lambda>n d. n * word_of_int d) 1 shape * word_of_int sz"

text \<open>A tensor with a shape but no known type size makes the map's \<open>at\<close> throw: \<^const>\<open>None\<close>.\<close>

definition validate_tensor_size :: "string \<Rightarrow> 64 word \<Rightarrow> trt_engine \<Rightarrow> bool option" where
  "validate_tensor_size name byte_count s =
     (case te_shapes s name of
        None \<Rightarrow> Some False
      | Some shape \<Rightarrow>
          (case te_type_sizes s name of
             None \<Rightarrow> None
           | Some sz \<Rightarrow> Some (expected_bytes shape sz = byte_count)))"

text \<open>A copy through a null pointer is an error the wrapper only logs.\<close>

definition set_input_data :: "string \<Rightarrow> bytes \<Rightarrow> trt_engine \<Rightarrow> trt_engine option" where
  "set_input_data name data s =
     (case validate_tensor_size name (of_nat (length data)) s of
        None \<Rightarrow> None
      | Some False \<Rightarrow> Some s
      | Some True \<Rightarrow>
          Some (s\<lparr>te_inputs := (te_inputs s)(name \<mapsto>
            (case te_inputs s name of Some (Some _) \<Rightarrow> Some data | _ \<Rightarrow> None))\<rparr>))"

text \<open>The caller's array after a read-back.\<close>

definition get_output_data :: "string \<Rightarrow> bytes \<Rightarrow> trt_engine \<Rightarrow> (bytes \<times> trt_engine) option" where
  "get_output_data name data s =
     (case validate_tensor_size name (of_nat (length data)) s of
        None \<Rightarrow> None
      | Some False \<Rightarrow> Some (data, s)
      | Some True \<Rightarrow>
          (case te_outputs s name of
             Some (Some b) \<Rightarrow> Some (b, s)
           | _ \<Rightarrow> Some (data, s\<lparr>te_outputs := (te_outputs s)(name \<mapsto> None)\<rparr>)))"

text \<open>
  \<open>Enqueue\<close>: \<open>specified\<close> is the context's answer on its input dimensions, \<open>net\<close> the execution,
  which fails or gives every output its contents.
\<close>

definition engine_enqueue ::
    "bool \<Rightarrow> ((string \<rightharpoonup> bytes option) \<Rightarrow> (string \<Rightarrow> bytes) option) \<Rightarrow> trt_engine \<Rightarrow> bool \<times> trt_engine" where
  "engine_enqueue specified net s =
     (if te_shapes s = Map.empty then (False, s)
      else if \<not> specified then (False, s)
      else case net (te_inputs s) of
        None \<Rightarrow> (False, s)
      | Some f \<Rightarrow> (True, s\<lparr>te_outputs := (\<lambda>name. case te_outputs s name of
            Some (Some _) \<Rightarrow> Some (Some (f name)) | x \<Rightarrow> x)\<rparr>))"

definition get_tensor_shape :: "string \<Rightarrow> trt_engine \<Rightarrow> int list option" where
  "get_tensor_shape name s = te_shapes s name"

text \<open>\<open>obs_tensor_dim\<close> of the model wrapper: non-positive dimensions are skipped.\<close>

definition obs_tensor_dim :: "string \<Rightarrow> trt_engine \<Rightarrow> 64 word" where
  "obs_tensor_dim name s = (case get_tensor_shape name s of
     None \<Rightarrow> 0
   | Some shape \<Rightarrow> foldl (\<lambda>n d. if d > 0 then n * word_of_int d else n) 1 shape)"

section \<open>The element count does not overflow\<close>

lemma le_div_iff_mult_le: "0 < d \<Longrightarrow> n \<le> m div d \<longleftrightarrow> n * d \<le> m" for n m d :: int
proof
  assume d: "0 < d"
  assume "n \<le> m div d"
  then have "n * d \<le> (m div d) * d" using d by simp
  also have "\<dots> \<le> m" using d by (simp add: div_mult_mod_eq minus_mod_eq_div_mult[symmetric])
  finally show "n * d \<le> m" .
next
  assume d: "0 < d"
  assume "n * d \<le> m"
  then have "(n * d) div d \<le> m div d" using d by (rule zdiv_mono1)
  then show "n \<le> m div d" using d by simp
qed

definition dims_ok :: "int list \<Rightarrow> bool" where
  "dims_ok ds \<longleftrightarrow> list_all (\<lambda>d. 1 \<le> d \<and> d \<le> int64_max) ds"

lemma prod_pos: "dims_ok ds \<Longrightarrow> 1 \<le> prod_list ds"
proof (induction ds)
  case (Cons d ds)
  then have "1 * 1 \<le> d * prod_list ds" by (intro mult_mono) (auto simp: dims_ok_def)
  then show ?case by simp
qed simp

lemma count_exact:
  assumes "dims_ok ds" "1 \<le> uint n" "uint n \<le> int64_max"
  shows "if uint n * prod_list ds \<le> int64_max
    then fst (count_elements ds n) = EngineOk \<and> uint (snd (count_elements ds n)) = uint n * prod_list ds
    else fst (count_elements ds n) = EngineFail"
  using assms
proof (induction ds arbitrary: n)
  case (Cons d ds)
  have d: "1 \<le> d" "d \<le> int64_max" "dims_ok ds" using Cons.prems by (auto simp: dims_ok_def)
  have q: "0 \<le> int64_max div d" using d by (simp add: int64_max_def pos_imp_zdiv_nonneg_iff)
  have "int64_max div d * 1 \<le> int64_max div d * d" using q d by (intro mult_left_mono) auto
  also have "\<dots> \<le> int64_max" using le_div_iff_mult_le[of d "int64_max div d" int64_max] d by simp
  finally have "int64_max div d \<le> int64_max" by simp
  with q have guard: "n > word_of_int (int64_max sdiv d) \<longleftrightarrow> \<not> uint n * d \<le> int64_max"
    using d le_div_iff_mult_le[of d "uint n" int64_max]
    by (simp add: word_less_def signed_divide_int_def uint_word_of_int int64_max_def take_bit_int_eq_self flip: not_le)
  show ?case
  proof (cases "uint n * d \<le> int64_max")
    case True
    have "1 * 1 \<le> uint n * d" using d Cons.prems by (intro mult_mono) auto
    moreover have "uint (n * word_of_int d) = uint n * d"
      using True d Cons.prems calculation
      by (simp add: uint_mult_lem[THEN iffD1] uint_word_ariths uint_word_of_int int64_max_def take_bit_int_eq_self)
    ultimately show ?thesis
      using Cons.IH[of "n * word_of_int d"] d True guard by (simp add: mult.assoc)
  next
    case False
    have "uint n * d * 1 \<le> uint n * d * prod_list ds"
      using prod_pos[OF d(3)] d(1) Cons.prems by (intro mult_left_mono) auto
    then have "\<not> uint n * (d * prod_list ds) \<le> int64_max" using False by (simp add: mult.assoc)
    then show ?thesis using False guard d by simp
  qed
qed simp

text \<open>
  The guard against oversized tensors is exact on element counts: for dimensions that are positive
  64-bit integers the loop never wraps, it accepts a shape precisely when the true product of its
  dimensions is at most \<open>INT64_MAX\<close>, and then yields that product.
\<close>
theorem element_count_exact:
  assumes "dims_ok shape"
  shows "if prod_list shape \<le> 2 ^ 63 - 1
    then count_elements shape 1 = (EngineOk, word_of_int (prod_list shape)) \<and> uint (snd (count_elements shape 1)) = prod_list shape
    else fst (count_elements shape 1) = EngineFail"
proof -
  have "uint (1 :: 64 word) = 1" by simp
  from count_exact[OF assms, of 1] this
  have c: "if prod_list shape \<le> int64_max
    then fst (count_elements shape 1) = EngineOk \<and> uint (snd (count_elements shape 1)) = prod_list shape
    else fst (count_elements shape 1) = EngineFail"
    by (simp add: int64_max_def)
  have "snd (count_elements shape 1) = word_of_int (prod_list shape)"
    if "uint (snd (count_elements shape 1)) = prod_list shape"
    using that by (metis word_of_int_uint)
  with c show ?thesis by (cases "count_elements shape 1") (auto simp: int64_max_def)
qed

lemma element_count_exact_witness:
  "count_elements [1, 1751] 1 = (EngineOk, 1751) \<and> fst (count_elements [2 ^ 40, 2 ^ 40] 1) = EngineFail"
  using element_count_exact[of "[1, 1751]"] element_count_exact[of "[2 ^ 40, 2 ^ 40]"]
  by (simp add: dims_ok_def int64_max_def)

text \<open>
  What the guard misses is the size in bytes: the count is checked before it is multiplied by the
  element size, so a tensor of \<open>2\<^sup>6\<^sup>2\<close> floats passes, its byte size wraps to zero, and
  initialisation succeeds with an empty buffer.
\<close>
theorem byte_size_wraps_unchecked:
  assumes "alloc name 0"
  shows "init_tensor alloc sizes \<lparr>it_name = name, it_input = True, it_shape = [2 ^ 62], it_type = KFLOAT,
      it_min = [], it_max = []\<rparr> s
    = (EngineOk, s\<lparr>te_shapes := (te_shapes s)(name \<mapsto> [2 ^ 62]), te_inputs := (te_inputs s)(name \<mapsto> Some [])\<rparr>)"
proof -
  have "count_elements [2 ^ 62] 1 = (EngineOk, 4611686018427387904)"
    by (simp add: int64_max_def signed_divide_int_def)
  moreover have "(4611686018427387904 :: 64 word) * word_of_int 4 = 0"
    by (simp add: word_uint_eq_iff)
  ultimately show ?thesis using assms
    by (simp add: init_tensor_def Let_def del: count_elements.simps mult_numeral_left_semiring_numeral
        of_int_numeral word_of_int_numeral numeral_times_numeral)
qed

lemma byte_size_wraps_unchecked_witness:
  "fst (init_tensor (\<lambda>_ n. n = 0) [] \<lparr>it_name = ''x'', it_input = True, it_shape = [2 ^ 62], it_type = KFLOAT,
      it_min = [], it_max = []\<rparr> trt_engine_new) = EngineOk"
  using byte_size_wraps_unchecked[of "\<lambda>_ n. n = 0" "''x''" "[]" trt_engine_new] by simp

section \<open>A successful initialisation\<close>

definition tensor_ready :: "io_tensor \<Rightarrow> trt_engine \<Rightarrow> bool" where
  "tensor_ready t s \<longleftrightarrow> (\<exists>shape. te_shapes s (it_name t) = Some shape
     \<and> list_all2 (\<lambda>d r. d \<noteq> -1 \<longrightarrow> r = d) (it_shape t) shape
     \<and> (it_input t \<longrightarrow> (\<forall>n<length shape. it_shape t ! n = -1 \<longrightarrow> it_min t ! n \<le> shape ! n \<and> shape ! n \<le> it_max t ! n))
     \<and> fst (count_elements shape 1) = EngineOk
     \<and> (if it_input t then te_inputs s else te_outputs s) (it_name t) =
         Some (Some (replicate (unat (expected_bytes shape (size_of_tensor_data_type (it_type t)))) 0)))"

lemma resolve_sound:
  "resolve_shape names sizes t n ds = Some shape \<Longrightarrow>
     list_all2 (\<lambda>d r. d \<noteq> -1 \<longrightarrow> r = d) ds shape
     \<and> (it_input t \<longrightarrow> (\<forall>k<length shape. ds ! k = -1 \<longrightarrow> it_min t ! (n + k) \<le> shape ! k \<and> shape ! k \<le> it_max t ! (n + k)))"
proof (induction ds arbitrary: n shape)
  case (Cons d ds)
  obtain r rs where s: "shape = r # rs" "resolve_shape names sizes t (n + 1) ds = Some rs" "d \<noteq> -1 \<longrightarrow> r = d"
    "it_input t \<and> d = -1 \<longrightarrow> it_min t ! n \<le> r \<and> r \<le> it_max t ! n"
    using Cons.prems by (cases "d = -1") (auto split: option.splits if_splits)
  note IH = Cons.IH[OF s(2)]
  show ?case
    using s(1,3,4) IH by (auto simp: nth_Cons' less_Suc_eq_0_disj)
qed simp

lemma count_product:
  "fst (count_elements ds n) = EngineOk \<Longrightarrow> snd (count_elements ds n) = foldl (\<lambda>n d. n * word_of_int d) n ds"
  by (induction ds n rule: count_elements.induct) (auto split: if_splits)

lemma init_tensor_ok:
  assumes "init_tensor alloc sizes t s = (EngineOk, s')"
  shows "tensor_ready t s'"
    "\<And>t'. it_name t' \<noteq> it_name t \<Longrightarrow> tensor_ready t' s' = tensor_ready t' s"
    "te_tensors s' = te_tensors s" "te_type_sizes s' = te_type_sizes s"
    "dom (te_shapes s') = insert (it_name t) (dom (te_shapes s))"
    "dom (te_inputs s') = (if it_input t then insert (it_name t) (dom (te_inputs s)) else dom (te_inputs s))"
    "dom (te_outputs s') = (if it_input t then dom (te_outputs s) else insert (it_name t) (dom (te_outputs s)))"
proof -
  obtain shape where shape: "resolve_shape (te_axis_names s) sizes t 0 (it_shape t) = Some shape"
    using assms by (auto simp: init_tensor_def split: option.splits)
  obtain o' n where count: "count_elements shape 1 = (o', n)" by (cases "count_elements shape 1")
  have ok: "o' = EngineOk" using assms shape count by (cases o') (auto simp: init_tensor_def)
  have n: "n * word_of_int (size_of_tensor_data_type (it_type t)) = expected_bytes shape (size_of_tensor_data_type (it_type t))"
    using count_product[of shape 1] count ok by (simp add: expected_bytes_def)
  have s': "s' = (let s1 = s\<lparr>te_shapes := (te_shapes s)(it_name t \<mapsto> shape)\<rparr>;
        zeros = Some (replicate (unat (expected_bytes shape (size_of_tensor_data_type (it_type t)))) 0)
      in if it_input t then s1\<lparr>te_inputs := (te_inputs s1)(it_name t \<mapsto> zeros)\<rparr>
         else s1\<lparr>te_outputs := (te_outputs s1)(it_name t \<mapsto> zeros)\<rparr>)"
    using assms shape count ok n by (auto simp: init_tensor_def Let_def split: if_splits)
  show "tensor_ready t s'"
    using resolve_sound[OF shape] count ok by (auto simp: tensor_ready_def s' Let_def)
  show "tensor_ready t' s' = tensor_ready t' s" if "it_name t' \<noteq> it_name t" for t'
    using that by (simp add: tensor_ready_def s' Let_def)
  show "te_tensors s' = te_tensors s" "te_type_sizes s' = te_type_sizes s"
    "dom (te_shapes s') = insert (it_name t) (dom (te_shapes s))"
    "dom (te_inputs s') = (if it_input t then insert (it_name t) (dom (te_inputs s)) else dom (te_inputs s))"
    "dom (te_outputs s') = (if it_input t then dom (te_outputs s) else insert (it_name t) (dom (te_outputs s)))"
    by (simp_all add: s' Let_def)
qed

lemma init_tensors_ok:
  assumes "init_tensors alloc sizes ts s = (EngineOk, s')" "distinct (map it_name ts)"
  shows "list_all (\<lambda>t. tensor_ready t s') ts
    \<and> (\<forall>t'. it_name t' \<notin> set (map it_name ts) \<longrightarrow> tensor_ready t' s' = tensor_ready t' s)
    \<and> te_tensors s' = te_tensors s \<and> te_type_sizes s' = te_type_sizes s
    \<and> dom (te_shapes s') = dom (te_shapes s) \<union> set (map it_name ts)
    \<and> dom (te_inputs s') = dom (te_inputs s) \<union> set (map it_name (filter it_input ts))
    \<and> dom (te_outputs s') = dom (te_outputs s) \<union> set (map it_name (filter (\<lambda>t. \<not> it_input t) ts))"
  using assms
proof (induction ts arbitrary: s)
  case (Cons t ts)
  obtain o' s1 where one: "init_tensor alloc sizes t s = (o', s1)" by (cases "init_tensor alloc sizes t s")
  with Cons.prems have "o' = EngineOk" by (cases o') auto
  with one have one: "init_tensor alloc sizes t s = (EngineOk, s1)" by simp
  then have rest: "init_tensors alloc sizes ts s1 = (EngineOk, s')" using Cons.prems by simp
  note IH = Cons.IH[OF rest] and i = init_tensor_ok[OF one]
  have d: "distinct (map it_name ts)" "it_name t \<notin> set (map it_name ts)" using Cons.prems(2) by auto
  from IH d i show ?case by auto
qed simp

text \<open>
  A successful \<open>InitInputs\<close> leaves the engine ready and nothing else: every tensor of the engine
  has a resolved shape (static dimensions kept, dynamic input dimensions inside the profile's
  bounds) and a zeroed buffer of exactly its byte count, and the input and output names it
  reports are exactly the engine's inputs and outputs; buffers of an earlier batch are gone.
\<close>
theorem init_inputs_ready:
  assumes "te_tensors s = Some ts" "distinct (map it_name ts)" "init_inputs alloc sizes s = (EngineOk, s')"
  shows "list_all (\<lambda>t. tensor_ready t s') ts \<and> te_tensors s' = Some ts
    \<and> dom (te_shapes s') = set (map it_name ts)
    \<and> dom (te_inputs s') = set (map it_name (filter it_input ts))
    \<and> dom (te_outputs s') = set (map it_name (filter (\<lambda>t. \<not> it_input t) ts))"
proof -
  have "init_tensors alloc sizes ts (destroy_buffers s) = (EngineOk, s')"
    using assms(1,3) by (simp add: init_inputs_def destroy_buffers_def)
  from init_tensors_ok[OF this assms(2)] assms(1) show ?thesis by (simp add: destroy_buffers_def)
qed

definition obs_tensor :: io_tensor where
  "obs_tensor = \<lparr>it_name = ''obs_dict'', it_input = True, it_shape = [-1, 2], it_type = KFLOAT, it_min = [1, 2], it_max = [16, 2]\<rparr>"

definition out_tensor :: io_tensor where
  "out_tensor = \<lparr>it_name = ''out'', it_input = False, it_shape = [-1, 1], it_type = KFLOAT, it_min = [], it_max = []\<rparr>"

definition loaded_engine :: trt_engine where
  "loaded_engine = snd (engine_initialize (\<lambda>_. Some [obs_tensor, out_tensor]) True True True (Some (replicate 64 CHR ''h'')) Map.empty trt_engine_new)"

definition ready_engine :: trt_engine where
  "ready_engine = snd (init_inputs (\<lambda>_ _. True) [] loaded_engine)"

lemma loaded_facts:
  "te_tensors loaded_engine = Some [obs_tensor, out_tensor]" "te_axis_names loaded_engine = Map.empty"
  "te_type_sizes loaded_engine = [''obs_dict'' \<mapsto> 4, ''out'' \<mapsto> 4]"
  by (auto simp: loaded_engine_def engine_initialize_def engine_destroy_def destroy_buffers_def trt_engine_new_def
      obs_tensor_def out_tensor_def Let_def)

lemma ready_run: "init_inputs (\<lambda>_ _. True) [] loaded_engine = (EngineOk, ready_engine)"
proof -
  have "fst (init_inputs (\<lambda>_ _. True) [] loaded_engine) = EngineOk"
    using loaded_facts
    by (simp add: init_inputs_def destroy_buffers_def init_tensor_def obs_tensor_def out_tensor_def dynamic_size_def
        int64_max_def signed_divide_int_def Let_def)
  then show ?thesis by (simp add: ready_engine_def prod_eq_iff)
qed

lemma init_inputs_ready_witness:
  "tensor_ready obs_tensor ready_engine \<and> dom (te_inputs ready_engine) = {''obs_dict''}"
  using init_inputs_ready[OF loaded_facts(1) _ ready_run] by (simp add: obs_tensor_def out_tensor_def)

section \<open>Transfers and inference\<close>

definition obs_dict_infer ::
    "bool \<Rightarrow> ((string \<rightharpoonup> bytes option) \<Rightarrow> (string \<Rightarrow> bytes) option) \<Rightarrow> bytes \<Rightarrow> string \<Rightarrow> bytes \<Rightarrow> trt_engine \<Rightarrow>
     (bool \<times> bytes \<times> trt_engine) option" where
  "obs_dict_infer specified net x output_name old s =
     (case set_input_data ''obs_dict'' x s of
        None \<Rightarrow> None
      | Some s1 \<Rightarrow>
          (case engine_enqueue specified net s1 of (ok, s2) \<Rightarrow>
             if \<not> ok then Some (False, old, s2)
             else (case get_output_data output_name old s2 of
                     None \<Rightarrow> None
                   | Some (y, s3) \<Rightarrow> Some (True, y, s3))))"

text \<open>
  A transfer whose byte count is not the tensor's is refused without a trace: the engine's
  buffers and the caller's array keep their contents, for unknown tensors as for known ones and
  before any initialisation.
\<close>
theorem wrong_size_transfer_refused:
  assumes "case te_shapes s name of None \<Rightarrow> True
    | Some shape \<Rightarrow> (\<exists>sz. te_type_sizes s name = Some sz \<and> expected_bytes shape sz \<noteq> of_nat (length data))"
  shows "set_input_data name data s = Some s \<and> get_output_data name data s = Some (data, s)"
  using assms
  by (auto simp: set_input_data_def get_output_data_def validate_tensor_size_def split: option.splits)

lemma ready_shapes:
  "te_shapes ready_engine = [''obs_dict'' \<mapsto> [1, 2], ''out'' \<mapsto> [1, 1]]"
  "te_type_sizes ready_engine = [''obs_dict'' \<mapsto> 4, ''out'' \<mapsto> 4]"
  using loaded_facts
  by (simp_all add: ready_engine_def init_inputs_def destroy_buffers_def init_tensor_def obs_tensor_def
      out_tensor_def dynamic_size_def int64_max_def signed_divide_int_def Let_def)

lemma wrong_size_transfer_refused_witness:
  "set_input_data ''obs_dict'' [1, 2, 3] ready_engine = Some ready_engine
   \<and> get_output_data ''obs_dict'' [1, 2, 3] ready_engine = Some ([1, 2, 3], ready_engine)"
  by (rule wrong_size_transfer_refused) (simp add: ready_shapes expected_bytes_def)

text \<open>
  On a ready engine with the one input obs_dict, an inference is the network: whatever was in the
  buffers before, with an observation and an output array of the tensors' byte counts it reports
  success and fills the array with exactly what the network computes from this observation, in one
  piece; when the execution fails the array keeps its contents.
\<close>
theorem obs_dict_inference_is_network:
  assumes ready: "tensor_ready a s" "it_name a = ''obs_dict''" "it_input a" "dom (te_inputs s) = {''obs_dict''}"
    "tensor_ready b s" "it_name b = out" "\<not> it_input b" "out \<noteq> ''obs_dict''"
    and sizes: "te_type_sizes s ''obs_dict'' = Some (size_of_tensor_data_type (it_type a))"
      "te_type_sizes s out = Some (size_of_tensor_data_type (it_type b))"
    and lengths: "(of_nat (length x) :: 64 word) = expected_bytes (the (te_shapes s ''obs_dict'')) (size_of_tensor_data_type (it_type a))"
      "(of_nat (length old) :: 64 word) = expected_bytes (the (te_shapes s out)) (size_of_tensor_data_type (it_type b))"
  shows "\<exists>s'. obs_dict_infer specified net x out old s =
    Some (case (specified, net [''obs_dict'' \<mapsto> Some x]) of
       (True, Some f) \<Rightarrow> (True, f out, s')
     | _ \<Rightarrow> (False, old, s'))"
proof -
  obtain sa ba where a: "te_shapes s ''obs_dict'' = Some sa" "te_inputs s ''obs_dict'' = Some (Some ba)"
    using ready(1-3) by (auto simp: tensor_ready_def)
  obtain sb bb where b: "te_shapes s out = Some sb" "te_outputs s out = Some (Some bb)"
    using ready(5-7) by (auto simp: tensor_ready_def)
  let ?s1 = "s\<lparr>te_inputs := (te_inputs s)(''obs_dict'' \<mapsto> Some x)\<rparr>"
  have set: "set_input_data ''obs_dict'' x s = Some ?s1"
    using a sizes(1) lengths(1) by (simp add: set_input_data_def validate_tensor_size_def)
  have "(te_inputs s)(''obs_dict'' \<mapsto> Some x) = [''obs_dict'' \<mapsto> Some x]"
  proof (rule ext)
    fix z
    have "te_inputs s z = None" if "z \<noteq> ''obs_dict''"
    proof -
      have "z \<notin> dom (te_inputs s)" using that ready(4) by simp
      then show ?thesis by (simp add: domIff)
    qed
    then show "((te_inputs s)(''obs_dict'' \<mapsto> Some x)) z = [''obs_dict'' \<mapsto> Some x] z" by simp
  qed
  then have ins: "te_inputs ?s1 = [''obs_dict'' \<mapsto> Some x]" by simp
  have ne: "te_shapes s \<noteq> Map.empty" using a by auto
  show ?thesis
  proof (cases "specified \<and> net [''obs_dict'' \<mapsto> Some x] \<noteq> None")
    case False
    then show ?thesis using ne ins
      by (auto simp: obs_dict_infer_def set engine_enqueue_def split: option.splits bool.splits)
  next
    case True
    then obtain f where f: "net [''obs_dict'' \<mapsto> Some x] = Some f" specified by auto
    let ?s2 = "?s1\<lparr>te_outputs := (\<lambda>name. case te_outputs ?s1 name of Some (Some _) \<Rightarrow> Some (Some (f name)) | y \<Rightarrow> y)\<rparr>"
    have "engine_enqueue specified net ?s1 = (True, ?s2)" using ne ins f by (simp add: engine_enqueue_def)
    moreover have "get_output_data out old ?s2 = Some (f out, ?s2)"
      using b sizes(2) lengths(2) by (simp add: get_output_data_def validate_tensor_size_def)
    ultimately show ?thesis using f by (simp add: obs_dict_infer_def set)
  qed
qed

lemma obs_dict_inference_is_network_witness:
  "\<exists>s'. obs_dict_infer True (\<lambda>ins. Some (\<lambda>_. case ins ''obs_dict'' of Some (Some x) \<Rightarrow> take 4 x | _ \<Rightarrow> []))
     [1, 2, 3, 4, 5, 6, 7, 8] ''out'' [0, 0, 0, 0] ready_engine = Some (True, [1, 2, 3, 4], s')"
proof -
  have "distinct (map it_name [obs_tensor, out_tensor])" by (simp add: obs_tensor_def out_tensor_def)
  from init_tensors_ok[OF _ this, of "\<lambda>_ _. True" "[]" "destroy_buffers loaded_engine" ready_engine]
  have r: "tensor_ready obs_tensor ready_engine" "tensor_ready out_tensor ready_engine" "dom (te_inputs ready_engine) = {''obs_dict''}"
    using ready_run loaded_facts(1)
    by (simp_all add: init_inputs_def destroy_buffers_def obs_tensor_def out_tensor_def)
  let ?net = "\<lambda>ins. Some (\<lambda>_. case ins ''obs_dict'' of Some (Some x) \<Rightarrow> take 4 x | _ \<Rightarrow> [])"
  have names: "it_name obs_tensor = ''obs_dict''" "it_input obs_tensor" "it_name out_tensor = ''out''" "\<not> it_input out_tensor"
    "''out'' \<noteq> ''obs_dict''" "it_type obs_tensor = KFLOAT" "it_type out_tensor = KFLOAT"
    by (simp_all add: obs_tensor_def out_tensor_def)
  have types: "te_type_sizes ready_engine ''obs_dict'' = Some (size_of_tensor_data_type (it_type obs_tensor))"
    "te_type_sizes ready_engine ''out'' = Some (size_of_tensor_data_type (it_type out_tensor))"
    by (simp_all add: ready_shapes names)
  have lens: "(of_nat (length [1 :: 8 word, 2, 3, 4, 5, 6, 7, 8]) :: 64 word)
      = expected_bytes (the (te_shapes ready_engine ''obs_dict'')) (size_of_tensor_data_type (it_type obs_tensor))"
    "(of_nat (length [0 :: 8 word, 0, 0, 0]) :: 64 word)
      = expected_bytes (the (te_shapes ready_engine ''out'')) (size_of_tensor_data_type (it_type out_tensor))"
    by (simp_all add: ready_shapes expected_bytes_def names)
  from obs_dict_inference_is_network[OF r(1) names(1,2) r(3) r(2) names(3-5) types lens, of True ?net]
  show ?thesis by simp
qed

end
