(* ===== verification/Console_Tee.thy ===== *)
theory Console_Tee
  imports Prelude
begin

text \<open>
  The console mirror (\<open>src/common/console_tee.cpp\<close>): the copying loops against a kernel whose
  answers are given as lists, and the redirection of the descriptors 1 and 2 over a table of file
  descriptors. A loop that uses up the answers without returning is \<^const>\<open>None\<close>.
\<close>

section \<open>Writing everything\<close>

datatype write_answer = Interrupted | WriteFailed | Written nat

text \<open>The result and the bytes the descriptor took; a write takes at most what it was given.\<close>

fun write_all :: "write_answer list \<Rightarrow> 'a list \<Rightarrow> (bool \<times> 'a list) option" where
  "write_all answers [] = Some (True, [])"
| "write_all [] (p # ps) = None"
| "write_all (a # answers) (p # ps) =
     (case a of
        Interrupted \<Rightarrow> write_all answers (p # ps)
      | WriteFailed \<Rightarrow> Some (False, [])
      | Written w \<Rightarrow> map_option (\<lambda>(ok, out). (ok, take w (p # ps) @ out)) (write_all answers (drop w (p # ps))))"

primrec progress :: "write_answer \<Rightarrow> nat" where
  "progress Interrupted = 0"
| "progress WriteFailed = 0"
| "progress (Written w) = w"

lemma write_all_result:
  "write_all answers xs = Some (ok, out) \<Longrightarrow>
     (\<exists>rest. xs = out @ rest \<and> (ok \<longleftrightarrow> rest = [])) \<and> (\<not> ok \<longrightarrow> WriteFailed \<in> set answers)"
proof (induction answers xs arbitrary: ok out rule: write_all.induct)
  case (3 a answers p ps)
  show ?case
  proof (cases a)
    case (Written w)
    then obtain ok' out' where r: "write_all answers (drop w (p # ps)) = Some (ok', out')"
      "ok = ok'" "out = take w (p # ps) @ out'"
      using 3(3) by auto
    from 3(2)[OF Written r(1)] obtain rest where "drop w (p # ps) = out' @ rest" "ok' \<longleftrightarrow> rest = []"
      "\<not> ok' \<longrightarrow> WriteFailed \<in> set answers" by blast
    then show ?thesis using r by (metis append.assoc append_take_drop_id list.set_intros(2))
  qed (use 3 in auto)
qed auto

lemma write_all_returns:
  "WriteFailed \<in> set answers \<or> length xs \<le> sum_list (map progress answers) \<Longrightarrow> write_all answers xs \<noteq> None"
proof (induction answers xs rule: write_all.induct)
  case (3 a answers p ps)
  then show ?case
  proof (cases a)
    case (Written w)
    then have "WriteFailed \<in> set answers \<or> length (drop w (p # ps)) \<le> sum_list (map progress answers)"
      using 3(3) by auto
    then show ?thesis using 3(2)[OF Written] Written by auto
  qed auto
qed auto

text \<open>
  C38: Mirroring a chunk ends: against any kernel that either fails for good or eventually takes as
  many bytes as there are, in however small pieces and however often interrupted, the loop
  returns. If it reports success the descriptor got exactly the chunk, in order and once; if it
  reports a failure it got a proper prefix and the kernel really failed.
\<close>
theorem write_all_terminates:
  assumes "WriteFailed \<in> set answers \<or> length xs \<le> sum_list (map progress answers)"
  shows "\<exists>ok out. write_all answers xs = Some (ok, out)
    \<and> (ok \<longrightarrow> out = xs) \<and> (\<not> ok \<longrightarrow> (\<exists>rest. rest \<noteq> [] \<and> xs = out @ rest) \<and> WriteFailed \<in> set answers)"
proof -
  obtain ok out where r: "write_all answers xs = Some (ok, out)" using write_all_returns[OF assms] by auto
  with write_all_result[OF r] show ?thesis by auto
qed

lemma write_all_terminates_witness:
  "write_all [Written 1, Interrupted, Written 0, Written 2, Written 9] [1, 2, 3, 4, 5 :: nat] = Some (True, [1, 2, 3, 4, 5])"
proof -
  have "WriteFailed \<in> set [Written 1, Interrupted, Written 0, Written 2, Written 9]
      \<or> length [1, 2, 3, 4, 5 :: nat] \<le> sum_list (map progress [Written 1, Interrupted, Written 0, Written 2, Written 9])"
    by simp
  from write_all_terminates[OF this] show ?thesis by auto
qed

section \<open>The pump\<close>

text \<open>One answer of \<open>read\<close> on the pipe, with the kernel's answers to the two copies of a chunk.\<close>

datatype 'a read_answer = ReadInterrupted | ReadFailed | ReadEnd
  | Chunk "'a list" "write_answer list" "write_answer list"

text \<open>The terminal's and the file's contents; failed copies are ignored.\<close>

fun pump :: "'a read_answer list \<Rightarrow> 'a list \<times> 'a list \<Rightarrow> ('a list \<times> 'a list) option" where
  "pump [] st = None"
| "pump (r # rs) (tty, mirror) =
     (case r of
        ReadInterrupted \<Rightarrow> pump rs (tty, mirror)
      | ReadFailed \<Rightarrow> Some (tty, mirror)
      | ReadEnd \<Rightarrow> Some (tty, mirror)
      | Chunk buf wt wm \<Rightarrow>
          (case (write_all wt buf, write_all wm buf) of
             (Some (_, out_t), Some (_, out_f)) \<Rightarrow> pump rs (tty @ out_t, mirror @ out_f)
           | _ \<Rightarrow> None))"

section \<open>Redirecting the console\<close>

type_synonym 'b fd_table = "nat \<rightharpoonup> 'b"

datatype fd_target = Terminal | ErrorTerminal | LogFile | PipeRead | PipeWrite | Other nat

definition fd_limit :: nat where "fd_limit = 1024"

text \<open>The lowest free descriptor, or -1.\<close>

definition new_fd :: "fd_target \<Rightarrow> fd_target fd_table \<Rightarrow> int \<times> fd_target fd_table" where
  "new_fd x t = (case find (\<lambda>k. t k = None) [0..<fd_limit] of None \<Rightarrow> (-1, t) | Some k \<Rightarrow> (int k, t(k \<mapsto> x)))"

definition dup_fd :: "int \<Rightarrow> fd_target fd_table \<Rightarrow> int \<times> fd_target fd_table" where
  "dup_fd k t = (if k < 0 then (-1, t) else case t (nat k) of None \<Rightarrow> (-1, t) | Some x \<Rightarrow> new_fd x t)"

definition dup2_fd :: "int \<Rightarrow> nat \<Rightarrow> fd_target fd_table \<Rightarrow> fd_target fd_table" where
  "dup2_fd k j t = (if k < 0 then t else case t (nat k) of None \<Rightarrow> t | Some x \<Rightarrow> t(j \<mapsto> x))"

definition close_fd :: "int \<Rightarrow> fd_target fd_table \<Rightarrow> fd_target fd_table" where
  "close_fd k t = (if k < 0 then t else t(nat k := None))"

record console_tee =
  file_fd :: int
  saved_out :: int
  saved_err :: int
  pipe_r :: int
  pipe_w :: int
  tee_active :: bool
  tee_pumping :: bool
  tee_fds :: "fd_target fd_table"

text \<open>\<open>open_ok\<close> and \<open>pipe_ok\<close>: the kernel's answers beyond a full table.\<close>

definition tee_start :: "bool \<Rightarrow> bool \<Rightarrow> console_tee \<Rightarrow> bool \<times> console_tee" where
  "tee_start open_ok pipe_ok c =
     (if tee_active c then (True, c)
      else case (if open_ok then new_fd LogFile (tee_fds c) else (-1, tee_fds c)) of (ff, t1) \<Rightarrow>
        if ff < 0 then (False, c\<lparr>file_fd := ff, tee_fds := t1\<rparr>)
        else case new_fd PipeRead t1 of (pr, t2) \<Rightarrow>
          case new_fd PipeWrite t2 of (pw, t3) \<Rightarrow>
            if \<not> pipe_ok \<or> pr < 0 \<or> pw < 0 then (False, c\<lparr>file_fd := -1, tee_fds := close_fd ff t1\<rparr>)
            else case dup_fd 1 t3 of (so, t4) \<Rightarrow>
              case dup_fd 2 t4 of (se, t5) \<Rightarrow>
                (True, c\<lparr>file_fd := ff, saved_out := so, saved_err := se, pipe_r := pr, pipe_w := pw,
                   tee_active := True, tee_pumping := True, tee_fds := dup2_fd pw 2 (dup2_fd pw 1 t5)\<rparr>))"

text \<open>The join waits for the pump, which has seen the end of the pipe.\<close>

definition tee_stop :: "console_tee \<Rightarrow> console_tee" where
  "tee_stop c =
     (if \<not> tee_active c then c
      else let t = close_fd (pipe_w c) (dup2_fd (saved_err c) 2 (dup2_fd (saved_out c) 1 (tee_fds c)))
           in c\<lparr>tee_fds := close_fd (file_fd c) (close_fd (saved_err c) (close_fd (saved_out c) (close_fd (pipe_r c) t))),
                pipe_w := -1, pipe_r := -1, saved_out := -1, saved_err := -1, file_fd := -1,
                tee_active := False, tee_pumping := False\<rparr>)"

primrec chunks_of :: "'a read_answer list \<Rightarrow> 'a list" where
  "chunks_of [] = []"
| "chunks_of (r # rs) = (case r of ReadInterrupted \<Rightarrow> chunks_of rs | ReadFailed \<Rightarrow> [] | ReadEnd \<Rightarrow> []
     | Chunk buf wt wm \<Rightarrow> buf @ chunks_of rs)"

definition takes_all :: "write_answer list \<Rightarrow> 'a list \<Rightarrow> bool" where
  "takes_all a xs \<longleftrightarrow> WriteFailed \<notin> set a \<and> length xs \<le> sum_list (map progress a)"

lemma takes_all_writes: "takes_all a xs \<Longrightarrow> write_all a xs = Some (True, xs)"
  using write_all_returns[of a xs] write_all_result[of a xs] by (fastforce simp: takes_all_def)

text \<open>
  The mirror is faithful: once the pipe ends, terminal and file have both received every byte the
  process wrote, in order and once, whatever the interruptions and the splitting into chunks and
  partial writes, as long as both descriptors take what they are given.
\<close>
theorem mirror_is_faithful:
  assumes "ReadEnd \<in> set rs" "\<forall>buf wt wm. Chunk buf wt wm \<in> set rs \<longrightarrow> takes_all wt buf \<and> takes_all wm buf"
  shows "pump rs (tty, mirror) = Some (tty @ chunks_of rs, mirror @ chunks_of rs)"
  using assms
proof (induction rs arbitrary: tty mirror)
  case (Cons r rs)
  show ?case
  proof (cases r)
    case (Chunk buf wt wm)
    then have "takes_all wt buf" "takes_all wm buf" using Cons.prems(2) by auto
    then show ?thesis using Chunk Cons by (simp add: takes_all_writes)
  qed (use Cons in auto)
qed simp

lemma mirror_is_faithful_witness:
  "pump [ReadInterrupted, Chunk ''ab'' [Written 2] [Written 1, Interrupted, Written 1], Chunk ''c'' [Written 1] [Written 1], ReadEnd]
     ([], []) = Some (''abc'', ''abc'')"
proof -
  let ?rs = "[ReadInterrupted, Chunk ''ab'' [Written 2] [Written 1, Interrupted, Written 1], Chunk ''c'' [Written 1] [Written 1], ReadEnd]"
  have "ReadEnd \<in> set ?rs" "\<forall>buf wt wm. Chunk buf wt wm \<in> set ?rs \<longrightarrow> takes_all wt buf \<and> takes_all wm buf"
    by (simp_all add: takes_all_def)
  from mirror_is_faithful[OF this] show ?thesis by simp
qed

section \<open>The console comes back\<close>

lemma new_fd_cases:
  assumes "new_fd x t = (k, t')"
  obtains (full) "k = -1" "t' = t" | (fresh) n where "k = int n" "t n = None" "t' = t(n \<mapsto> x)"
proof (cases "find (\<lambda>k. t k = None) [0..<fd_limit]")
  case None
  then show thesis using assms by - (rule full, simp_all add: new_fd_def)
next
  case (Some n)
  then have "t n = None" by (auto simp: find_Some_iff)
  then show thesis using assms Some by - (rule fresh, auto simp: new_fd_def)
qed

lemma fresh_slot: "t' k = None \<Longrightarrow> t' = t(n \<mapsto> x) \<Longrightarrow> k \<noteq> n \<and> t k = None"
  by (auto split: if_splits)

lemma dup_fd_fresh:
  assumes "dup_fd k t = (j, t')" "0 \<le> j"
  obtains n x where "j = int n" "t n = None" "t (nat k) = Some x" "t' = t(n \<mapsto> x)"
proof -
  obtain x where x: "t (nat k) = Some x" "new_fd x t = (j, t')"
    using assms by (auto simp: dup_fd_def split: if_splits option.splits)
  from x(2) show thesis by (cases rule: new_fd_cases) (use assms(2) that x(1) in auto)
qed

text \<open>
  Stopping the mirror undoes starting it: when a start succeeded and both saved copies of the
  console exist, the stop leaves every file descriptor of the process exactly as before, output and
  error output back on what they were and nothing leaked, and the mirror can be started again;
  a start that fails leaves the descriptors untouched too.
\<close>
theorem console_restored:
  assumes "\<not> tee_active c" "tee_fds c 1 \<noteq> None" "tee_fds c 2 \<noteq> None" "tee_start open_ok pipe_ok c = (ok, c1)"
  shows "(\<not> ok \<longrightarrow> tee_fds c1 = tee_fds c \<and> \<not> tee_active c1)
    \<and> (ok \<and> 0 \<le> saved_out c1 \<and> 0 \<le> saved_err c1 \<longrightarrow>
         tee_fds (tee_stop c1) = tee_fds c \<and> \<not> tee_active (tee_stop c1)
         \<and> tee_fds c1 1 = Some PipeWrite \<and> tee_fds c1 2 = Some PipeWrite)"
proof -
  let ?t = "tee_fds c"
  obtain ff t1 where o1: "(if open_ok then new_fd LogFile ?t else (-1, ?t)) = (ff, t1)" by fastforce
  obtain pr t2 where o2: "new_fd PipeRead t1 = (pr, t2)" by fastforce
  obtain pw t3 where o3: "new_fd PipeWrite t2 = (pw, t3)" by fastforce
  obtain so t4 where o4: "dup_fd 1 t3 = (so, t4)" by fastforce
  obtain se t5 where o5: "dup_fd 2 t4 = (se, t5)" by fastforce
  note run = assms(4)[unfolded tee_start_def o1 o2 o3 o4 o5 prod.case] and opened = o1 o2 o3 o4 o5
  show ?thesis
  proof (cases "ff < 0")
    case True
    then have "t1 = ?t" using o1 by (auto elim: new_fd_cases split: if_splits)
    then show ?thesis using run True assms(1) by auto
  next
    case False
    then have "new_fd LogFile ?t = (ff, t1)" using o1 by (auto split: if_splits)
    then obtain f where f: "ff = int f" "?t f = None" "t1 = ?t(f \<mapsto> LogFile)"
      using False by (cases rule: new_fd_cases) auto
    show ?thesis
    proof (cases "\<not> pipe_ok \<or> pr < 0 \<or> pw < 0")
      case True
      then have "tee_fds c1 = close_fd ff t1" "\<not> ok" "\<not> tee_active c1" using run False assms(1) by auto
      moreover have "close_fd ff t1 = ?t" using f by (auto simp: close_fd_def)
      ultimately show ?thesis by simp
    next
      case pipes: False
      obtain r where r: "pr = int r" "t1 r = None" "t2 = t1(r \<mapsto> PipeRead)"
        using o2 pipes by (cases rule: new_fd_cases) auto
      obtain w where w: "pw = int w" "t2 w = None" "t3 = t2(w \<mapsto> PipeWrite)"
        using o3 pipes by (cases rule: new_fd_cases) auto
      have c1: "ok" "tee_fds c1 = dup2_fd pw 2 (dup2_fd pw 1 t5)" "saved_out c1 = so" "saved_err c1 = se"
        "file_fd c1 = ff" "pipe_r c1 = pr" "pipe_w c1 = pw" "tee_active c1"
        using run False pipes assms(1) by auto
      have "tee_fds (tee_stop c1) = ?t \<and> \<not> tee_active (tee_stop c1)
          \<and> tee_fds c1 1 = Some PipeWrite \<and> tee_fds c1 2 = Some PipeWrite" if saved: "0 \<le> so" "0 \<le> se"
      proof -
        obtain a x where a: "so = int a" "t3 a = None" "t3 (nat 1) = Some x" "t4 = t3(a \<mapsto> x)"
          using dup_fd_fresh[OF o4 saved(1)] .
        obtain b y where b: "se = int b" "t4 b = None" "t4 (nat 2) = Some y" "t5 = t4(b \<mapsto> y)"
          using dup_fd_fresh[OF o5 saved(2)] .
        note r1 = fresh_slot[OF r(2) f(3)]
        note w1 = fresh_slot[OF w(2) r(3)] and w2 = fresh_slot[OF conjunct2[OF fresh_slot[OF w(2) r(3)]] f(3)]
        note a1 = fresh_slot[OF a(2) w(3)]
        note a2 = fresh_slot[OF conjunct2[OF a1] r(3)]
        note a3 = fresh_slot[OF conjunct2[OF a2] f(3)]
        note b1 = fresh_slot[OF b(2) a(4)]
        note b2 = fresh_slot[OF conjunct2[OF b1] w(3)]
        note b3 = fresh_slot[OF conjunct2[OF b2] r(3)]
        note b4 = fresh_slot[OF conjunct2[OF b3] f(3)]
        have console: "k \<noteq> 1 \<and> k \<noteq> 2" if "?t k = None" for k using that assms(2,3) by auto
        have nf: "f \<noteq> 1" "f \<noteq> 2" using console[OF f(2)] by blast+
        have nr: "r \<noteq> 1" "r \<noteq> 2" "r \<noteq> f" and tr: "?t r = None" using console r1 by blast+
        have nw: "w \<noteq> 1" "w \<noteq> 2" "w \<noteq> f" "w \<noteq> r" and tw: "?t w = None" using console w1 w2 by blast+
        have na: "a \<noteq> 1" "a \<noteq> 2" "a \<noteq> f" "a \<noteq> r" "a \<noteq> w" and ta: "?t a = None"
          using console a1 a2 a3 by blast+
        have nb: "b \<noteq> 1" "b \<noteq> 2" "b \<noteq> f" "b \<noteq> r" "b \<noteq> w" "b \<noteq> a" and tb: "?t b = None"
          using console b1 b2 b3 b4 by blast+
        note neq = nf nr nw na nb and frees = tr tw ta tb
        have xy: "?t 1 = Some x" "?t 2 = Some y"
          using a(3) b(3) neq by (simp_all add: f(3) r(3) w(3) a(4))
        have t5: "t5 = ?t(f \<mapsto> LogFile, r \<mapsto> PipeRead, w \<mapsto> PipeWrite, a \<mapsto> x, b \<mapsto> y)"
          using f r w a b by simp
        have mid: "tee_fds c1 = t5(1 \<mapsto> PipeWrite, 2 \<mapsto> PipeWrite)"
          using c1(2) w(1) neq by (simp add: dup2_fd_def t5)
        have "tee_fds (tee_stop c1) = t5(1 \<mapsto> x, 2 \<mapsto> y, w := None, r := None, a := None, b := None, f := None)"
          using c1 a(1) b(1) f(1) r(1) w(1) neq
          by (simp add: tee_stop_def Let_def mid dup2_fd_def close_fd_def t5 fun_upd_twist[of 1 2])
        also have "\<dots> = ?t" using xy frees f(2) neq by (auto simp: t5 fun_eq_iff)
        finally show ?thesis using c1(8) mid by (simp add: tee_stop_def Let_def)
      qed
      then show ?thesis using c1 by simp
    qed
  qed
qed

end
