(* ===== verification/Pipeline.thy ===== *)
theory Pipeline
  imports Controller Teleop
begin

text \<open>
  The control loop, the planner and the teleoperation tracker together, as the processes of
  \<open>src/system/gearsonic_inference.cpp\<close> wire them: each step is one tick of one of the three
  loops, reading what the others last published; the ticks interleave in any order.
\<close>

section \<open>Wiring\<close>

record pipeline =
  pp_tracker :: tracker
  pp_planner :: planner
  pp_controller :: controller

definition pipeline_new :: "bool \<Rightarrow> pipeline" where
  "pipeline_new auto = \<lparr>pp_tracker = tracker_new, pp_planner = planner_new, pp_controller = controller_new auto\<rparr>"

text \<open>What a control tick reads from the other two.\<close>

definition control_reads :: "pipeline \<Rightarrow> ctl_in \<Rightarrow> ctl_in" where
  "control_reads s i = i
     \<lparr>ci_plan := get_data_with_time (motion_50hz_buf (pp_planner s)),
      ci_calibrated := calibrated (pp_tracker s),
      ci_vr3 := get_data (tk_vr3point_buf (pp_tracker s)),
      ci_smpl := get_data (tk_smpl_window_buf (pp_tracker s)),
      ci_reinit_requested := reinit_requested (pp_planner s),
      ci_reinit_done := reinit_done (pp_planner s)\<rparr>"

text \<open>What it asks of them; disarming concerns the input handler.\<close>

primrec apply_effect :: "ctl_effect \<Rightarrow> pipeline \<Rightarrow> pipeline" where
  "apply_effect DisarmLocomotion s = s"
| "apply_effect ResetCalibration s = s\<lparr>pp_tracker := reset_calibration (pp_tracker s)\<rparr>"
| "apply_effect RequestReinit s = s\<lparr>pp_planner := snd (request_reinit (pp_planner s))\<rparr>"

datatype pipeline_event = ControlTick ctl_in | PlannerTick planner_in | TrackerTick tracker_in

definition pipeline_step ::
    "networks \<Rightarrow> planner_engine \<Rightarrow> pipeline_event \<Rightarrow> pipeline \<Rightarrow> pipeline option" where
  "pipeline_step nets engine e s = (case e of
     ControlTick i \<Rightarrow>
       (case ctl_tick nets (control_reads s i) (pp_controller s) of
          None \<Rightarrow> None
        | Some (eff, c) \<Rightarrow> Some (fold apply_effect eff (s\<lparr>pp_controller := c\<rparr>)))
   | PlannerTick i \<Rightarrow>
       map_option (\<lambda>p. s\<lparr>pp_planner := p\<rparr>)
         (planner_tick engine (i\<lparr>pi_snapshot := playback_snapshot (pp_controller s)\<rparr>) (pp_planner s))
   | TrackerTick i \<Rightarrow> Some (s\<lparr>pp_tracker := tracker_tick i (pp_tracker s)\<rparr>))"

abbreviation pipeline_run ::
    "networks \<Rightarrow> planner_engine \<Rightarrow> pipeline_event list \<Rightarrow> pipeline \<Rightarrow> pipeline option" where
  "pipeline_run nets engine \<equiv> run_steps (pipeline_step nets engine)"

section \<open>The invariants close over each other\<close>

definition pipeline_inv :: "pipeline \<Rightarrow> bool" where
  "pipeline_inv s \<longleftrightarrow> tracker_wf (pp_tracker s) \<and> planner_inv (pp_planner s) \<and> playback_inv (pp_controller s)"

text \<open>A measured state has 29 joints; nothing else is asked of the environment.\<close>

primrec event_ok :: "pipeline_event \<Rightarrow> bool" where
  "event_ok (ControlTick i) = True"
| "event_ok (PlannerTick i) = (\<forall>q. pi_state i = Some q \<longrightarrow> length q = 29)"
| "event_ok (TrackerTick i) = True"

lemma planner_plan_ok: "planner_inv p \<Longrightarrow> plan_ok (get_data_with_time (motion_50hz_buf p))"
  by (auto simp: planner_inv_def plan_ok_def split: if_splits)

lemma request_inv: "planner_inv p \<Longrightarrow> planner_inv (snd (request_reinit p))"
  by (simp add: request_reinit_def planner_inv_def)

lemma effects_inv: "pipeline_inv s \<Longrightarrow> pipeline_inv (fold apply_effect eff s)"
proof (induction eff arbitrary: s)
  case (Cons e eff)
  have "pipeline_inv (apply_effect e s)"
    using Cons.prems by (cases e) (auto simp: pipeline_inv_def request_inv reset_calibration_def)
  then show ?case using Cons.IH by simp
qed simp

lemma snapshot_ok:
  assumes "playback_inv c" "\<forall>q. pi_state i = Some q \<longrightarrow> length q = 29"
  shows "planner_in_ok (i\<lparr>pi_snapshot := playback_snapshot c\<rparr>)"
  using assms by (auto simp: planner_in_ok_def playback_snapshot_def playback_inv_def motion_wf_def)

lemma step_inv:
  assumes "pipeline_inv s" "event_ok e"
  shows "\<exists>s'. pipeline_step nets engine e s = Some s' \<and> pipeline_inv s'"
proof (cases e)
  case (ControlTick i)
  have "playback_inv (pp_controller s)" "plan_ok (ci_plan (control_reads s i))"
    using assms(1) by (simp_all add: pipeline_inv_def control_reads_def planner_plan_ok)
  from ctl_tick_total[OF this, of nets] obtain eff c where
    "ctl_tick nets (control_reads s i) (pp_controller s) = Some (eff, c)" "playback_inv c" by auto
  moreover have "pipeline_inv (s\<lparr>pp_controller := c\<rparr>)"
    using assms(1) calculation by (simp add: pipeline_inv_def)
  ultimately show ?thesis using ControlTick effects_inv by (simp add: pipeline_step_def)
next
  case (PlannerTick i)
  have "planner_in_ok (i\<lparr>pi_snapshot := playback_snapshot (pp_controller s)\<rparr>)"
    using assms PlannerTick by (intro snapshot_ok) (simp_all add: pipeline_inv_def)
  from planner_tick_inv[OF _ this, of "pp_planner s" engine] assms(1) obtain p where
    "planner_tick engine (i\<lparr>pi_snapshot := playback_snapshot (pp_controller s)\<rparr>) (pp_planner s) = Some p"
    "planner_inv p" by (auto simp: pipeline_inv_def)
  then show ?thesis using PlannerTick assms(1) by (simp add: pipeline_step_def pipeline_inv_def)
next
  case (TrackerTick i)
  then show ?thesis using assms(1) by (simp add: pipeline_step_def pipeline_inv_def wf_tick)
qed

text \<open>The three loops are interleaved steps; no log is watched here.\<close>

interpretation loops: stepper "pipeline_step nets engine" pipeline_inv event_ok
    "\<lambda>s. [] :: unit list" "\<lambda>e. False" "\<lambda>m. True"
proof
  fix s e
  assume "pipeline_inv s" "event_ok e"
  then show "\<exists>s'. pipeline_step nets engine e s = Some s' \<and> pipeline_inv s'" by (rule step_inv)
qed simp

lemma pipeline_inv_new: "pipeline_inv (pipeline_new auto)"
  using reachable_wf[OF tracker_reachable.start]
  by (simp add: pipeline_inv_def pipeline_new_def planner_inv_new playback_inv_new)

lemma fill_obs_length:
  assumes "motion_wf m" "0 < timesteps m" "pred_option vr3_wf vr3" "pred_option window_wf smpl"
  shows "length (fill_obs m c p logger vr3 smpl e) = 1751"
  using assms
  by (cases vr3; cases smpl) (simp_all add: fill_obs_def Let_def obs_g1_nth(1) obs_teleop_nth(1) obs_smpl_nth(1))

text \<open>
  C7: The three loops together never fault, with no assumption of one loop on another left open:
  whatever the networks answer, however the ticks of control, planner and teleoperation
  interleave, whatever the operator and the headset do, as long as a measured state has its 29
  joints every tick is defined; the playback and the published plan are always sound motions,
  the planner never runs ahead of its tickets, and the observation assembled from the playback and
  the tracker's targets always has the encoder's 1751 entries.
\<close>
theorem pipeline_never_faults:
  assumes "list_all event_ok es"
  shows "\<exists>s. pipeline_run nets engine es (pipeline_new auto) = Some s
    \<and> (\<forall>m cur. playback_snapshot (pp_controller s) = Some (m, cur) \<longrightarrow>
         motion_wf m \<and> 0 \<le> cur \<and> cur < timesteps m
         \<and> (\<forall>p logger e. length (fill_obs m cur p logger (get_data (tk_vr3point_buf (pp_tracker s)))
              (get_data (tk_smpl_window_buf (pp_tracker s))) e) = 1751))
    \<and> (\<forall>m. get_data (motion_50hz_buf (pp_planner s)) = Some m \<longrightarrow> motion_wf m \<and> 2 \<le> timesteps m \<and> timesteps m \<le> 106)
    \<and> reinit_done (pp_planner s) \<le> reinit_requested (pp_planner s)"
proof -
  obtain s where s: "pipeline_run nets engine es (pipeline_new auto) = Some s" "pipeline_inv s"
    using loops.run_total[OF pipeline_inv_new assms] by blast
  have targets: "pred_option vr3_wf (get_data (tk_vr3point_buf (pp_tracker s)))"
    "pred_option window_wf (get_data (tk_smpl_window_buf (pp_tracker s)))"
    using s(2) by (auto simp: pipeline_inv_def tracker_wf_def pred_option_def)
  have playback: "motion_wf m \<and> 0 \<le> cur \<and> cur < timesteps m \<and> 0 < timesteps m"
    if "playback_snapshot (pp_controller s) = Some (m, cur)" for m cur
    using that s(2) by (auto simp: pipeline_inv_def playback_snapshot_def playback_inv_def motion_wf_def split: if_splits)
  have plans: "motion_wf m \<and> 2 \<le> timesteps m \<and> timesteps m \<le> 106"
    if "get_data (motion_50hz_buf (pp_planner s)) = Some m" for m
    using that s(2) by (auto simp: pipeline_inv_def planner_inv_def split: if_splits)
  show ?thesis
    using s(1) playback plans fill_obs_length[OF _ _ targets] s(2)
    by (intro exI[of _ s] conjI allI impI) (auto simp: pipeline_inv_def planner_inv_def)
qed

lemma pipeline_never_faults_witness:
  "\<exists>s. pipeline_run (\<lambda>_. Some (replicate 64 0), \<lambda>_. None) (\<lambda>c t. Some (map Some (replicate 2304 0), 9))
     [PlannerTick \<lparr>pi_now = 0, pi_publish = 5, pi_state = Some (replicate 29 0), pi_movement = None, pi_snapshot = None\<rparr>,
      ControlTick good_in, TrackerTick (sample_tick True False 1), ControlTick good_in] (pipeline_new True) = Some s
   \<and> reinit_done (pp_planner s) \<le> reinit_requested (pp_planner s)"
  using pipeline_never_faults[of "[PlannerTick \<lparr>pi_now = 0, pi_publish = 5, pi_state = Some (replicate 29 0),
      pi_movement = None, pi_snapshot = None\<rparr>, ControlTick good_in, TrackerTick (sample_tick True False 1), ControlTick good_in]"
      "(\<lambda>_. Some (replicate 64 0), \<lambda>_. None)" "\<lambda>c t. Some (map Some (replicate 2304 0), 9)" True]
  by auto

section \<open>A token stream takes over\<close>

lemma decode_arbiter [simp]: "c_arbiter (snd (decode_and_publish nets i token b c)) = c_arbiter c"
  by (simp add: decode_and_publish_def record_token_def put_command_def Let_def split: option.split prod.split)

lemma advance_arbiter [simp]: "c_arbiter (advance_playback p c) = c_arbiter c"
  by (simp add: advance_playback_def adopt_plan_def Let_def split: option.split)

lemma update_claims:
  "update_arbiter i c = (eff, c1) \<Longrightarrow> arb_mode (c_arbiter c1) = KVla \<Longrightarrow> arb_mode (c_arbiter c) \<noteq> KVla \<Longrightarrow>
     eff = [ResetCalibration]"
  by (auto simp: update_arbiter_def Let_def drop_playback_def split: if_splits arb_mode.splits)

lemma tracking_mode:
  assumes "tick_tracking nets i c = Some (eff, c')"
  shows "arb_mode (c_arbiter c') = arb_mode (c_arbiter c)"
proof (cases "timesteps (c_playback c) = 0")
  case True
  then show ?thesis using assms by (auto simp: tick_tracking_def)
next
  case False
  obtain e c1 where edge: "smpl_edge i (vr3_edge i c) = (e, c1)" by fastforce
  have c1: "arb_mode (c_arbiter c1) = arb_mode (c_arbiter c)"
    using edge_modes(3)[of i "vr3_edge i c"] edge_modes(2)[of i c] edge by simp
  obtain out enc where enc: "encoder_step (fst nets) (c_playback c1) (c_cursor c1) (c_playing c1) (c_logger c1)
      (ci_vr3 i) (ci_smpl i) (c_encoder c1) = (out, enc)" by fastforce
  note run = assms[unfolded tick_tracking_def edge enc prod.case if_not_P[OF False]]
  show ?thesis
  proof (cases out)
    case None
    then show ?thesis using run c1 by auto
  next
    case (Some tok)
    obtain token arb where sel: "select_token (Some tok) None (c_arbiter c1) = Some (token, arb)"
      using run Some by (auto split: option.splits)
    obtain ok c2 where dec: "decode_and_publish nets i token True (c1\<lparr>c_encoder := enc, c_arbiter := arb\<rparr>) = (ok, c2)"
      by fastforce
    have "c_arbiter c2 = arb"
      using decode_arbiter[of nets i token True "c1\<lparr>c_encoder := enc, c_arbiter := arb\<rparr>"] dec by simp
    then have "arb_mode (c_arbiter c') = arb_mode arb" using run Some sel dec by (cases ok) auto
    then show ?thesis using select_token_mode[OF sel] c1 by simp
  qed
qed

lemma tick_control_claims:
  assumes "tick_control nets i c = Some (eff, c')" "arb_mode (c_arbiter c') = KVla" "arb_mode (c_arbiter c) \<noteq> KVla"
  shows "ResetCalibration \<in> set eff"
proof -
  obtain ok c0 where g: "gather_robot_state i c = (ok, c0)" by fastforce
  have c0: "c_arbiter c0 = c_arbiter c" using gather_frame(7)[of i c] g by simp
  show ?thesis
  proof (cases "ok \<and> \<not> (c_reseed_ticket c0 \<noteq> 0 \<and> ci_reinit_done i < c_reseed_ticket c0)")
    case False
    then show ?thesis using assms g c0 by (cases ok) (auto simp: tick_control_def)
  next
    case True
    obtain e c1 where u: "update_arbiter i (c0\<lparr>c_reseed_ticket := 0\<rparr>) = (e, c1)" by fastforce
    note run = assms(1)[unfolded tick_control_def g prod.case]
    have claim: "e = [ResetCalibration]" if "arb_mode (c_arbiter c1) = KVla"
      using update_claims[OF u that] assms(3) c0 by simp
    show ?thesis
    proof (cases "arb_mode (c_arbiter c1)")
      case KVla
      then have "eff = e" using run True u by (auto split: option.splits)
      then show ?thesis using claim[OF KVla] by simp
    next
      case KRecovering
      then obtain e2 where "tick_recovery nets i c1 = Some (e2, c')" using run True u by auto
      then have "arb_mode (c_arbiter c') = KRecovering"
        using KRecovering by (auto simp: tick_recovery_def Let_def dest: select_token_mode split: option.splits if_splits)
      then show ?thesis using assms(2) by simp
    next
      case KNormal
      then obtain e2 where "tick_tracking nets i c1 = Some (e2, c')" using run True u by auto
      then have "arb_mode (c_arbiter c') = KNormal" using KNormal by (simp add: tracking_mode)
      then show ?thesis using assms(2) by simp
    next
      case KTeleop
      then obtain e2 where "tick_tracking nets i c1 = Some (e2, c')" using run True u by auto
      then have "arb_mode (c_arbiter c') = KTeleop" using KTeleop by (simp add: tracking_mode)
      then show ?thesis using assms(2) by simp
    qed
  qed
qed

lemma ctl_tick_claims:
  assumes "ctl_tick nets i c = Some (eff, c')" "arb_mode (c_arbiter c') = KVla" "arb_mode (c_arbiter c) \<noteq> KVla"
  shows "ResetCalibration \<in> set eff"
proof -
  have quiet: "c_arbiter (missing_tick i c) = c_arbiter c"
    by (simp add: missing_tick_def publish_base_hold_def put_command_def Let_def split: option.split)
  obtain e c1 where b: "state_back i c = (e, c1)" by fastforce
  have c1: "arb_mode (c_arbiter c1) = arb_mode (c_arbiter c)"
    using b by (auto simp: state_back_def drop_playback_def split: if_splits)
  have init: "c_arbiter (tick_init i c1) = c_arbiter c1"
    by (simp add: tick_init_def put_command_def Let_def split: option.split)
  consider "ci_estop i" | "\<not> ci_estop i" "\<not> check_safety i" | "\<not> ci_estop i" "check_safety i" by blast
  then show ?thesis
  proof cases
    case 3
    note run = assms(1)[unfolded ctl_tick_def b prod.case] 
    show ?thesis
    proof (cases "c_state c1 = CONTROL")
      case True
      let ?j = "i\<lparr>ci_reinit_requested := ci_reinit_requested i + length (filter ((=) RequestReinit) e)\<rparr>"
      obtain e2 where "tick_control nets ?j c1 = Some (e2, c')" "eff = e @ e2"
        using run True 3 by auto
      then show ?thesis using tick_control_claims[of nets ?j c1 e2 c'] assms(2,3) c1 by simp
    next
      case False
      then have "arb_mode (c_arbiter c') = arb_mode (c_arbiter c)"
        using run 3 c1 init by (cases "c_state c1") (auto split: if_splits)
      then show ?thesis using assms(2,3) by simp
    qed
  qed (use assms quiet in \<open>auto simp: ctl_tick_def publish_damping_def put_command_def\<close>)
qed

lemma effects_tracker:
  "pp_tracker (fold apply_effect eff s) =
     (if ResetCalibration \<in> set eff then reset_calibration (pp_tracker s) else pp_tracker s)"
proof (induction eff arbitrary: s)
  case (Cons e eff)
  then show ?case by (cases e) (auto simp: reset_calibration_def)
qed simp

text \<open>
  C8: When a token stream takes the robot over, teleoperation is off one tracker tick later, in either
  flavor: the tick in which the arbiter's mode becomes VLA asks for the reset, and unless a
  calibration was already pending the tracker's next tick leaves nothing engaged and both
  target buffers empty, whatever the operator holds at that moment.
\<close>
theorem vla_claim_disarms_teleop:
  assumes "pipeline_inv s" "pipeline_step nets engine (ControlTick i) s = Some s1"
    and "arb_mode (c_arbiter (pp_controller s)) \<noteq> KVla" "arb_mode (c_arbiter (pp_controller s1)) = KVla"
    and "pipeline_step nets engine (TrackerTick j) s1 = Some s2" "vla_holds (ti_calib_mode j)" "vla_holds (ti_fb_mode j)"
    and "\<not> tk_calibrate_request (pp_tracker s)"
  shows "\<not> calibrated (pp_tracker s2) \<and> get_data (tk_vr3point_buf (pp_tracker s2)) = None
    \<and> get_data (tk_smpl_window_buf (pp_tracker s2)) = None"
proof -
  obtain eff c where c: "ctl_tick nets (control_reads s i) (pp_controller s) = Some (eff, c)"
    "s1 = fold apply_effect eff (s\<lparr>pp_controller := c\<rparr>)"
    using assms(2) by (auto simp: pipeline_step_def split: option.splits)
  have keep: "pp_controller (fold apply_effect eff s') = pp_controller s'" for s'
  proof (induction eff arbitrary: s')
    case (Cons e eff)
    then show ?case by (cases e) auto
  qed simp
  have "ResetCalibration \<in> set eff"
    using ctl_tick_claims[OF c(1)] assms(3,4) c(2) keep by simp
  then have t1: "pp_tracker s1 = reset_calibration (pp_tracker s)" using c(2) by (simp add: effects_tracker)
  let ?t = "tracker_tick j (pp_tracker s1)"
  have t2: "pp_tracker s2 = ?t" using assms(5) by (auto simp: pipeline_step_def)
  have off: "\<not> tk_calibrated ?t" "\<not> tk_fullbody ?t"
    using assms(6-8) by (simp_all add: tracker_tick_def calib_gesture_run fb_gesture_run t1 reset_calibration_def)
  have "tracker_wf ?t"
    using assms(1) t1 by (intro wf_tick) (simp add: pipeline_inv_def reset_calibration_def)
  then show ?thesis using off t2
    by (cases "get_data (tk_vr3point_buf ?t)"; cases "get_data (tk_smpl_window_buf ?t)")
      (auto simp: tracker_wf_def calibrated_def)
qed

definition claimed_in :: ctl_in where
  "claimed_in = good_in\<lparr>ci_vla := \<lparr>ts_data = Some \<lparr>la_token = replicate 64 0, la_left_hand = replicate 7 0,
     la_right_hand = replicate 7 0, la_frame_index = 0, la_stamp_ns = 0, la_seq = 0\<rparr>, ts_time = 0\<rparr>\<rparr>"

definition engaging :: pipeline where
  "engaging = (pipeline_new True)\<lparr>pp_controller := (controller_new True)\<lparr>c_state := CONTROL\<rparr>,
     pp_tracker := tracker_new\<rparr>"

lemma vla_claim_disarms_teleop_witness:
  "\<exists>s1 s2. pipeline_step (\<lambda>_. None, \<lambda>_. None) (\<lambda>_ _. None) (ControlTick claimed_in) engaging = Some s1
     \<and> pipeline_step (\<lambda>_. None, \<lambda>_. None) (\<lambda>_ _. None)
         (TrackerTick (sample_tick False True 1\<lparr>ti_calib_mode := KVla, ti_fb_mode := KVla\<rparr>)) s1 = Some s2
     \<and> \<not> calibrated (pp_tracker s2)"
proof -
  let ?j = "sample_tick False True 1\<lparr>ti_calib_mode := KVla, ti_fb_mode := KVla\<rparr>"
  let ?nets = "(\<lambda>_. None, \<lambda>_. None) :: networks" and ?engine = "\<lambda>_ _. None"
  have inv: "pipeline_inv engaging"
    using pipeline_inv_new[of True] by (simp add: engaging_def pipeline_inv_def pipeline_new_def playback_inv_def)
  have mode: "arb_mode (c_arbiter (pp_controller engaging)) \<noteq> KVla"
    by (simp add: engaging_def controller_new_def arbiter_init_def)
  have slow: "\<not> list_ex (\<lambda>v. kMaxJointVel < \<bar>v\<bar>) (body_dq (state_entry a standing))" for a
    using joint_tables_inverse
    by (auto simp: list_ex_iff state_entry_def standing_def kMaxJointVel_def)
  obtain s1 where s1: "pipeline_step ?nets ?engine (ControlTick claimed_in) engaging = Some s1"
    "arb_mode (c_arbiter (pp_controller s1)) = KVla"
    by (simp add: pipeline_step_def ctl_tick_def control_reads_def claimed_in_def good_in_def engaging_def
        pipeline_new_def check_safety_def has_data_def get_age_ms_def kStateStaleMs_def state_back_def controller_new_def
        tick_control_def gather_robot_state_def slow update_arbiter_def calibrated_def Let_def kVlaTokenFreshMs_def
        tracker_new_def arbiter_init_def step_mode_def decide_def tick_vla_def)
  have s2: "pipeline_step ?nets ?engine (TrackerTick ?j) s1 = Some (s1\<lparr>pp_tracker := tracker_tick ?j (pp_tracker s1)\<rparr>)"
    by (simp add: pipeline_step_def)
  have "vla_holds (ti_calib_mode ?j)" "vla_holds (ti_fb_mode ?j)" "\<not> tk_calibrate_request (pp_tracker engaging)"
    by (simp_all add: vla_holds_def engaging_def tracker_new_def)
  from vla_claim_disarms_teleop[OF inv s1(1) mode s1(2) s2 this] s1 s2 show ?thesis by blast
qed

end
