(* ===== verification/Estop_Path.thy ===== *)
theory Estop_Path
  imports Controller Command_Writer Hand_Writer
begin

text \<open>
  The way of the emergency stop through four threads: the input handler latches it, the control
  loop and the hand loop read the latch, the body writer reads the command buffer the control
  loop fills. Each step is one iteration of one of the four loops, reading what the others last
  left, as \<open>src/system/gearsonic_inference.cpp\<close> wires them; they interleave in any order.
\<close>

section \<open>Four loops side by side\<close>

record robot_loops =
  rl_input :: input_handler
  rl_controller :: controller
  rl_body :: command_writer
  rl_hands :: hand_writer

datatype loop_event = OperatorTick tick_in | WholeBodyTick ctl_in | BodyWrite cmd_in | HandWrite hand_in

text \<open>The one call of the control loop that reaches these threads.\<close>

primrec loop_effect :: "ctl_effect \<Rightarrow> robot_loops \<Rightarrow> robot_loops" where
  "loop_effect DisarmLocomotion s = s\<lparr>rl_input := disarm (rl_input s)\<rparr>"
| "loop_effect ResetCalibration s = s"
| "loop_effect RequestReinit s = s"

definition loops_step ::
    "networks \<Rightarrow> (low_cmd \<Rightarrow> 32 word list) \<Rightarrow> loop_event \<Rightarrow> robot_loops \<Rightarrow> robot_loops option" where
  "loops_step nets layout e s = (case e of
     OperatorTick i \<Rightarrow>
       Some (s\<lparr>rl_input := snd (input_tick (i\<lparr>in_mode := arb_mode (c_arbiter (rl_controller s))\<rparr>) (rl_input s))\<rparr>)
   | WholeBodyTick i \<Rightarrow>
       (case ctl_tick nets (i\<lparr>ci_estop := estop (rl_input s)\<rparr>) (rl_controller s) of
          None \<Rightarrow> None
        | Some (eff, c) \<Rightarrow> Some (fold loop_effect eff (s\<lparr>rl_controller := c\<rparr>)))
   | BodyWrite i \<Rightarrow>
       Some (s\<lparr>rl_body := cmd_tick layout (i\<lparr>cm_cmd := get_data (c_command_buf (rl_controller s))\<rparr>) (rl_body s)\<rparr>)
   | HandWrite i \<Rightarrow>
       Some (s\<lparr>rl_hands := hand_tick (i\<lparr>hi_estop := estop (rl_input s),
         hi_mode := arb_mode (c_arbiter (rl_controller s))\<rparr>) (rl_hands s)\<rparr>))"

abbreviation loops_run ::
    "networks \<Rightarrow> (low_cmd \<Rightarrow> 32 word list) \<Rightarrow> loop_event list \<Rightarrow> robot_loops \<Rightarrow> robot_loops option" where
  "loops_run nets layout \<equiv> run_steps (loops_step nets layout)"

definition loops_new :: "bool \<Rightarrow> command_writer \<Rightarrow> hand_writer \<Rightarrow> robot_loops" where
  "loops_new auto w h = \<lparr>rl_input = input_init, rl_controller = controller_new auto, rl_body = w, rl_hands = h\<rparr>"

text \<open>The controller samples the operator gave, and how often each writer ran.\<close>

fun operator_sample :: "loop_event \<Rightarrow> pico_controller option" where
  "operator_sample (OperatorTick i) = in_ctrl i"
| "operator_sample _ = None"

definition operator_samples :: "loop_event list \<Rightarrow> pico_controller list" where
  "operator_samples es = List.map_filter operator_sample es"

fun body_write :: "loop_event \<Rightarrow> bool" where
  "body_write (BodyWrite i) = True" | "body_write _ = False"

fun hand_write :: "loop_event \<Rightarrow> bool" where
  "hand_write (HandWrite i) = True" | "hand_write _ = False"

lemma operator_samples_simps [simp]:
  "operator_samples [] = []"
  "operator_samples (e # es) = (case operator_sample e of None \<Rightarrow> [] | Some c \<Rightarrow> [c]) @ operator_samples es"
  by (simp_all add: operator_samples_def List.map_filter_def split: option.split)

section \<open>The latch is what the operator held\<close>

lemma effects_keep [simp]:
  "rl_controller (fold loop_effect eff s) = rl_controller s"
  "rl_body (fold loop_effect eff s) = rl_body s" "rl_hands (fold loop_effect eff s) = rl_hands s"
proof (induction eff arbitrary: s)
  case (Cons e eff)
  { case 1 show ?case using Cons by (cases e) simp_all }
  { case 2 show ?case using Cons by (cases e) simp_all }
  { case 3 show ?case using Cons by (cases e) simp_all }
qed simp_all

lemma disarm_buttons: "buttons_inv xs h \<Longrightarrow> buttons_inv xs (disarm h)"
  using input_step_buttons[of xs h Disarm] by simp

lemma effects_buttons: "buttons_inv xs (rl_input s) \<Longrightarrow> buttons_inv xs (rl_input (fold loop_effect eff s))"
proof (induction eff arbitrary: s)
  case (Cons e eff)
  then show ?case by (cases e) (simp_all add: disarm_buttons)
qed simp

lemma step_buttons:
  assumes "buttons_inv xs (rl_input s)" "loops_step nets layout e s = Some s'"
  shows "buttons_inv (xs @ operator_samples [e]) (rl_input s')"
proof (cases e)
  case (OperatorTick i)
  with input_step_buttons[OF assms(1), of "Tick (i\<lparr>in_mode := arb_mode (c_arbiter (rl_controller s))\<rparr>)"] assms(2)
  show ?thesis by (auto simp: loops_step_def)
next
  case (WholeBodyTick i)
  then show ?thesis using assms by (auto simp: loops_step_def effects_buttons split: option.splits)
qed (use assms in \<open>auto simp: loops_step_def\<close>)

lemma run_buttons:
  "buttons_inv xs (rl_input s) \<Longrightarrow> loops_run nets layout es s = Some s' \<Longrightarrow>
     buttons_inv (xs @ operator_samples es) (rl_input s')"
proof (induction es arbitrary: xs s)
  case (Cons e es)
  from Cons.prems(2) obtain s1 where s1: "loops_step nets layout e s = Some s1" "loops_run nets layout es s1 = Some s'"
    by (auto split: option.splits)
  from Cons.IH[OF step_buttons[OF Cons.prems(1) s1(1)] s1(2)] show ?case by simp
qed simp

section \<open>Once latched\<close>

definition latched :: "robot_loops \<Rightarrow> bool" where
  "latched s \<longleftrightarrow> (\<exists>xs. buttons_inv xs (rl_input s) \<and> sustained kEstopHoldTicks all_four xs)"

text \<open>From the first control tick after the latch on: terminated, with damping in the buffer.\<close>

definition damped :: "robot_loops \<Rightarrow> bool" where
  "damped s \<longleftrightarrow> latched s \<and> c_state (rl_controller s) = ESTOP
     \<and> get_data (c_command_buf (rl_controller s)) = Some damping_command"

lemma sustained_append: "sustained n P xs \<Longrightarrow> sustained n P (xs @ ys)"
  unfolding sustained_def by (metis append.assoc)

lemma latched_estop: "latched s \<Longrightarrow> estop (rl_input s)"
  by (auto simp: latched_def buttons_inv_def)

lemma latched_step: "latched s \<Longrightarrow> loops_step nets layout e s = Some s' \<Longrightarrow> latched s'"
  unfolding latched_def using step_buttons sustained_append by blast

lemma estop_tick: "ci_estop i \<Longrightarrow> ctl_tick nets i c = Some ([], publish_damping (ci_now i) (c\<lparr>c_state := ESTOP\<rparr>))"
  by (simp add: ctl_tick_def)

lemma latched_total: "latched s \<Longrightarrow> \<exists>s'. loops_step nets layout e s = Some s'"
  by (cases e) (simp_all add: loops_step_def latched_estop estop_tick)

lemma control_tick_damps:
  assumes "latched s" "loops_step nets layout (WholeBodyTick i) s = Some s'"
  shows "damped s'"
proof -
  have "latched s'" using assms by (rule latched_step)
  then show ?thesis
    using assms(2) latched_estop[OF assms(1)]
    by (auto simp: damped_def loops_step_def estop_tick publish_damping_def put_command_def)
qed

lemma damped_step:
  assumes "damped s" "loops_step nets layout e s = Some s'"
  shows "damped s'"
proof -
  have latch: "latched s" using assms(1) by (simp add: damped_def)
  have latch': "latched s'" by (rule latched_step[OF latch assms(2)])
  show ?thesis
  proof (cases e)
    case (WholeBodyTick i)
    then show ?thesis using control_tick_damps[OF latch] assms(2) by simp
  qed (use assms latch' in \<open>auto simp: damped_def loops_step_def\<close>)
qed

text \<open>What one step writes.\<close>

definition stop_pair :: "hand_msg \<times> hand_msg \<Rightarrow> bool" where
  "stop_pair m \<longleftrightarrow> stop_msg (fst m) \<and> stop_msg (snd m)"

lemma hand_tick_stop:
  assumes "hi_estop i"
  shows "\<exists>m. stop_pair m \<and> hw_written (hand_tick i w) = hw_written w @ [m]"
proof -
  have "tick_pair i w = ((stop_command, stop_command), reset_squeezes (calib_step i w))"
    using assms by (simp add: tick_pair_def hand_select_def Let_def feedback_stage_def) (simp add: stop_command_def)
  then show ?thesis
    by (simp add: hand_tick_pair hand_publish_def stop_pair_def fill_stop reset_squeezes_def)
qed

lemma step_hands:
  assumes "latched s" "loops_step nets layout e s = Some s'"
  shows "\<exists>ms. list_all stop_pair ms \<and> length ms = length (filter hand_write [e])
     \<and> hw_written (rl_hands s') = hw_written (rl_hands s) @ ms"
proof (cases e)
  case (HandWrite i)
  let ?i = "i\<lparr>hi_estop := estop (rl_input s), hi_mode := arb_mode (c_arbiter (rl_controller s))\<rparr>"
  have "hi_estop ?i" using latched_estop[OF assms(1)] by simp
  from hand_tick_stop[OF this, of "rl_hands s"] obtain m where
    "stop_pair m" "hw_written (hand_tick ?i (rl_hands s)) = hw_written (rl_hands s) @ [m]" by blast
  then show ?thesis using assms(2) HandWrite by (intro exI[of _ "[m]"]) (auto simp: loops_step_def)
qed (use assms in \<open>auto simp: loops_step_def split: option.splits\<close>)

lemma damping_is_cmd_damping: "damping_command = cmd_damping"
  by (simp add: damping_command_def cmd_damping_def)

lemma step_body:
  assumes "damped s" "loops_step nets layout e s = Some s'"
  shows "\<exists>ms. list_all damps ms \<and> length ms = length (filter body_write [e])
     \<and> cw_sent (rl_body s') = cw_sent (rl_body s) @ ms"
proof (cases e)
  case (BodyWrite i)
  then show ?thesis
    using assms by (intro exI[of _ "[low_cmd_of layout (cm_state i) cmd_damping]"])
      (auto simp: damped_def loops_step_def cmd_tick_sent damping_is_cmd_damping low_cmd_of_damps)
qed (use assms in \<open>auto simp: loops_step_def split: option.splits\<close>)

text \<open>The two invariants with the log each of them vouches for.\<close>

interpretation hand_stop: stepper "loops_step nets layout" latched "\<lambda>e. True"
    "\<lambda>s. hw_written (rl_hands s)" hand_write stop_pair
proof
  fix s e
  show "\<exists>s'. loops_step nets layout e s = Some s' \<and> latched s'" if "latched s"
    using latched_total[OF that] latched_step[OF that] by blast
next
  fix s e s'
  assume "latched s" "loops_step nets layout e s = Some s'"
  from step_hands[OF this] show "\<exists>ms. hw_written (rl_hands s') = hw_written (rl_hands s) @ ms \<and> list_all stop_pair ms
      \<and> length ms = length (filter hand_write [e])" by blast
qed

interpretation body_stop: stepper "loops_step nets layout" damped "\<lambda>e. True"
    "\<lambda>s. cw_sent (rl_body s)" body_write damps
proof
  fix s e
  assume d: "damped s"
  then have "latched s" by (simp add: damped_def)
  from latched_total[OF this] damped_step[OF d]
  show "\<exists>s'. loops_step nets layout e s = Some s' \<and> damped s'" by blast
next
  fix s e s'
  assume "damped s" "loops_step nets layout e s = Some s'"
  from step_body[OF this] show "\<exists>ms. cw_sent (rl_body s') = cw_sent (rl_body s) @ ms \<and> list_all damps ms
      \<and> length ms = length (filter body_write [e])" by blast
qed

text \<open>
  C2: The emergency stop ends the motion of the whole robot for good: take any run of the four loops
  in which the operator held all four face buttons for 500 consecutive samples. Then no later
  iteration of any loop can fault, every hand message pair written from there on is a stop pair,
  and from the next control tick on the controller is terminated and every body message damps all
  29 joints with zero stiffness, one per writer iteration, whatever the robot state, the token
  stream, the headset or the operator do.
\<close>
theorem estop_stops_whole_robot:
  assumes "loops_run nets layout es (loops_new auto w h) = Some s"
    and "sustained 500 all_four (operator_samples es)"
  shows "\<exists>s1 s2 hands body. loops_run nets layout (before @ [WholeBodyTick i]) s = Some s1
    \<and> loops_run nets layout later s1 = Some s2
    \<and> hw_written (rl_hands s2) = hw_written (rl_hands s) @ hands \<and> list_all stop_pair hands
    \<and> length hands = length (filter hand_write (before @ WholeBodyTick i # later))
    \<and> cw_sent (rl_body s2) = cw_sent (rl_body s1) @ body \<and> list_all damps body
    \<and> length body = length (filter body_write later)
    \<and> c_state (rl_controller s2) = ESTOP"
proof -
  have "buttons_inv ([] @ operator_samples es) (rl_input s)"
    using assms(1) by (intro run_buttons[of "[]"]) (simp_all add: loops_new_def buttons_inv_init)
  then have latch: "latched s" using assms(2) unfolding latched_def kEstopHoldTicks_def by auto
  from hand_stop.run_total[OF this, of "before @ WholeBodyTick i # later" nets layout] obtain s2 hands where
    s2: "loops_run nets layout (before @ WholeBodyTick i # later) s = Some s2" "list_all stop_pair hands"
      "length hands = length (filter hand_write (before @ WholeBodyTick i # later))"
      "hw_written (rl_hands s2) = hw_written (rl_hands s) @ hands" by (auto simp: list_all_iff)
  from hand_stop.run_total[OF latch, of before nets layout] obtain s0 where
    s0: "loops_run nets layout before s = Some s0" "latched s0" by (auto simp: list_all_iff)
  obtain s1 where s1: "loops_step nets layout (WholeBodyTick i) s0 = Some s1"
    using latched_total[OF s0(2)] by blast
  have split: "loops_run nets layout (before @ [WholeBodyTick i]) s = Some s1" "loops_run nets layout later s1 = Some s2"
    using s2(1) s0(1) s1 by (simp_all add: run_steps_append)
  from body_stop.run_total[OF control_tick_damps[OF s0(2) s1], of later nets layout] split(2) obtain body where
    "damped s2" "list_all damps body" "length body = length (filter body_write later)"
    "cw_sent (rl_body s2) = cw_sent (rl_body s1) @ body" by (auto simp: list_all_iff)
  then show ?thesis using s2 split by (auto simp: damped_def)
qed

text \<open>The witness: 500 samples with the four buttons down, then one iteration of each other loop.\<close>

definition hold_all :: loop_event where
  "hold_all = OperatorTick \<lparr>in_ctrl = Some (pico_neutral\<lparr>btn_a := True, btn_b := True, btn_x := True,
     btn_y := True\<rparr>), in_mode = KNormal, in_nav = get_data_with_time buf_empty, in_now = 0\<rparr>"

lemma samples_hold_all:
  "operator_samples (replicate n hold_all) = replicate n (pico_neutral\<lparr>btn_a := True, btn_b := True,
     btn_x := True, btn_y := True\<rparr>)"
  by (induction n) (simp_all add: hold_all_def)

lemma operator_ticks_run: "\<exists>s'. loops_run nets layout (replicate n hold_all) s = Some s'"
  by (induction n arbitrary: s) (simp_all add: hold_all_def loops_step_def)

lemma estop_stops_whole_robot_witness:
  "\<exists>s s1 s2 body. loops_run (\<lambda>_. None, \<lambda>_. None) sample_cmd_layout (replicate 500 hold_all)
        (loops_new True command_writer_new hand_writer_new) = Some s
     \<and> loops_run (\<lambda>_. None, \<lambda>_. None) sample_cmd_layout [WholeBodyTick good_in] s = Some s1
     \<and> loops_run (\<lambda>_. None, \<lambda>_. None) sample_cmd_layout
         [BodyWrite \<lparr>cm_t0 = 2, cm_cmd = None, cm_state = None\<rparr>] s1 = Some s2
     \<and> cw_sent (rl_body s2) = cw_sent (rl_body s1) @ body \<and> length body = 1 \<and> list_all damps body"
proof -
  let ?nets = "(\<lambda>_. None, \<lambda>_. None) :: networks" and ?tick = "\<lparr>cm_t0 = 2, cm_cmd = None, cm_state = None\<rparr>"
  obtain s where s: "loops_run ?nets sample_cmd_layout (replicate 500 hold_all)
      (loops_new True command_writer_new hand_writer_new) = Some s"
    using operator_ticks_run by blast
  have held: "sustained 500 all_four (operator_samples (replicate 500 hold_all))"
    by (simp only: samples_hold_all) (simp add: sustained_replicate all_four_def)
  from estop_stops_whole_robot[OF s held, of "[]" good_in "[BodyWrite ?tick]"] obtain s1 s2 body where
    "loops_run ?nets sample_cmd_layout ([] @ [WholeBodyTick good_in]) s = Some s1"
    "loops_run ?nets sample_cmd_layout [BodyWrite ?tick] s1 = Some s2"
    "cw_sent (rl_body s2) = cw_sent (rl_body s1) @ body" "list_all damps body"
    "length body = length (filter body_write [BodyWrite ?tick])" by blast
  then show ?thesis unfolding append_Nil using s
    by (intro exI[of _ s] exI[of _ s1] exI[of _ s2] exI[of _ body]) (simp del: run_steps.simps)
qed

end
