(* ===== verification/Trace_File.thy ===== *)
theory Trace_File
  imports Trace_Ring Observers
begin

text \<open>
  The trace file as bytes: the text header \<open>StateTrace::start\<close> writes and the little-endian
  float32 rows of the writer (\<open>src/control/state_trace.cpp\<close>), the row the control loop asks
  for at the end of a tick (\<open>trace_tick\<close> of \<open>src/control/whole_body_controller.cpp\<close>), and a
  reader of the format that takes the steps of \<open>tools/read_trace.py\<close> on a file whose header is
  ASCII with a plain decimal count. A byte is a \<^typ>\<open>char\<close>, a float32 its 32-bit pattern.
\<close>

section \<open>The row of a control tick\<close>

text \<open>The controller's own fields; the rest of the row is read from the other modules' buffers.\<close>

definition planner_frame_of :: "controller \<Rightarrow> motion_frame option" where
  "planner_frame_of c =
     (if timesteps (c_playback c) > 0
      then Some (frames (c_playback c) ! nat (clamp (c_cursor c) 0 (timesteps (c_playback c) - 1)))
      else None)"

definition tick_info :: "controller \<Rightarrow> row_in \<Rightarrow> row_in" where
  "tick_info c i = i\<lparr>ri_wbc_state := c_state c, ri_encoder_mode := last_mode (c_encoder c),
     ri_planner_cursor := c_cursor c, ri_planner_frame := planner_frame_of c\<rparr>"

definition trace_tick :: "(real \<Rightarrow> 32 word) \<Rightarrow> controller \<Rightarrow> row_in \<Rightarrow> 32 word list trace \<Rightarrow> 32 word list trace" where
  "trace_tick float32 c i t =
     (if \<not> tr_enabled t then t
      else snd (trace_record (\<lambda>tick dropped. map float32 (trace_fill (tick_info c i) tick dropped)) t))"

section \<open>The bytes of the file\<close>

definition newline :: char where "newline = CHR 0x0A"
definition comma :: char where "comma = CHR 0x2C"

text \<open>The names with a comma before every one but the first.\<close>

fun joined :: "string list \<Rightarrow> string" where
  "joined [] = []"
| "joined [n] = n"
| "joined (n # ns) = n @ comma # joined ns"

definition header_lines :: "string list" where
  "header_lines = [''STATETRACE v1'', ''columns='' @ to_string num_columns, ''rate_hz=50'',
     joined state_trace_columns, ''END'']"

definition trace_header :: string where
  "trace_header = concat (map (\<lambda>l. l @ [newline]) header_lines)"

definition float_bytes :: "32 word \<Rightarrow> string" where
  "float_bytes w = map (\<lambda>k. char_of (unat (drop_bit (8 * k) w) mod 256)) [0..<4]"

definition row_bytes :: "32 word list \<Rightarrow> string" where
  "row_bytes r = concat (map float_bytes r)"

definition trace_bytes :: "32 word list list \<Rightarrow> string" where
  "trace_bytes rows = trace_header @ concat (map row_bytes rows)"

section \<open>A reader\<close>

text \<open>\<open>readline\<close>: up to and with the first newline.\<close>

fun readline :: "string \<Rightarrow> string \<times> string" where
  "readline [] = ([], [])"
| "readline (c # cs) = (if c = newline then ([c], cs) else case readline cs of (l, r) \<Rightarrow> (c # l, r))"

lemma readline_rest: "cs \<noteq> [] \<Longrightarrow> length (snd (readline cs)) < length cs"
proof (induction cs)
  case (Cons c cs)
  then show ?case by (cases "cs = []") (auto split: prod.split)
qed simp

definition ends_with :: "string \<Rightarrow> string \<Rightarrow> bool" where
  "ends_with t s \<longleftrightarrow> take (length t) (rev s) = rev t"

function read_head :: "string \<Rightarrow> string \<Rightarrow> (string \<times> string) option" where
  "read_head head rest =
     (if ends_with (''END'' @ [newline]) head then Some (head, rest)
      else if rest = [] then None
      else read_head (head @ fst (readline rest)) (snd (readline rest)))"
  by pat_completeness auto
termination by (relation "measure (length \<circ> snd)") (auto simp: readline_rest)

declare read_head.simps [simp del]

fun split_on :: "char \<Rightarrow> string \<Rightarrow> string list" where
  "split_on sep [] = [[]]"
| "split_on sep (c # cs) =
     (if c = sep then [] # split_on sep cs
      else case split_on sep cs of p # ps \<Rightarrow> (c # p) # ps | [] \<Rightarrow> [[c]])"

definition is_dec :: "char \<Rightarrow> bool" where
  "is_dec c \<longleftrightarrow> 48 \<le> (of_char c :: nat) \<and> (of_char c :: nat) \<le> 57"

definition dec_val :: "string \<Rightarrow> nat option" where
  "dec_val s = (if s \<noteq> [] \<and> list_all is_dec s then Some (foldl (\<lambda>n c. 10 * n + (of_char c - 48)) 0 s) else None)"

definition word_of_bytes :: "string \<Rightarrow> 32 word" where
  "word_of_bytes bs = word_of_nat (\<Sum>k<4. of_char (bs ! k) * 256 ^ k)"

fun groups :: "nat \<Rightarrow> nat \<Rightarrow> 'a list \<Rightarrow> 'a list list" where
  "groups n 0 xs = []"
| "groups n (Suc k) xs = take n xs # groups n k (drop n xs)"

text \<open>Magic, count, the third line unread, names; then the floats, an incomplete last row dropped.\<close>

definition load_trace :: "string \<Rightarrow> (string list \<times> 32 word list list) option" where
  "load_trace file =
     (case read_head [] file of
        None \<Rightarrow> None
      | Some (head, raw) \<Rightarrow>
          (case split_on newline head of
             magic # count # rate # names # rest \<Rightarrow>
               (case split_on (CHR ''='') count of
                  key # digits # others \<Rightarrow>
                    (case dec_val digits of
                       None \<Rightarrow> None
                     | Some ncol \<Rightarrow>
                         if magic \<noteq> ''STATETRACE v1'' \<or> length (split_on comma names) \<noteq> ncol
                            \<or> length raw mod 4 \<noteq> 0 then None
                         else (let floats = map word_of_bytes (groups 4 (length raw div 4) raw)
                               in Some (split_on comma names, groups ncol (length floats div ncol) floats)))
                | _ \<Rightarrow> None)
           | _ \<Rightarrow> None))"

section \<open>Printing and reading back\<close>

lemma split_on_plain: "sep \<notin> set s \<Longrightarrow> split_on sep s = [s]"
  by (induction s) auto

lemma split_on_sep: "sep \<notin> set s \<Longrightarrow> split_on sep (s @ sep # t) = s # split_on sep t"
  by (induction s) auto

lemma split_joined: "ns \<noteq> [] \<Longrightarrow> \<forall>n\<in>set ns. comma \<notin> set n \<Longrightarrow> split_on comma (joined ns) = ns"
  by (induction ns rule: joined.induct) (auto simp: split_on_plain split_on_sep)

lemma split_lines:
  "\<forall>l\<in>set ls. newline \<notin> set l \<Longrightarrow> split_on newline (concat (map (\<lambda>l. l @ [newline]) ls)) = ls @ [[]]"
  by (induction ls) (auto simp: split_on_sep)

lemma joined_snoc: "ns \<noteq> [] \<Longrightarrow> joined (ns @ [n]) = joined ns @ comma # n"
  by (induction ns rule: joined.induct) auto

lemma set_joined: "set (joined ns) \<subseteq> insert comma (\<Union> (set ` set ns))"
  by (induction ns rule: joined.induct) auto

lemma readline_line: "newline \<notin> set l \<Longrightarrow> readline (l @ newline # r) = (l @ [newline], r)"
  by (induction l) auto

text \<open>Header lines are read one by one as long as none of them ends in \<open>END\<close>.\<close>

lemma ends_with_append: "length t \<le> length s \<Longrightarrow> ends_with t (h @ s) = ends_with t s"
  by (simp add: ends_with_def)

lemma read_head_lines:
  assumes "\<forall>l\<in>set ls. newline \<notin> set l \<and> 3 \<le> length l \<and> \<not> ends_with (''END'' @ [newline]) (l @ [newline])"
    and "\<not> ends_with (''END'' @ [newline]) head"
  shows "read_head head (concat (map (\<lambda>l. l @ [newline]) ls) @ ''END'' @ newline # raw)
    = Some (head @ concat (map (\<lambda>l. l @ [newline]) ls) @ ''END'' @ [newline], raw)"
  using assms
proof (induction ls arbitrary: head)
  case Nil
  have line: "readline (''END'' @ newline # raw) = (''END'' @ [newline], raw)"
    by (rule readline_line) (simp add: newline_def)
  have "ends_with (''END'' @ [newline]) (head @ ''END'' @ [newline])" by (simp add: ends_with_def)
  then have "read_head (head @ ''END'' @ [newline]) raw = Some (head @ ''END'' @ [newline], raw)"
    by (subst read_head.simps) simp
  then show ?case using Nil.prems(2) line
    by (subst read_head.simps) (simp only: list.map concat.simps append_Nil fst_conv snd_conv if_False
        append_is_Nil_conv list.distinct simp_thms)
next
  case (Cons l ls)
  let ?rest = "concat (map (\<lambda>l. l @ [newline]) ls) @ ''END'' @ newline # raw"
  have l: "newline \<notin> set l" "4 \<le> length (l @ [newline])" "\<not> ends_with (''END'' @ [newline]) (l @ [newline])"
    using Cons.prems(1) by auto
  have line: "readline (l @ newline # ?rest) = (l @ [newline], ?rest)" by (rule readline_line[OF l(1)])
  have "\<not> ends_with (''END'' @ [newline]) (head @ l @ [newline])"
    using ends_with_append[of "''END'' @ [newline]" "l @ [newline]" head] l by simp
  from Cons.IH[OF _ this] Cons.prems(1)
  have "read_head (head @ l @ [newline]) ?rest
      = Some ((head @ l @ [newline]) @ concat (map (\<lambda>l. l @ [newline]) ls) @ ''END'' @ [newline], raw)"
    by simp
  moreover have "read_head head (l @ newline # ?rest) = read_head (head @ l @ [newline]) ?rest"
    using Cons.prems(2) line by (subst read_head.simps) simp
  ultimately show ?case by simp
qed

section \<open>The header\<close>

lemma num_columns_value: "num_columns = 523"
  unfolding num_columns_def state_trace_columns_def length_concat column_lengths by simp

lemma count_digits: "to_string num_columns = ''523''"
  unfolding num_columns_value by code_simp

lemma digit_char: "m < 10 \<Longrightarrow> (of_char (char_of (48 + m)) :: nat) = 48 + m"
  by (simp add: of_char_of)

lemma to_string_digits: "list_all is_dec (to_string n) \<and> to_string n \<noteq> []"
proof (induction n rule: to_string.induct)
  case (1 n)
  then show ?case by (cases "n < 10") (simp_all add: to_string.simps[of n] is_dec_def digit_char)
qed

lemma to_string_value: "foldl (\<lambda>n c. 10 * n + (of_char c - 48)) 0 (to_string n) = (n :: nat)"
proof (induction n rule: to_string.induct)
  case (1 n)
  then show ?case by (cases "n < 10") (simp_all add: to_string.simps[of n] digit_char)
qed

lemma dec_val_to_string: "dec_val (to_string n) = Some n"
  using to_string_digits[of n] by (simp add: dec_val_def to_string_value)

text \<open>A plain name has no separator of any kind.\<close>

definition plain :: "char \<Rightarrow> bool" where
  "plain c \<longleftrightarrow> c \<noteq> newline \<and> c \<noteq> comma \<and> c \<noteq> CHR ''=''"

lemma dec_plain: "is_dec c \<Longrightarrow> plain c"
  by (auto simp: plain_def is_dec_def newline_def comma_def)

lemma to_string_plain: "list_all plain (to_string n)"
  using to_string_digits[of n] dec_plain by (auto simp: list_all_iff)

lemma add_plain: "list_all plain n \<Longrightarrow> list_all (list_all plain) (add n)"
  by (simp add: add_def)

lemma addn_plain: "list_all plain n \<Longrightarrow> list_all (list_all plain) (addn n k)"
  using to_string_plain by (auto simp: addn_def list_all_iff plain_def newline_def comma_def)

lemma columns_plain: "list_all (list_all plain) state_trace_columns"
proof -
  have "list_all (list_all (list_all plain)) column_blocks"
    unfolding column_blocks_def list.pred_inject
    by (intro conjI add_plain addn_plain TrueI) (simp_all add: plain_def newline_def comma_def)
  then show ?thesis by (auto simp: state_trace_columns_def list_all_iff)
qed

text \<open>The last column closes the line of names.\<close>

lemma columns_last: "\<exists>ns. ns \<noteq> [] \<and> state_trace_columns = ns @ [''record_state'']"
proof -
  have "column_blocks = butlast column_blocks @ [add ''record_state'']" "concat (butlast column_blocks) \<noteq> []"
    by (simp_all add: column_blocks_def add_def)
  then have "state_trace_columns = concat (butlast column_blocks) @ [''record_state'']"
    unfolding state_trace_columns_def by (metis add_def concat.simps(1,2) concat_append append_Nil2)
  with \<open>concat (butlast column_blocks) \<noteq> []\<close> show ?thesis by blast
qed

lemma names_line: "\<exists>u. joined state_trace_columns = u @ ''record_state''"
proof -
  obtain ns where ns: "ns \<noteq> []" "state_trace_columns = ns @ [''record_state'']" using columns_last by blast
  show ?thesis unfolding ns(2) joined_snoc[OF ns(1)] by (intro exI[of _ "joined ns @ [comma]"]) simp
qed

lemma names_one_line: "newline \<notin> set (joined state_trace_columns)"
  using set_joined[of state_trace_columns] columns_plain
  by (fastforce simp: list_all_iff plain_def newline_def comma_def)

section \<open>The rows\<close>

lemma groups_concat:
  "\<forall>x\<in>set xs. length x = n \<Longrightarrow> groups n (length xs) (concat xs @ part) = xs"
  by (induction xs) auto

lemma length_float_bytes [simp]: "length (float_bytes w) = 4"
  by (simp add: float_bytes_def)

lemma length_row_bytes: "length (row_bytes r) = 4 * length r"
  by (simp add: row_bytes_def length_concat comp_def sum_list_triv)

lemma nat_bytes: "(\<Sum>k<4. (n div 2 ^ (8 * k)) mod 256 * 256 ^ k) = n mod (2 ^ 32 :: nat)"
proof -
  have e: "2 ^ (8 * k) = (256 ^ k :: nat)" for k by (simp add: power_mult)
  have split: "n mod (256 * m) = n mod m + (n div m) mod 256 * m" for m :: nat
    using mod_mult2_eq[of n m 256] by (simp add: mult.commute)
  have "(\<Sum>k<j. (n div 256 ^ k) mod 256 * 256 ^ k) = n mod 256 ^ j" for j :: nat
    by (induction j) (simp_all add: split)
  from this[of 4] show ?thesis unfolding e by simp
qed

lemma float_roundtrip: "word_of_bytes (float_bytes w) = w"
proof -
  have byte: "unat (drop_bit n w) = unat w div 2 ^ n" for n
    unfolding unat_drop_bit_eq by (simp add: drop_bit_eq_div)
  have "(\<Sum>k<4. of_char (float_bytes w ! k) * 256 ^ k) = (\<Sum>k<4. (unat w div 2 ^ (8 * k)) mod 256 * (256 :: nat) ^ k)"
    by (intro sum.cong refl) (simp add: float_bytes_def byte)
  also have "\<dots> = unat w" unfolding nat_bytes using unsigned_less[of w, where 'a = nat] by simp
  finally show ?thesis by (simp add: word_of_bytes_def)
qed

lemma rows_concat: "concat (map row_bytes rows) = concat (map float_bytes (concat rows))"
  by (induction rows) (simp_all add: row_bytes_def)

lemma floats_read:
  "map word_of_bytes (groups 4 (length (concat (map float_bytes ws)) div 4) (concat (map float_bytes ws))) = ws"
proof -
  have "length (concat (map float_bytes ws)) = 4 * length ws"
    using length_row_bytes[of ws] by (simp add: row_bytes_def)
  then have "length (concat (map float_bytes ws)) div 4 = length (map float_bytes ws)" by simp
  with groups_concat[of "map float_bytes ws" 4 "[]"] show ?thesis
    by (simp add: comp_def float_roundtrip)
qed

lemma header_read: "read_head [] (trace_header @ raw) = Some (trace_header, raw)"
proof -
  let ?ls = "[''STATETRACE v1'', ''columns='' @ to_string num_columns, ''rate_hz=50'', joined state_trace_columns]"
  obtain u where u: "joined state_trace_columns = u @ ''record_state''" using names_line by blast
  have "newline \<notin> set l \<and> 3 \<le> length l \<and> \<not> ends_with (''END'' @ [newline]) (l @ [newline])" if l: "l \<in> set ?ls" for l
  proof -
    consider "l = ''STATETRACE v1''" | "l = ''columns='' @ to_string num_columns" | "l = ''rate_hz=50''"
      | "l = joined state_trace_columns" using l by fastforce
    then show ?thesis
    proof cases
      case 4
      then show ?thesis using names_one_line by (simp add: u ends_with_def)
    qed (simp_all add: ends_with_def newline_def count_digits)
  qed
  then have "read_head [] (concat (map (\<lambda>l. l @ [newline]) ?ls) @ ''END'' @ newline # raw)
      = Some ([] @ concat (map (\<lambda>l. l @ [newline]) ?ls) @ ''END'' @ [newline], raw)"
    by (intro read_head_lines) (auto simp: ends_with_def)
  then show ?thesis by (simp add: trace_header_def header_lines_def)
qed

lemma header_split: "split_on newline trace_header = header_lines @ [[]]"
  unfolding trace_header_def
proof (rule split_lines)
  show "\<forall>l\<in>set header_lines. newline \<notin> set l"
    using names_one_line by (auto simp: header_lines_def count_digits newline_def)
qed

lemma count_split: "split_on (CHR ''='') (''columns='' @ to_string n) = [''columns'', to_string n]"
proof -
  have "CHR ''='' \<notin> set (to_string n)" using to_string_plain[of n] by (auto simp: list_all_iff plain_def)
  then show ?thesis using split_on_sep[of "CHR ''=''" "''columns''" "to_string n"] by (simp add: split_on_plain)
qed

text \<open>
  C22: The trace file can be read back: at any moment of a recording, in every interleaving of the
  control thread and the writer, the bytes in the file (header and float rows) parse, give
  exactly the column names and the first rows that were kept, bit for bit and in order, and all
  of them once the writer has drained the ring; a write cut off inside a row, at a whole float,
  loses that row only.
\<close>
theorem trace_file_roundtrip:
  assumes "trace_session rows d s" "\<forall>r\<in>set rows. length r = num_columns" "length part < num_columns"
  shows "\<exists>f n. tr_file s = Some f \<and> f = take n rows \<and> length rows \<le> n + kRing
    \<and> (writer_done s \<and> tr_pc s = Sleeping \<longrightarrow> f = rows)
    \<and> load_trace (trace_bytes f) = Some (state_trace_columns, f)
    \<and> load_trace (trace_bytes f @ row_bytes part) = Some (state_trace_columns, f)"
proof -
  have names: "split_on comma (joined state_trace_columns) = state_trace_columns"
  proof (rule split_joined)
    show "state_trace_columns \<noteq> []" using columns_last by auto
    show "\<forall>n\<in>set state_trace_columns. comma \<notin> set n"
      using columns_plain unfolding list_all_iff plain_def by blast
  qed
  have load: "load_trace (trace_bytes f @ row_bytes p) = Some (state_trace_columns, f)"
    if "\<forall>r\<in>set f. length r = num_columns" "length p < num_columns" for f p
  proof -
    let ?raw = "concat (map float_bytes (concat f @ p))"
    have raw: "trace_bytes f @ row_bytes p = trace_header @ ?raw"
      by (simp add: trace_bytes_def rows_concat row_bytes_def)
    have len: "length (concat f) = num_columns * length f"
      using that(1) by (induction f) auto
    have "length (concat f @ p) div num_columns = length f"
      using len that(2) by (simp add: num_columns_value)
    then have rows: "groups num_columns (length (concat f @ p) div num_columns) (concat f @ p) = f"
      using groups_concat[OF that(1), of p] by simp
    have four: "length ?raw mod 4 = 0" using length_row_bytes[of "concat f @ p"] by (simp add: row_bytes_def)
    show ?thesis
      unfolding raw load_trace_def header_read option.case prod.case header_split header_lines_def
        append_Cons append_Nil list.case count_split[unfolded append_Cons append_Nil]
        dec_val_to_string names floats_read Let_def rows num_columns_def[symmetric]
      using four by (simp del: concat_append map_append)
  qed
  obtain t where inv: "ring_inv rows d t s" using session_inv[OF assms(1)] by blast
  obtain n where n: "tr_file s = Some (take n rows)" "length rows \<le> n + kRing"
    using saved_prefix[OF inv] by blast
  have all: "take n rows = rows" if "writer_done s" "tr_pc s = Sleeping"
    using drained[OF inv that] n(1) by simp
  have ok: "\<forall>r\<in>set (take n rows). length r = num_columns" using assms(2) in_set_takeD by fast
  have part: "length [] < num_columns" by (simp add: num_columns_value)
  have "load_trace (trace_bytes (take n rows)) = Some (state_trace_columns, take n rows)"
    using load[OF ok part] by (simp add: row_bytes_def)
  with n all load[OF ok assms(3)] show ?thesis by (intro exI[of _ "take n rows"] exI[of _ n]) blast
qed

text \<open>The witness: one row recorded and written, then half of another.\<close>

lemma trace_file_roundtrip_witness:
  "\<exists>s. trace_session [replicate 523 (1 :: 32 word)] 0 s
     \<and> load_trace (trace_bytes (the (tr_file s)) @ row_bytes (replicate 260 2))
       = Some (state_trace_columns, [replicate 523 1])"
proof -
  let ?row = "replicate 523 (1 :: 32 word)"
  define s0 where "s0 = snd (trace_start True (replicate 523 (0 :: 32 word)) trace_new)"
  define s1 where "s1 = snd (trace_record (\<lambda>_ _. ?row) s0)"
  define s2 where "s2 = writer_store 1 (writer_run 1 0 (writer_load s1))"
  note defs = s0_def s1_def s2_def trace_start_def trace_new_def trace_record_def writer_load_def
    writer_run_def writer_store_def kRing_def
  have a: "trace_session [] 0 s0"
    by (rule trace_session.opened[of trace_new "replicate 523 (0 :: 32 word)"]) (simp_all add: defs)
  have b: "trace_session ([] @ [?row]) 0 s1"
    by (rule trace_session.kept[OF a]) (simp add: defs Let_def)
  have "trace_session ([] @ [?row]) 0 (writer_load s1)"
    by (rule trace_session.load[OF b]) (simp add: defs Let_def)
  then have c: "trace_session ([] @ [?row]) 0 (writer_run 1 0 (writer_load s1))"
    by (rule trace_session.flush) (simp_all add: defs Let_def)
  have d: "trace_session ([] @ [?row]) 0 s2"
    unfolding s2_def by (rule trace_session.store[OF c]) (simp_all add: defs Let_def)
  have idle: "writer_done (trace_stop s2)" "tr_pc (trace_stop s2) = Sleeping"
    by (simp_all add: defs Let_def trace_stop_def writer_done_def)
  have cols: "\<forall>r\<in>set ([] @ [?row]). length r = num_columns"
      "length (replicate 260 (2 :: 32 word)) < num_columns" by (simp_all add: num_columns_value)
  have e: "trace_session ([] @ [?row]) 0 (trace_stop s2)" by (rule trace_session.stop[OF d])
  from trace_file_roundtrip[OF e cols] idle obtain f where
    "tr_file (trace_stop s2) = Some f" "f = [?row]"
    "load_trace (trace_bytes f @ row_bytes (replicate 260 2)) = Some (state_trace_columns, f)"
    unfolding append_Nil by blast
  then show ?thesis using e unfolding append_Nil by (intro exI[of _ "trace_stop s2"]) simp
qed

section \<open>What the row shows of the playback\<close>

text \<open>
  The frame recorded is the one the encoder was given: with the cursor on a frame, as it always
  is, the clamp changes nothing.
\<close>
lemma recorded_frame_is_played:
  "playback_inv c \<Longrightarrow> 0 < timesteps (c_playback c) \<Longrightarrow>
     ri_planner_frame (tick_info c i) = Some (frames (c_playback c) ! nat (c_cursor c))
     \<and> ri_planner_cursor (tick_info c i) = c_cursor c"
  by (auto simp: tick_info_def planner_frame_of_def playback_inv_def)

end
