(* ===== verification/Model_Start.thy ===== *)
theory Model_Start
  imports Tensor_Engine Controller "HOL-Library.Char_ord" "HOL-Library.List_Lexorder"
begin

text \<open>
  From a model file to a running network: \<open>ObsDictModel::Initialize\<close> over the engine wrapper
  (\<open>src/control/obs_dict_model.cpp\<close>, \<open>src/tensorrt/InferenceEngine.cpp\<close>), the start of the
  controller that opens the encoder and the decoder with it, and the repeated inferences of the
  control loop. What TensorRT and CUDA answer is the record \<open>model_env\<close>.
\<close>

section \<open>Opening a model\<close>

text \<open>The buffer names in the order of the map, which sorts by name.\<close>

definition get_input_buffer_names :: "trt_engine \<Rightarrow> string list" where
  "get_input_buffer_names s = sorted_list_of_set (dom (te_inputs s))"

definition get_output_buffer_names :: "trt_engine \<Rightarrow> string list" where
  "get_output_buffer_names s = sorted_list_of_set (dom (te_outputs s))"

record model_env =
  me_trt :: trt_env
  me_deserialize :: "string \<Rightarrow> io_tensor list option"
  me_runtime :: bool
  me_device :: bool
  me_context :: bool
  me_alloc :: "string \<Rightarrow> 64 word \<Rightarrow> bool"
  me_stream :: bool
  me_pinned :: bool  \<comment> \<open>the pinned host buffers can be allocated\<close>

text \<open>
  \<open>Initialize\<close>, whose last step allocates the host buffers and throws when it cannot: the outcome, the sizes of
  the two host buffers, the engine and the files.
\<close>

definition obs_dict_open ::
    "model_env \<Rightarrow> files \<Rightarrow> string \<Rightarrow> string \<Rightarrow> nat \<Rightarrow> nat \<Rightarrow> precision \<Rightarrow> trt_engine \<Rightarrow>
     engine_outcome \<times> (nat \<times> nat) \<times> trt_engine \<times> files" where
  "obs_dict_open env fs path output_name expected_in expected_out p s =
     (case convert_onnx_to_trt (me_trt env) (trt_options_default\<lparr>opt_precision := p\<rparr>) path [] False fs of
        (ok, trt, fs1) \<Rightarrow>
          if \<not> ok then (EngineFail, (0, 0), s, fs1)
          else (case engine_initialize (me_deserialize env) (me_runtime env) (me_device env) (me_context env)
                       (fs1 (the trt)) Map.empty s of
            (EngineOk, s1) \<Rightarrow>
              (case init_inputs (me_alloc env) [] s1 of
                 (EngineOk, s2) \<Rightarrow>
                   (let ins = get_input_buffer_names s2; outs = get_output_buffer_names s2;
                        in_dim = unat (obs_tensor_dim ''obs_dict'' s2);
                        out_dim = unat (obs_tensor_dim output_name s2)
                    in if length ins \<noteq> 1 \<or> ins ! 0 \<noteq> ''obs_dict'' \<or> length outs \<noteq> 1 \<or> outs ! 0 \<noteq> output_name
                       then (EngineFail, (0, 0), s2, fs1)
                       else if (expected_in \<noteq> 0 \<and> in_dim \<noteq> expected_in) \<or> (expected_out \<noteq> 0 \<and> out_dim \<noteq> expected_out)
                       then (EngineFail, (0, 0), s2, fs1)
                       else if \<not> me_stream env then (EngineFail, (0, 0), s2, fs1)
                       else if \<not> me_pinned env then (EngineThrow, (0, 0), s2, fs1)
                       else (EngineOk, (in_dim, out_dim), s2, fs1))
               | (o', s2) \<Rightarrow> (o', (0, 0), s2, fs1))
          | (o', s1) \<Rightarrow> (o', (0, 0), s1, fs1)))"

text \<open>\<open>TokenEncoder::init\<close>, \<open>PolicyDecoder::init\<close> and the controller's \<open>start\<close>, over an opener.\<close>

definition encoder_init :: "(string \<Rightarrow> nat \<Rightarrow> nat \<Rightarrow> bool) \<Rightarrow> bool" where
  "encoder_init opens = opens ''encoded_tokens'' kInputDim kTokenDim"

definition decoder_init :: "(string \<Rightarrow> nat \<Rightarrow> nat \<Rightarrow> bool) \<Rightarrow> bool" where
  "decoder_init opens = opens ''action'' kDecoderDim 29"

definition controller_start ::
    "(string \<Rightarrow> nat \<Rightarrow> nat \<Rightarrow> bool) \<Rightarrow> (string \<Rightarrow> nat \<Rightarrow> nat \<Rightarrow> bool) \<Rightarrow> bool \<Rightarrow> controller \<Rightarrow> bool \<times> controller" where
  "controller_start encoder_opens decoder_opens auto_start c =
     (let c1 = c\<lparr>c_auto_start := auto_start\<rparr>
      in if \<not> encoder_init encoder_opens then (False, c1)
         else if \<not> decoder_init decoder_opens then (False, c1)
         else (True, c1))"

definition model_release :: "trt_engine \<Rightarrow> trt_engine" where
  "model_release s = engine_destroy s"

section \<open>The inferences of a session\<close>

text \<open>
  One call: whether the context has its dimensions, what the execution would do, the observation.
  The output array belongs to the model and keeps its contents from call to call.
\<close>

record infer_in =
  ii_specified :: bool
  ii_net :: "(string \<rightharpoonup> bytes option) \<Rightarrow> (string \<Rightarrow> bytes) option"
  ii_obs :: bytes

fun infer_run :: "string \<Rightarrow> infer_in list \<Rightarrow> bytes \<Rightarrow> trt_engine \<Rightarrow> (bool \<times> bytes) list option" where
  "infer_run out [] buf s = Some []"
| "infer_run out (i # is) buf s =
     (case obs_dict_infer (ii_specified i) (ii_net i) (ii_obs i) out buf s of
        None \<Rightarrow> None
      | Some (ok, y, s') \<Rightarrow> map_option ((#) (ok, y)) (infer_run out is y s'))"

text \<open>What they should be: the network on each observation, the last answer where it does not run.\<close>

definition net_answer :: "string \<Rightarrow> infer_in \<Rightarrow> bytes \<Rightarrow> bool \<times> bytes" where
  "net_answer out i buf = (case (ii_specified i, ii_net i [''obs_dict'' \<mapsto> Some (ii_obs i)]) of
     (True, Some f) \<Rightarrow> (True, f out)
   | _ \<Rightarrow> (False, buf))"

fun net_run :: "string \<Rightarrow> infer_in list \<Rightarrow> bytes \<Rightarrow> (bool \<times> bytes) list" where
  "net_run out [] buf = []"
| "net_run out (i # is) buf = net_answer out i buf # net_run out is (snd (net_answer out i buf))"

section \<open>What a successful opening guarantees\<close>

text \<open>Of a deserialised engine: names are unique, a dimension is positive or dynamic.\<close>

definition sound_engine :: "io_tensor list \<Rightarrow> bool" where
  "sound_engine ts \<longleftrightarrow> distinct (map it_name ts) \<and> (\<forall>t\<in>set ts. \<forall>d\<in>set (it_shape t). d = -1 \<or> 0 < d)"

lemma resolve_positive:
  "resolve_shape Map.empty [] t n ds = Some shape \<Longrightarrow> \<forall>d\<in>set ds. d = -1 \<or> 0 < d \<Longrightarrow> \<forall>r\<in>set shape. 0 < r"
proof (induction ds arbitrary: n shape)
  case (Cons d ds)
  then show ?case by (auto simp: dynamic_size_def split: if_splits)
qed simp

lemma init_tensor_shape:
  assumes "init_tensor alloc sizes t s = (EngineOk, s')"
  shows "\<exists>shape. resolve_shape (te_axis_names s) sizes t 0 (it_shape t) = Some shape
    \<and> te_shapes s' = (te_shapes s)(it_name t \<mapsto> shape)" "te_axis_names s' = te_axis_names s"
  using assms
  by (auto simp: init_tensor_def Let_def split: option.splits prod.splits engine_outcome.splits if_splits)

lemma init_tensors_shapes:
  assumes "init_tensors alloc sizes ts s = (EngineOk, s')" "distinct (map it_name ts)"
  shows "(\<forall>t\<in>set ts. te_shapes s' (it_name t) = resolve_shape (te_axis_names s) sizes t 0 (it_shape t)
      \<and> resolve_shape (te_axis_names s) sizes t 0 (it_shape t) \<noteq> None)
    \<and> (\<forall>n. n \<notin> it_name ` set ts \<longrightarrow> te_shapes s' n = te_shapes s n)"
  using assms
proof (induction ts arbitrary: s)
  case (Cons t ts)
  obtain o' s1 where one: "init_tensor alloc sizes t s = (o', s1)" by (cases "init_tensor alloc sizes t s")
  with Cons.prems have ok: "o' = EngineOk" by (cases o') auto
  then have rest: "init_tensors alloc sizes ts s1 = (EngineOk, s')" using Cons.prems one by simp
  note one = one[unfolded ok]
  obtain shape where shape: "resolve_shape (te_axis_names s) sizes t 0 (it_shape t) = Some shape"
    "te_shapes s1 = (te_shapes s)(it_name t \<mapsto> shape)" using init_tensor_shape(1)[OF one] by blast
  from Cons.IH[OF rest] Cons.prems(2) show ?case
    unfolding init_tensor_shape(2)[OF one] by (auto simp: shape)
qed simp

text \<open>The two dimension products agree when every dimension is positive.\<close>

lemma positive_product:
  "\<forall>r\<in>set shape. 0 < r \<Longrightarrow>
     foldl (\<lambda>n d. if d > 0 then n * word_of_int d else n) w shape = foldl (\<lambda>n d. n * word_of_int d) (w :: 64 word) shape"
  by (induction shape arbitrary: w) auto

text \<open>An engine whose two transfers accept \<open>n\<close> and \<open>m\<close> floats.\<close>

definition serves :: "string \<Rightarrow> nat \<Rightarrow> nat \<Rightarrow> trt_engine \<Rightarrow> bool" where
  "serves out n m s \<longleftrightarrow> out \<noteq> ''obs_dict'' \<and>
     (\<exists>sa za sb zb ba bb. te_shapes s ''obs_dict'' = Some sa \<and> te_type_sizes s ''obs_dict'' = Some za
        \<and> expected_bytes sa za = of_nat (4 * n)
        \<and> te_shapes s out = Some sb \<and> te_type_sizes s out = Some zb \<and> expected_bytes sb zb = of_nat (4 * m)
        \<and> te_inputs s = [''obs_dict'' \<mapsto> Some ba] \<and> te_outputs s out = Some (Some bb))"

lemma infer_serves:
  assumes "serves out n m s" "length (ii_obs i) = 4 * n" "length buf = 4 * m"
  shows "\<exists>s'. obs_dict_infer (ii_specified i) (ii_net i) (ii_obs i) out buf s
      = Some (fst (net_answer out i buf), snd (net_answer out i buf), s') \<and> serves out n m s'"
proof -
  obtain sa za sb zb ba bb where e: "te_shapes s ''obs_dict'' = Some sa" "te_type_sizes s ''obs_dict'' = Some za"
    "expected_bytes sa za = of_nat (4 * n)" "te_shapes s out = Some sb" "te_type_sizes s out = Some zb"
    "expected_bytes sb zb = of_nat (4 * m)" "te_inputs s = [''obs_dict'' \<mapsto> Some ba]"
    "te_outputs s out = Some (Some bb)" "out \<noteq> ''obs_dict''"
    using assms(1) by (auto simp: serves_def)
  let ?s1 = "s\<lparr>te_inputs := [''obs_dict'' \<mapsto> Some (ii_obs i)]\<rparr>"
  have set: "set_input_data ''obs_dict'' (ii_obs i) s = Some ?s1"
    using e assms(2) by (simp add: set_input_data_def validate_tensor_size_def)
  have ne: "te_shapes ?s1 \<noteq> Map.empty" using e(1) by auto
  have s1: "serves out n m ?s1" using e by (auto simp: serves_def)
  show ?thesis
  proof (cases "ii_specified i \<and> ii_net i [''obs_dict'' \<mapsto> Some (ii_obs i)] \<noteq> None")
    case False
    then have "engine_enqueue (ii_specified i) (ii_net i) ?s1 = (False, ?s1)"
      using ne by (auto simp: engine_enqueue_def)
    moreover have "net_answer out i buf = (False, buf)" using False by (auto simp: net_answer_def split: bool.splits option.splits)
    ultimately show ?thesis using set s1 by (simp add: obs_dict_infer_def)
  next
    case True
    then obtain f where f: "ii_net i [''obs_dict'' \<mapsto> Some (ii_obs i)] = Some f" "ii_specified i" by auto
    let ?s2 = "?s1\<lparr>te_outputs := (\<lambda>name. case te_outputs ?s1 name of Some (Some _) \<Rightarrow> Some (Some (f name)) | y \<Rightarrow> y)\<rparr>"
    have "engine_enqueue (ii_specified i) (ii_net i) ?s1 = (True, ?s2)" using ne f by (simp add: engine_enqueue_def)
    moreover have "get_output_data out buf ?s2 = Some (f out, ?s2)"
      using e assms(3) by (simp add: get_output_data_def validate_tensor_size_def)
    moreover have "net_answer out i buf = (True, f out)" using f by (simp add: net_answer_def)
    moreover have "serves out n m ?s2" using e by (auto simp: serves_def)
    ultimately show ?thesis using set by (simp add: obs_dict_infer_def)
  qed
qed

lemma run_serves:
  assumes "serves out n m s" "length buf = 4 * m"
    and "\<forall>i\<in>set is. length (ii_obs i) = 4 * n \<and> (\<forall>ins f. ii_net i ins = Some f \<longrightarrow> length (f out) = 4 * m)"
  shows "infer_run out is buf s = Some (net_run out is buf)"
  using assms
proof (induction "is" arbitrary: buf s)
  case (Cons i "is")
  have obs: "length (ii_obs i) = 4 * n" using Cons.prems(3) by simp
  have len: "length (snd (net_answer out i buf)) = 4 * m"
    using Cons.prems(2,3) by (auto simp: net_answer_def split: option.splits bool.splits)
  from infer_serves[of out n m s i buf] Cons.prems(1,2) obs obtain s' where
    "obs_dict_infer (ii_specified i) (ii_net i) (ii_obs i) out buf s
      = Some (fst (net_answer out i buf), snd (net_answer out i buf), s')" "serves out n m s'" by blast
  with Cons.IH[OF this(2) len] Cons.prems(3) show ?case by simp
qed simp

text \<open>The single name of a buffer map, as the code tests it.\<close>

lemma single_name:
  assumes "finite (dom m)" "length (sorted_list_of_set (dom m)) = 1" "sorted_list_of_set (dom m) ! 0 = k"
  shows "dom m = {k :: string}"
proof -
  obtain x where x: "sorted_list_of_set (dom m) = [x]" using assms(2) by (cases "sorted_list_of_set (dom m)") auto
  with assms(1,3) set_sorted_list_of_set[of "dom m"] show ?thesis by simp
qed

lemma dom_single: "dom m = {k} \<Longrightarrow> m k = Some v \<Longrightarrow> m = [k \<mapsto> v]"
  by (rule ext) (auto simp: domIff set_eq_iff)

lemma open_steps:
  assumes "obs_dict_open env fs path out ei eo p s = (EngineOk, (n, m), s', fs')"
  obtains content s1 where
    "engine_initialize (me_deserialize env) (me_runtime env) (me_device env) (me_context env) content Map.empty s = (EngineOk, s1)"
    "init_inputs (me_alloc env) [] s1 = (EngineOk, s')"
    "length (get_input_buffer_names s') = 1" "get_input_buffer_names s' ! 0 = ''obs_dict''"
    "length (get_output_buffer_names s') = 1" "get_output_buffer_names s' ! 0 = out"
    "n = unat (obs_tensor_dim ''obs_dict'' s')" "m = unat (obs_tensor_dim out s')"
    "ei = 0 \<or> n = ei" "eo = 0 \<or> m = eo"
proof -
  obtain ok trt fs1 where c: "convert_onnx_to_trt (me_trt env) (trt_options_default\<lparr>opt_precision := p\<rparr>) path [] False fs
      = (ok, trt, fs1)" by (rule prod_cases3)
  obtain o1 s1 where i: "engine_initialize (me_deserialize env) (me_runtime env) (me_device env) (me_context env)
      (fs1 (the trt)) Map.empty s = (o1, s1)" by fastforce
  obtain o2 s2 where t: "init_inputs (me_alloc env) [] s1 = (o2, s2)" by fastforce
  have oks: "ok" "o1 = EngineOk" "o2 = EngineOk"
    using assms c i t by (auto simp: obs_dict_open_def split: engine_outcome.splits if_splits)
  note run = assms[unfolded obs_dict_open_def c prod.case i t oks engine_outcome.case Let_def]
  show thesis
    using run i[unfolded oks] t[unfolded oks] by (intro that[of "fs1 (the trt)" s1]) (auto split: if_splits)
qed

lemma initialize_steps:
  assumes "engine_initialize deserialize runtime device context content names s = (EngineOk, s1)"
  obtains c ts where "deserialize c = Some ts" "te_tensors s1 = Some ts" "te_axis_names s1 = names"
    "te_type_sizes s1 = te_type_sizes s ++ map_of (map (\<lambda>t. (it_name t, size_of_tensor_data_type (it_type t))) ts)"
proof -
  obtain c ts where "content = Some c" "deserialize (drop 64 c) = Some ts"
    using assms by (auto simp: engine_initialize_def Let_def split: option.splits if_splits)
  with assms show thesis
    by (intro that[of "drop 64 c" ts])
      (auto simp: engine_initialize_def engine_destroy_def destroy_buffers_def Let_def split: if_splits)
qed

lemma open_ready:
  assumes sound: "\<forall>c ts. me_deserialize env c = Some ts \<longrightarrow> sound_engine ts"
    and run: "obs_dict_open env fs path out ei eo p s = (EngineOk, (n, m), s', fs')" and "out \<noteq> ''obs_dict''"
  obtains sa za sb zb ba bb where
    "te_shapes s' ''obs_dict'' = Some sa" "te_type_sizes s' ''obs_dict'' = Some za"
    "te_shapes s' out = Some sb" "te_type_sizes s' out = Some zb"
    "te_inputs s' = [''obs_dict'' \<mapsto> Some ba]" "te_outputs s' out = Some (Some bb)"
    "expected_bytes sa za = of_nat n * word_of_int za" "expected_bytes sb zb = of_nat m * word_of_int zb"
    "ei = 0 \<or> n = ei" "eo = 0 \<or> m = eo"
proof -
  from open_steps[OF run] obtain content s1 where o:
    "engine_initialize (me_deserialize env) (me_runtime env) (me_device env) (me_context env) content Map.empty s = (EngineOk, s1)"
    "init_inputs (me_alloc env) [] s1 = (EngineOk, s')"
    "length (get_input_buffer_names s') = 1" "get_input_buffer_names s' ! 0 = ''obs_dict''"
    "length (get_output_buffer_names s') = 1" "get_output_buffer_names s' ! 0 = out"
    "n = unat (obs_tensor_dim ''obs_dict'' s')" "m = unat (obs_tensor_dim out s')"
    "ei = 0 \<or> n = ei" "eo = 0 \<or> m = eo" by blast
  from initialize_steps[OF o(1)] obtain c ts where i: "me_deserialize env c = Some ts" "te_tensors s1 = Some ts"
    "te_axis_names s1 = Map.empty"
    "te_type_sizes s1 = te_type_sizes s ++ map_of (map (\<lambda>t. (it_name t, size_of_tensor_data_type (it_type t))) ts)"
    by blast
  have ts: "distinct (map it_name ts)" "\<forall>t\<in>set ts. \<forall>d\<in>set (it_shape t). d = -1 \<or> 0 < d"
    using sound i(1) by (auto simp: sound_engine_def)
  let ?d = "destroy_buffers s1"
  have t: "init_tensors (me_alloc env) [] ts ?d = (EngineOk, s')"
    using o(2) i(2) by (simp add: init_inputs_def destroy_buffers_def)
  note ok = init_tensors_ok[OF t ts(1)] and sh = init_tensors_shapes[OF t ts(1)]
  have finite: "finite (dom (te_inputs s'))" "finite (dom (te_outputs s'))" using ok by (simp_all add: destroy_buffers_def)
  have ins: "dom (te_inputs s') = {''obs_dict''}"
    by (rule single_name[OF finite(1) o(3,4)[unfolded get_input_buffer_names_def]])
  have outs: "dom (te_outputs s') = {out}"
    by (rule single_name[OF finite(2) o(5,6)[unfolded get_output_buffer_names_def]])
  have "''obs_dict'' \<in> dom (te_inputs s')" "out \<in> dom (te_outputs s')" using ins outs by auto
  then obtain a b where a: "a \<in> set ts" "it_name a = ''obs_dict''" "it_input a"
    and b: "b \<in> set ts" "it_name b = out" "\<not> it_input b"
    using ok by (auto simp: destroy_buffers_def)
  have shapes: "\<exists>shape. te_shapes s' (it_name x) = Some shape \<and> (\<forall>r\<in>set shape. 0 < r)" if x: "x \<in> set ts" for x
  proof -
    obtain shape where shape: "resolve_shape Map.empty [] x 0 (it_shape x) = Some shape" "te_shapes s' (it_name x) = Some shape"
      using sh x i(3) by (auto simp: destroy_buffers_def)
    from resolve_positive[OF shape(1)] ts(2) x shape(2) show ?thesis by blast
  qed
  obtain sa where sa: "te_shapes s' ''obs_dict'' = Some sa" "\<forall>r\<in>set sa. 0 < r" using shapes[OF a(1)] a(2) by auto
  obtain sb where sb: "te_shapes s' out = Some sb" "\<forall>r\<in>set sb. 0 < r" using shapes[OF b(1)] b(2) by auto
  have sizes: "te_type_sizes s' (it_name x) = Some (size_of_tensor_data_type (it_type x))" if x: "x \<in> set ts" for x
  proof -
    have "map_of (map (\<lambda>t. (it_name t, size_of_tensor_data_type (it_type t))) ts) (it_name x)
        = Some (size_of_tensor_data_type (it_type x))"
      using x ts(1) by (intro map_of_is_SomeI) (auto simp: comp_def)
    then show ?thesis using ok i(4) by (simp add: destroy_buffers_def)
  qed
  have ready: "tensor_ready a s'" "tensor_ready b s'" using ok a(1) b(1) by (auto simp: list_all_iff)
  obtain ba where ba: "te_inputs s' ''obs_dict'' = Some (Some ba)" using ready(1) a by (auto simp: tensor_ready_def)
  obtain bb where bb: "te_outputs s' out = Some (Some bb)" using ready(2) b by (auto simp: tensor_ready_def)
  have one: "te_inputs s' = [''obs_dict'' \<mapsto> Some ba]"
    using dom_single[of "te_inputs s'" "''obs_dict''" "Some ba"] ins ba by (simp only:)
  have bytes: "expected_bytes sh z = of_nat (unat (obs_tensor_dim k s')) * word_of_int z"
    if "te_shapes s' k = Some sh" "\<forall>r\<in>set sh. 0 < r" for k sh z
  proof -
    have "obs_tensor_dim k s' = foldl (\<lambda>n d. n * word_of_int d) 1 sh"
      unfolding obs_tensor_dim_def get_tensor_shape_def that(1) option.case by (rule positive_product[OF that(2)])
    then show ?thesis by (simp add: expected_bytes_def)
  qed
  show thesis
    by (rule that[OF sa(1) sizes[OF a(1), unfolded a(2)] sb(1) sizes[OF b(1), unfolded b(2)] one bb
        bytes[OF sa, folded o(7)] bytes[OF sb, folded o(8)] o(9,10)])
qed


text \<open>The witness: a model with one float in and one out, its converted file already there.\<close>

definition one_in :: io_tensor where
  "one_in = \<lparr>it_name = ''obs_dict'', it_input = True, it_shape = [1, 1], it_type = KFLOAT, it_min = [], it_max = []\<rparr>"

definition one_out :: io_tensor where
  "one_out = \<lparr>it_name = ''action'', it_input = False, it_shape = [1, 1], it_type = KFLOAT, it_min = [], it_max = []\<rparr>"

definition small_env :: "io_tensor \<Rightarrow> model_env" where
  "small_env t = \<lparr>me_trt = \<lparr>env_hash = (\<lambda>x. replicate 64 CHR ''h''), env_device = [], env_builder_ok = False,
       env_network_ok = False, env_parser_ok = False, env_parse = (\<lambda>_. None), env_config_ok = False,
       env_build = (\<lambda>_ _ _. None)\<rparr>,
     me_deserialize = (\<lambda>_. Some [t, one_out]), me_runtime = True, me_device = True, me_context = True,
     me_alloc = (\<lambda>_ _. True), me_stream = True, me_pinned = True\<rparr>"

definition small_files :: files where
  "small_files = [''m.onnx'' \<mapsto> ''net'', ''m.trt'' \<mapsto> replicate 64 CHR ''h'']"

definition small_open :: "io_tensor \<Rightarrow> engine_outcome \<times> (nat \<times> nat) \<times> trt_engine \<times> files" where
  "small_open t = obs_dict_open (small_env t) small_files ''m.onnx'' ''action'' 1 1 FP32 trt_engine_new"

lemma small_sound: "it_name t = ''obs_dict'' \<Longrightarrow> it_shape t = [1, 1] \<Longrightarrow>
    \<forall>c ts. me_deserialize (small_env t) c = Some ts \<longrightarrow> sound_engine ts"
  by (auto simp: small_env_def sound_engine_def one_out_def)

lemma small_convert: "convert_onnx_to_trt (me_trt (small_env t)) opts ''m.onnx'' [] False small_files
    = (True, Some ''m.trt'', small_files)"
  by (simp add: convert_onnx_to_trt_def trt_path_def find_last_of_def small_files_def small_env_def model_hash_def
      hash_in_file_def Let_def)

lemma small_run:
  assumes "ty \<noteq> KOTHER"
  shows "\<exists>s'. small_open (one_in\<lparr>it_type := ty\<rparr>) = (EngineOk, (1, 1), s', small_files)
    \<and> te_type_sizes s' ''obs_dict'' = Some (size_of_tensor_data_type ty) \<and> te_type_sizes s' ''action'' = Some 4"
proof -
  let ?t = "one_in\<lparr>it_type := ty\<rparr>"
  obtain s1 where init: "engine_initialize (me_deserialize (small_env ?t)) (me_runtime (small_env ?t))
      (me_device (small_env ?t)) (me_context (small_env ?t)) (small_files (the (Some ''m.trt''))) Map.empty trt_engine_new
      = (EngineOk, s1)" "te_tensors s1 = Some [?t, one_out]" "te_axis_names s1 = Map.empty"
      "te_type_sizes s1 = [''action'' \<mapsto> 4, ''obs_dict'' \<mapsto> size_of_tensor_data_type ty]"
    by (simp add: engine_initialize_def small_env_def small_files_def trt_engine_new_def engine_destroy_def
        destroy_buffers_def one_in_def one_out_def Let_def)
  have size: "size_of_tensor_data_type ty \<noteq> -1" using assms by (cases ty) simp_all
  obtain s2 where inputs: "init_inputs (me_alloc (small_env ?t)) [] s1 = (EngineOk, s2)"
      "dom (te_inputs s2) = {''obs_dict''}" "dom (te_outputs s2) = {''action''}"
      "te_shapes s2 = [''obs_dict'' \<mapsto> [1, 1], ''action'' \<mapsto> [1, 1]]" "te_type_sizes s2 = te_type_sizes s1"
    using init(2,3) assms size
    by (simp add: init_inputs_def init_tensor_def destroy_buffers_def small_env_def one_in_def one_out_def
        int64_max_def signed_divide_int_def Let_def)
  have "small_open ?t = (EngineOk, (1, 1), s2, small_files)"
    unfolding small_open_def obs_dict_open_def small_convert prod.case init(1) engine_outcome.case inputs(1)
    by (simp add: get_input_buffer_names_def get_output_buffer_names_def inputs(2,3) obs_tensor_dim_def
        get_tensor_shape_def inputs(4)) (simp add: small_env_def)
  then show ?thesis using inputs(5) init(4) by simp
qed




section \<open>Starting the controller\<close>

text \<open>The controller starts exactly when both of its models open with their fixed layouts.\<close>
lemma controller_start_iff:
  "fst (controller_start e d auto c) \<longleftrightarrow> e ''encoded_tokens'' 1751 64 \<and> d ''action'' 994 29"
  "snd (controller_start e d auto c) = c\<lparr>c_auto_start := auto\<rparr>"
  by (simp_all add: controller_start_def encoder_init_def decoder_init_def encoder_offsets decoder_offsets Let_def)

text \<open>A released engine refuses every inference and may be released again.\<close>
lemma release_idempotent:
  "model_release (model_release s) = model_release s"
  "fst (engine_enqueue specified net (model_release s)) = False"
  by (simp_all add: model_release_def engine_destroy_def destroy_buffers_def engine_enqueue_def)

end
