(* ===== verification/Spec2Isabelle.thy ===== *)
theory Spec2Isabelle
  imports Arbiter Channels Robot_Tables Quaternion State_Logger Record_Control Receivers
    Input_Handler Motion Planner Reseed Policy Controller Hand_Command Hand_Writer Unitree_Link
    Command_Writer Motor_Health Lifecycle Trace_Ring Observers Vec3 Smpl_Fk Arm_Reach Calibration
    Head_Ring Smpl_Resampler Teleop Vr_Reader Tensor_Engine Console_Tee Pipeline Estop_Path Trace_File
    Model_Start
begin

text \<open>
  Verification library of the gearsonic inference pipeline: the C++ program under \<open>src/\<close> and
  \<open>include/\<close> that drives a Unitree G1 humanoid with two Dex3 hands from a VR headset, a
  locomotion planner, a whole-body policy and an external token stream.

  THE PROGRAM. Threads exchange newest-value buffers (\<open>DataBuffer\<close>) and queues. The VR reader
  publishes controller and body frames; the input handler (500 Hz) turns the controller into a
  movement command, an emergency-stop latch and recording gestures; the teleoperation tracker
  (50 Hz) turns body frames into three-point targets or a ten-frame full-body window; the planner
  (10 Hz) turns the movement command and the measured pose into a 50 Hz motion; the whole-body
  controller (50 Hz) plays the motion, encodes it with the targets into a token, arbitrates between
  its own token and the external stream, decodes the token into a motor command; the command
  writer (500 Hz) signs and sends it, the hand writer (100 Hz) commands the fingers. The motor
  health monitor, the state trace, the token publisher and the console mirror observe.
  \<open>GearsonicInference\<close> starts and stops all of it.

  THEORIES, in the order of the code (each theory names its sources and each definition keeps
  the name of the function it translates):
  \<^item> \<open>Prelude\<close>: clamp, cross-fade, last items of a list; the locales \<open>latch\<close> (an alarm as a function
    of its history) and \<open>stepper\<close> (interleaved steps that keep an invariant never fault).
  \<^item> \<open>Channels\<close> (\<open>common/data_buffer.hpp\<close>, \<open>event_queue.hpp\<close>): buffers, bounded queue; the locale
    \<open>bounded_log\<close> for every ring of the program. \<open>Robot_Tables\<close>, \<open>Quaternion\<close>, \<open>Vec3\<close>: joint orders,
    gains and the mathematics.
  \<^item> \<open>Arbiter\<close> (\<open>control/control_arbiter.hpp\<close>), \<open>State_Logger\<close>, \<open>Record_Control\<close>, \<open>Receivers\<close>,
    \<open>Input_Handler\<close>: ownership of the token, history, recording gestures, wire validation, operator input.
  \<^item> \<open>Motion\<close>, \<open>Planner\<close>, \<open>Reseed\<close> (\<open>planner/\<close>): motions and their resampling, the planner thread, the
    re-initialisation tickets under interleaving.
  \<^item> \<open>Policy\<close> (\<open>token_encoder\<close>, \<open>policy_decoder\<close>), \<open>Tensor_Engine\<close> (\<open>tensorrt/\<close>), \<open>Model_Start\<close>
    (\<open>obs_dict_model\<close>, starting the controller): observations and actions, the engine wrapper with its
    64-bit arithmetic, and the way from a model file to a session of inferences.
  \<^item> \<open>Controller\<close> (\<open>control/whole_body_controller.cpp\<close>): one tick with every branch and state change.
  \<^item> \<open>Smpl_Fk\<close>, \<open>Arm_Reach\<close>, \<open>Calibration\<close>, \<open>Head_Ring\<close>, \<open>Smpl_Resampler\<close>, \<open>Teleop\<close> (\<open>teleop/\<close>): skeleton,
    arms, calibration, jitter buffer, gestures and the tracker tick. \<open>Vr_Reader\<close> (\<open>pico/\<close>): the callback
    from headset text to frames.
  \<^item> \<open>Hand_Command\<close>, \<open>Hand_Writer\<close>, \<open>Unitree_Link\<close>, \<open>Command_Writer\<close>, \<open>Motor_Health\<close> (\<open>unitree/\<close>): finger
    targets and their protection, checksum and packet intake, publication, alarms.
  \<^item> \<open>Lifecycle\<close> (\<open>system/\<close>, \<open>main.cpp\<close>): start with every failure, shutdown. \<open>Trace_Ring\<close>, \<open>Observers\<close>,
    \<open>Trace_File\<close> (\<open>state_trace\<close>, \<open>motion_token_publisher\<close>): ring, rows, bytes. \<open>Console_Tee\<close>: the mirror.
  \<^item> \<open>Pipeline\<close> and \<open>Estop_Path\<close>: the loops side by side, in any interleaving.

  WHAT THE LEMMAS SHOW. Composition: the control, planner and tracker loops never fault, whatever
  the networks, the operator and the schedule do; a held emergency stop damps every joint and
  stops both hands from the next tick on, for good; a token stream that takes over disarms
  teleoperation; a model that opens serves every later inference. Components: handover only
  through the origin, the latch as a predicate on the operator's samples, loss of the robot state and
  recovery from it, blends and ramps with their bounds, torque and joint limits of the hands, checksum
  and watchdog, alarm logs that determine the alarm state. Equivalences and refinements: the jitter
  buffer is delayed linear interpolation, the full-body window the operator's motion five ticks late,
  rings the lists of their last items, the trace file the rows recorded, read back bit for bit.
  Errors: refused and throwing starts, the three outcomes of the headset callback, refused transfers.
  Some theorems state what the code does where a comment promises otherwise; the manifest lists them
  as findings.

  CONVENTIONS. \<open>float\<close> and \<open>double\<close> are reals (rounding is not modelled); values from the wire or from
  text carry NaN and the infinities (\<open>wire_float\<close>) and so do planner outputs, as an option. Counters
  and checksums keep their width. A time is an integer of nanoseconds; each read of a clock or of
  another module's buffer is an input of the step that makes it. A null dereference or an
  out-of-range read is \<^const>\<open>None\<close> or a trap outcome. One iteration of a loop is one step; buffers are
  atomic under their mutex, and where a step holds no lock across several accesses
  (re-initialisation tickets, the trace ring) the steps are split. Loops with data-dependent length
  recurse on the data; the write loop of the console mirror takes the list of the system's
  answers, and the file reader's loop is proved to terminate by the length of the rest; no other fuel
  is used.

  NOT MODELLED. TensorRT, CUDA, the robot SDK and its message layouts, the JSON and YAML parsers, the
  digest, the motion switcher and the operating system: parameters, or flags for their outcome;
  an asynchronous copy takes place where the stream orders it, before the synchronisation every
  inference ends with. Thread creation, names and priorities (\<open>thread_priority.hpp\<close>), the end of a
  loop by an exception, log wording and latches only the log reads, the debug print of the tracker
  behind a constant false, the logger of the engine wrapper and its forwarding overloads, the daemon socket probe and SDK session of the VR reader, the signal handlers, and the
  exactness of subnormal numbers in \<open>stod\<close>.
\<close>

end
